theory Spec2Isabelle
  imports Complex_Main "HOL-Library.Word"
begin

unbundle bit_operations_syntax

section \<open>Precise stepping engine: data model\<close>

text \<open>
  The embedding follows \<^verbatim>\<open>precise_stepping.cpp\<close> in the build without
  \<^verbatim>\<open>COREXY\<close>, \<^verbatim>\<open>ADVANCED_STEP_GENERATORS\<close> and \<^verbatim>\<open>FAIL_ON_NEGATIVE_STEP_TIME\<close>
  (the \<^verbatim>\<open>#else\<close> branches). The fields of type \<^verbatim>\<open>double\<close> and \<^verbatim>\<open>float\<close> are exact reals and
  \<^verbatim>\<open>std::numeric_limits<double>::max()\<close> is the real \<open>DBL_MAX\<close>. Rounding is not modelled,
  except at the conversion of a time to ticks, where the computed difference and product
  are parameters. The local values of the block to segment compiler, which may be
  infinite or NaN after a division by zero or the root of a negative number, have the type
  \<open>double\<close> below; the NaN result of the helper \<^verbatim>\<open>calc_time_for_distance\<close> is \<open>None\<close>.
  Struct fields carry a prefix naming their struct, since several structs of the source
  share field names (\<^verbatim>\<open>flags\<close>, \<^verbatim>\<open>start_v\<close>, \<^verbatim>\<open>head\<close>).
\<close>

datatype axis = X_AXIS | Y_AXIS | Z_AXIS | E_AXIS

fun axis_num :: "axis \<Rightarrow> nat" where
  "axis_num X_AXIS = 0"
| "axis_num Y_AXIS = 1"
| "axis_num Z_AXIS = 2"
| "axis_num E_AXIS = 3"

text \<open>\<^verbatim>\<open>xyze_double_t\<close>, \<^verbatim>\<open>xyze_long_t\<close> and the four-element \<^verbatim>\<open>std::array\<close>s indexed by axis.\<close>

datatype 'a xyze = XYZE (x_of: 'a) (y_of: 'a) (z_of: 'a) (e_of: 'a)

fun xyze_get :: "'a xyze \<Rightarrow> axis \<Rightarrow> 'a" where
  "xyze_get v X_AXIS = x_of v"
| "xyze_get v Y_AXIS = y_of v"
| "xyze_get v Z_AXIS = z_of v"
| "xyze_get v E_AXIS = e_of v"

fun xyze_set :: "'a xyze \<Rightarrow> axis \<Rightarrow> 'a \<Rightarrow> 'a xyze" where
  "xyze_set (XYZE a b c d) X_AXIS v = XYZE v b c d"
| "xyze_set (XYZE a b c d) Y_AXIS v = XYZE a v c d"
| "xyze_set (XYZE a b c d) Z_AXIS v = XYZE a b v d"
| "xyze_set (XYZE a b c d) E_AXIS v = XYZE a b c v"

definition xyze_map2 :: "('a \<Rightarrow> 'b \<Rightarrow> 'c) \<Rightarrow> 'a xyze \<Rightarrow> 'b xyze \<Rightarrow> 'c xyze" where
  "xyze_map2 f u v =
     XYZE (f (x_of u) (x_of v)) (f (y_of u) (y_of v)) (f (z_of u) (z_of v)) (f (e_of u) (e_of v))"

definition BV :: "nat \<Rightarrow> 'a::len word" where
  "BV n = push_bit n 1"

definition DBL_MAX :: real where
  "DBL_MAX = (2 - 1 / 2 ^ 52) * 2 ^ 1023"

subsection \<open>Doubles that are not finite\<close>

text \<open>A value of type \<^verbatim>\<open>double\<close> where the source may compute an infinity or NaN: a finite
  value is an exact real. The operations follow IEEE 754 on the values that are not
  finite; the sign of zero is not modelled (every zero is \<open>+0\<close>, so that \<open>x / 0\<close> is the
  infinity with the sign of \<open>x\<close> and \<open>0 / 0\<close> is NaN). A comparison with NaN is false,
  \<open>\<noteq>\<close> with NaN is true.\<close>

datatype double = Finite real | PosInf | NegInf | NaN

fun signed_inf :: "real \<Rightarrow> double" where
  "signed_inf s = (if 0 < s then PosInf else if s < 0 then NegInf else NaN)"

fun double_sign :: "double \<Rightarrow> real" where
  "double_sign (Finite a) = sgn a"
| "double_sign PosInf = 1"
| "double_sign NegInf = - 1"
| "double_sign NaN = 0"

instantiation double :: "{zero, uminus, plus, minus, times, inverse, ord}"
begin

definition zero_double :: double where
  "zero_double = Finite 0"

fun uminus_double :: "double \<Rightarrow> double" where
  "uminus_double (Finite a) = Finite (- a)"
| "uminus_double PosInf = NegInf"
| "uminus_double NegInf = PosInf"
| "uminus_double NaN = NaN"

fun plus_double :: "double \<Rightarrow> double \<Rightarrow> double" where
  "plus_double (Finite a) (Finite b) = Finite (a + b)"
| "plus_double NaN b = NaN"
| "plus_double a NaN = NaN"
| "plus_double PosInf NegInf = NaN"
| "plus_double NegInf PosInf = NaN"
| "plus_double PosInf b = PosInf"
| "plus_double a PosInf = PosInf"
| "plus_double NegInf b = NegInf"
| "plus_double a NegInf = NegInf"

definition minus_double :: "double \<Rightarrow> double \<Rightarrow> double" where
  "minus_double a b = a + (- b)"

fun times_double :: "double \<Rightarrow> double \<Rightarrow> double" where
  "times_double (Finite a) (Finite b) = Finite (a * b)"
| "times_double NaN b = NaN"
| "times_double a NaN = NaN"
| "times_double a b = signed_inf (double_sign a * double_sign b)"

fun divide_double :: "double \<Rightarrow> double \<Rightarrow> double" where
  "divide_double (Finite a) (Finite b) = (if b = 0 then signed_inf a else Finite (a / b))"
| "divide_double NaN b = NaN"
| "divide_double a NaN = NaN"
| "divide_double (Finite a) b = Finite 0"
| "divide_double a (Finite b) = signed_inf (double_sign a * (if b < 0 then - 1 else 1))"
| "divide_double a b = NaN"

definition inverse_double :: "double \<Rightarrow> double" where
  "inverse_double a = divide (Finite 1) a"

fun less_double :: "double \<Rightarrow> double \<Rightarrow> bool" where
  "less_double (Finite a) (Finite b) = (a < b)"
| "less_double NaN b = False"
| "less_double a NaN = False"
| "less_double a NegInf = False"
| "less_double NegInf b = True"
| "less_double PosInf b = False"
| "less_double a PosInf = True"

fun less_eq_double :: "double \<Rightarrow> double \<Rightarrow> bool" where
  "less_eq_double (Finite a) (Finite b) = (a \<le> b)"
| "less_eq_double NaN b = False"
| "less_eq_double a NaN = False"
| "less_eq_double NegInf b = True"
| "less_eq_double a PosInf = True"
| "less_eq_double a b = False"

instance ..

end

text \<open>\<^verbatim>\<open>std::sqrt\<close> and \<^verbatim>\<open>std::max\<close> (which returns its first argument unless it is less than
  the second).\<close>

fun double_sqrt :: "double \<Rightarrow> double" where
  "double_sqrt (Finite a) = (if 0 \<le> a then Finite (sqrt a) else NaN)"
| "double_sqrt PosInf = PosInf"
| "double_sqrt NegInf = NaN"
| "double_sqrt NaN = NaN"

definition std_max :: "double \<Rightarrow> double \<Rightarrow> double" where
  "std_max a b = (if a < b then b else a)"

lemma double_finite_simps [simp]:
  "Finite a + Finite b = Finite (a + b)"
  "Finite a - Finite b = Finite (a - b)"
  "Finite a * Finite b = Finite (a * b)"
  "b \<noteq> 0 \<Longrightarrow> Finite a / Finite b = Finite (a / b)"
  "(Finite a < Finite b) = (a < b)"
  "(Finite a \<le> Finite b) = (a \<le> b)"
  "(Finite a = 0) = (a = 0)"
  "(0 = Finite a) = (a = 0)"
  "(0 :: double) \<noteq> NaN" "(0 :: double) \<noteq> PosInf" "(0 :: double) \<noteq> NegInf"
  "NaN \<noteq> (0 :: double)" "PosInf \<noteq> (0 :: double)" "NegInf \<noteq> (0 :: double)"
  by (auto simp: zero_double_def minus_double_def)

subsection \<open>Planner block\<close>

text \<open>The fields of \<^verbatim>\<open>block_t\<close> the engine reads. \<^verbatim>\<open>steps\<close> is unsigned 32-bit,
  \<^verbatim>\<open>position\<close> signed 32-bit, the speeds and distances are \<^verbatim>\<open>float\<close>.\<close>

record block_t =
  blk_steps :: "32 word xyze"
  blk_direction_bits :: "8 word"
  blk_millimeters :: real
  blk_acceleration :: real
  blk_initial_speed :: real
  blk_nominal_speed :: real
  blk_final_speed :: real
  blk_sync_position :: bool
  blk_position :: "32 word xyze"

subsection \<open>Move segments and step events\<close>

type_synonym MoveFlag_t = "16 word"
type_synonym StepEventFlag_t = "16 word"

text \<open>Modelled from the spec: the bit positions of \<^verbatim>\<open>MoveFlag\<close> and \<^verbatim>\<open>StepEventFlag\<close>
  are declared in a header that is not part of the sources at hand. The source fixes that
  the four step, direction and active bits are consecutive from the X bit
  (\<^verbatim>\<open>STEP_EVENT_FLAG_STEP_X << axis\<close>), and that direction and active bits sit at the same
  positions in both flag types. One bit per flag, in the order the data model lists them.\<close>

definition MOVE_FLAG_ACCELERATION_PHASE :: MoveFlag_t where
  "MOVE_FLAG_ACCELERATION_PHASE = BV 0"
definition MOVE_FLAG_DECELERATION_PHASE :: MoveFlag_t where
  "MOVE_FLAG_DECELERATION_PHASE = BV 1"
definition MOVE_FLAG_CRUISE_PHASE :: MoveFlag_t where
  "MOVE_FLAG_CRUISE_PHASE = BV 2"
definition MOVE_FLAG_DIR_SHIFT :: nat where
  "MOVE_FLAG_DIR_SHIFT = 4"
definition MOVE_FLAG_X_ACTIVE :: MoveFlag_t where
  "MOVE_FLAG_X_ACTIVE = BV 8"
definition MOVE_FLAG_Y_ACTIVE :: MoveFlag_t where
  "MOVE_FLAG_Y_ACTIVE = BV 9"
definition MOVE_FLAG_Z_ACTIVE :: MoveFlag_t where
  "MOVE_FLAG_Z_ACTIVE = BV 10"
definition MOVE_FLAG_E_ACTIVE :: MoveFlag_t where
  "MOVE_FLAG_E_ACTIVE = BV 11"
definition MOVE_FLAG_FIRST_MOVE_SEGMENT_OF_BLOCK :: MoveFlag_t where
  "MOVE_FLAG_FIRST_MOVE_SEGMENT_OF_BLOCK = BV 12"
definition MOVE_FLAG_LAST_MOVE_SEGMENT_OF_BLOCK :: MoveFlag_t where
  "MOVE_FLAG_LAST_MOVE_SEGMENT_OF_BLOCK = BV 13"
definition MOVE_FLAG_BEGINNING_EMPTY_MOVE :: MoveFlag_t where
  "MOVE_FLAG_BEGINNING_EMPTY_MOVE = BV 14"
definition MOVE_FLAG_ENDING_EMPTY_MOVE :: MoveFlag_t where
  "MOVE_FLAG_ENDING_EMPTY_MOVE = BV 15"

definition STEP_EVENT_FLAG_STEP_X :: StepEventFlag_t where
  "STEP_EVENT_FLAG_STEP_X = BV 0"
definition STEP_EVENT_FLAG_X_DIR :: StepEventFlag_t where
  "STEP_EVENT_FLAG_X_DIR = BV 4"
definition STEP_EVENT_FLAG_X_ACTIVE :: StepEventFlag_t where
  "STEP_EVENT_FLAG_X_ACTIVE = BV 8"
definition STEP_EVENT_FLAG_BEGINNING_OF_MOVE_SEGMENT :: StepEventFlag_t where
  "STEP_EVENT_FLAG_BEGINNING_OF_MOVE_SEGMENT = BV 12"
definition STEP_EVENT_END_OF_MOTION :: StepEventFlag_t where
  "STEP_EVENT_END_OF_MOTION = BV 13"
definition STEP_EVENT_FLAG_AXIS_MASK :: StepEventFlag_t where
  "STEP_EVENT_FLAG_AXIS_MASK = 0x000F"
definition STEP_EVENT_FLAG_DIR_MASK :: StepEventFlag_t where
  "STEP_EVENT_FLAG_DIR_MASK = 0x00F0"
definition STEP_EVENT_FLAG_AXIS_ACTIVE_MASK :: StepEventFlag_t where
  "STEP_EVENT_FLAG_AXIS_ACTIVE_MASK = 0x0F00"

text \<open>\<^verbatim>\<open>move_t\<close>: one move segment. \<open>mv_move_t\<close> is the field \<^verbatim>\<open>move_t\<close> (the duration);
  \<open>mv_reference_cnt\<close> is an unbounded integer, so a decrement below zero stays visible.\<close>

record move_t =
  mv_move_t :: real
  mv_start_v :: real
  mv_half_accel :: real
  mv_print_time :: real
  mv_axes_r :: "real xyze"
  mv_start_pos :: "real xyze"
  mv_flags :: MoveFlag_t
  mv_reference_cnt :: int

text \<open>\<^verbatim>\<open>step_event_info_t\<close> (time domain) and \<^verbatim>\<open>step_event_t\<close> (tick domain; \<open>se_time_ticks\<close>
  is the value of the \<^verbatim>\<open>int32_t\<close>).\<close>

record step_event_info_t =
  sei_time :: real
  sei_flags :: StepEventFlag_t

record step_event_t =
  se_time_ticks :: int
  se_flags :: StepEventFlag_t

subsection \<open>The two rings\<close>

text \<open>Modelled from the spec: \<^verbatim>\<open>move_segment_queue_t\<close>, \<^verbatim>\<open>step_event_queue_t\<close> and their
  accessors are declared in the absent header. Each is a single-producer single-consumer
  ring: a fixed array with a producer index \<open>q_head\<close> and a consumer index \<open>q_tail\<close>; the
  ring is full when advancing the head would reach the tail, so it holds at most one
  element less than the array. The move segment ring also tracks \<open>unprocessed_tail\<close>,
  the oldest segment a step generator still needs.\<close>

record 'a queue_t =
  q_data :: "'a list"
  q_head :: nat
  q_tail :: nat

record move_segment_queue_t = "move_t queue_t" +
  unprocessed_tail :: nat

type_synonym step_event_queue_t = "step_event_t queue_t"

definition queue_next_index :: "('a, 'z) queue_t_scheme \<Rightarrow> nat \<Rightarrow> nat" where
  "queue_next_index q i = (i + 1) mod length (q_data q)"

definition queue_is_full :: "('a, 'z) queue_t_scheme \<Rightarrow> bool" where
  "queue_is_full q = (queue_next_index q (q_head q) = q_tail q)"

definition queue_size :: "('a, 'z) queue_t_scheme \<Rightarrow> nat" where
  "queue_size q = (q_head q + length (q_data q) - q_tail q) mod length (q_data q)"

definition queue_free_slots :: "('a, 'z) queue_t_scheme \<Rightarrow> nat" where
  "queue_free_slots q = length (q_data q) - 1 - queue_size q"

text \<open>The slot the producer writes next and the head index after the write; \<open>None\<close> is the
  null pointer returned on a full ring.\<close>

definition queue_next_free :: "('a, 'z) queue_t_scheme \<Rightarrow> (nat \<times> nat) option" where
  "queue_next_free q =
     (if queue_is_full q then None else Some (q_head q, queue_next_index q (q_head q)))"

text \<open>The elements between tail and head, oldest first.\<close>

definition queue_contents :: "('a, 'z) queue_t_scheme \<Rightarrow> 'a list" where
  "queue_contents q =
     map (\<lambda>k. q_data q ! ((q_tail q + k) mod length (q_data q))) [0..<queue_size q]"

definition queue_wf :: "('a, 'z) queue_t_scheme \<Rightarrow> bool" where
  "queue_wf q = (q_head q < length (q_data q) \<and> q_tail q < length (q_data q))"

subsection \<open>Step generators and the merger state\<close>

text \<open>\<^verbatim>\<open>classic_step_generator_t\<close>. \<open>csg_current_move\<close> is the pointer into the move segment
  ring: \<open>Some i\<close> is slot \<open>i\<close>, \<open>None\<close> the null pointer.\<close>

record classic_step_generator_t =
  csg_axis :: axis
  csg_current_move :: "nat option"
  csg_reached_end_of_move_queue :: bool
  csg_start_v :: real
  csg_accel :: real
  csg_start_pos :: real
  csg_step_dir :: bool

datatype generator_next_step_f = classic_next_step_f

text \<open>\<^verbatim>\<open>step_generator_state_t\<close>, the merger state. \<open>sgs_step_generator\<close> holds, per axis, the
  pointer to a generator of the pool (the pool's axis), \<open>sgs_next_step_func\<close> the function
  pointer.\<close>

record step_generator_state_t =
  sgs_flags :: StepEventFlag_t
  sgs_previous_step_time :: real
  sgs_buffered_step :: step_event_t
  sgs_current_distance :: "int xyze"
  sgs_left_insert_start_of_move_segment :: int
  sgs_step_event_index :: "axis list"
  sgs_step_events :: "step_event_info_t xyze"
  sgs_step_generator :: "axis option xyze"
  sgs_next_step_func :: "generator_next_step_f option xyze"
  sgs_initialized :: bool

subsection \<open>Collaborators and configuration\<close>

text \<open>Modelled from the spec: the planner's block queue (\<^verbatim>\<open>planner.h\<close> is absent), a
  single-producer queue with two cursors. \<open>pl_unprocessed\<close> are the blocks not yet turned
  into move segments, \<open>pl_processed\<close> the blocks turned into segments and not yet discarded
  by the step interrupt, both oldest first.\<close>

record planner_t =
  pl_unprocessed :: "block_t list"
  pl_processed :: "block_t list"
  pl_delay_before_delivering :: "32 word"
  pl_nonbusy_movesplanned :: nat

text \<open>Constants and helpers of the absent headers that the functions below use, taken as
  parameters: every theorem holds for each value of them. \<open>calc_time_for_distance\<close>
  returns \<open>None\<close> for NaN. \<open>step_generator_state_restart\<close> and
  \<open>step_generator_state_clear\<close> act on the merger state and, through its generator
  pointers, on the generators of the pool.

  Three parameters stand for the arithmetic of the hardware where a claim depends on the
  last bit: \<open>double_sub\<close> and \<open>double_mul\<close> are the difference and the product of two
  \<^verbatim>\<open>double\<close>s as the floating-point unit rounds them, and \<open>int32_out_of_range\<close> is the
  result of the conversion \<^verbatim>\<open>int32_t(x)\<close> of a value whose integer part does not fit into
  32 bits (undefined in C++; the code has no check and goes on with the result).

  The fields of the engine and of its segments are exact reals. Where the code assigns an
  infinity or NaN to such a field, no real corresponds to the value; the model stores
  \<open>non_finite_field\<close> of it, an unspecified real, about which nothing is proved.\<close>

record config =
  EPSILON_DISTANCE :: real
  EPSILON :: real
  MOVE_SEGMENT_QUEUE_MIN_FREE_SLOTS :: nat
  MAX_STEP_EVENTS_PRODUCED_PER_ONE_CALL :: nat
  MAX_PRINT_TIME :: real
  BLOCK_BUFFER_SIZE :: nat
  STEP_EVENT_FLAG_AXIS_OTHER_MASK :: StepEventFlag_t
  mm_per_step :: "real xyze"
  mm_per_half_step :: "real xyze"
  calc_time_for_distance :: "real \<Rightarrow> real \<Rightarrow> real \<Rightarrow> bool \<Rightarrow> real option"
  step_generator_state_restart ::
    "step_generator_state_t \<times> classic_step_generator_t xyze
       \<Rightarrow> step_generator_state_t \<times> classic_step_generator_t xyze"
  step_generator_state_clear ::
    "step_generator_state_t \<times> classic_step_generator_t xyze
       \<Rightarrow> step_generator_state_t \<times> classic_step_generator_t xyze"
  double_sub :: "real \<Rightarrow> real \<Rightarrow> real"
  double_mul :: "real \<Rightarrow> real \<Rightarrow> real"
  int32_out_of_range :: "real \<Rightarrow> int"
  non_finite_field :: "double \<Rightarrow> real"

text \<open>The static members of \<^verbatim>\<open>PreciseStepping\<close>, with the planner and the two members of
  \<^verbatim>\<open>Stepper\<close> the engine writes.\<close>

record engine =
  move_segment_queue :: move_segment_queue_t
  step_event_queue :: step_event_queue_t
  left_ticks_to_next_step_event :: "32 word"
  ticks_per_sec :: real
  step_generator_state :: step_generator_state_t
  step_generators_pool :: "classic_step_generator_t xyze"
  max_lookback_time :: real
  total_print_time :: real
  total_start_pos :: "real xyze"
  total_start_pos_steps :: "32 word xyze"
  waiting_before_delivering_start_time :: "32 word"
  stop_pending :: bool
  step_dl_miss :: "8 word"
  step_ev_miss :: "8 word"
  planner :: planner_t
  axis_did_move :: "8 word"
  count_position :: "32 word xyze"

datatype error = AssertionFailed | NullPointer | Bsod

section \<open>Block to segment compiler\<close>

text \<open>The local values of this part of the source are of the type \<open>double\<close> of the data
  model: \<open>Finite\<close> injects a field of the block or of the engine, and \<open>double_field\<close> is the
  value of a field of the engine or of a segment after an assignment of a double.\<close>

definition SQR :: "double \<Rightarrow> double" where
  "SQR v = v * v"

definition double_field :: "config \<Rightarrow> double \<Rightarrow> real" where
  "double_field cfg d = (case d of Finite r \<Rightarrow> r | _ \<Rightarrow> non_finite_field cfg d)"

definition xyze_map :: "('a \<Rightarrow> 'b) \<Rightarrow> 'a xyze \<Rightarrow> 'b xyze" where
  "xyze_map f v = XYZE (f (x_of v)) (f (y_of v)) (f (z_of v)) (f (e_of v))"

definition get_oriented_steps_from_block :: "block_t \<Rightarrow> 32 word xyze" where
  "get_oriented_steps_from_block block =
     (let direction = XYZE
        (if blk_direction_bits block AND BV (axis_num X_AXIS) \<noteq> 0 then - 1 else 1)
        (if blk_direction_bits block AND BV (axis_num Y_AXIS) \<noteq> 0 then - 1 else 1)
        (if blk_direction_bits block AND BV (axis_num Z_AXIS) \<noteq> 0 then - 1 else 1)
        (if blk_direction_bits block AND BV (axis_num E_AXIS) \<noteq> 0 then - 1 else 1)
      in xyze_map2 (*) (blk_steps block) direction)"

definition convert_oriented_steps_to_distance :: "config \<Rightarrow> 32 word xyze \<Rightarrow> real xyze" where
  "convert_oriented_steps_to_distance cfg steps =
     XYZE (real_of_int (sint (x_of steps)) * xyze_get (mm_per_step cfg) X_AXIS)
          (real_of_int (sint (y_of steps)) * xyze_get (mm_per_step cfg) Y_AXIS)
          (real_of_int (sint (z_of steps)) * xyze_get (mm_per_step cfg) Z_AXIS)
          (real_of_int (sint (e_of steps)) * xyze_get (mm_per_step cfg) E_AXIS)"

definition get_active_axis_flags_from_block :: "block_t \<Rightarrow> MoveFlag_t" where
  "get_active_axis_flags_from_block block =
     (if x_of (blk_steps block) > 0 then MOVE_FLAG_X_ACTIVE else 0)
     OR (if y_of (blk_steps block) > 0 then MOVE_FLAG_Y_ACTIVE else 0)
     OR (if z_of (blk_steps block) > 0 then MOVE_FLAG_Z_ACTIVE else 0)
     OR (if e_of (blk_steps block) > 0 then MOVE_FLAG_E_ACTIVE else 0)"

definition append_move_segment_to_queue ::
  "real \<Rightarrow> real \<Rightarrow> real \<Rightarrow> real \<Rightarrow> real xyze \<Rightarrow> real xyze \<Rightarrow> MoveFlag_t \<Rightarrow> engine \<Rightarrow> bool \<times> engine"
where
  "append_move_segment_to_queue move_time start_v half_accel print_time axes_r start_pos flags st =
     (case queue_next_free (move_segment_queue st) of
        Some (m, next_move_segment_queue_head) \<Rightarrow>
          (True, st\<lparr>move_segment_queue := (move_segment_queue st)
             \<lparr>q_data := (q_data (move_segment_queue st))[m :=
                 \<lparr>mv_move_t = move_time, mv_start_v = start_v, mv_half_accel = half_accel,
                  mv_print_time = print_time, mv_axes_r = axes_r, mv_start_pos = start_pos,
                  mv_flags = flags, mv_reference_cnt = 0\<rparr>],
               q_head := next_move_segment_queue_head\<rparr>\<rparr>)
      | None \<Rightarrow> (False, st))"

definition calc_axes_r_component :: "config \<Rightarrow> block_t \<Rightarrow> axis \<Rightarrow> double" where
  "calc_axes_r_component cfg block i =
     (let millimeters_inv = Finite 1 / Finite (blk_millimeters block) in
      if xyze_get (blk_steps block) i = 0 then 0
      else (let r = Finite (real (unat (xyze_get (blk_steps block) i))) * millimeters_inv
                      * Finite (xyze_get (mm_per_step cfg) i)
            in if blk_direction_bits block AND BV (axis_num i) \<noteq> 0 then r * Finite (- 1) else r))"

definition calc_axes_r_from_block :: "config \<Rightarrow> block_t \<Rightarrow> double xyze" where
  "calc_axes_r_from_block cfg block =
     XYZE (calc_axes_r_component cfg block X_AXIS) (calc_axes_r_component cfg block Y_AXIS)
          (calc_axes_r_component cfg block Z_AXIS) (calc_axes_r_component cfg block E_AXIS)"

definition calc_velocity_after_acceleration :: "double \<Rightarrow> double \<Rightarrow> double \<Rightarrow> double" where
  "calc_velocity_after_acceleration start_v accel dist_in =
     double_sqrt (Finite 2 * dist_in * accel + SQR start_v)"

definition calc_distance_required_to_reach_cruise_velocity :: "double \<Rightarrow> double \<Rightarrow> double \<Rightarrow> double" where
  "calc_distance_required_to_reach_cruise_velocity start_v cruise_v accel =
     (SQR cruise_v - SQR start_v) / (Finite 2 * accel)"

definition calc_distance_required_to_reach_cruise_velocity_clamped ::
  "config \<Rightarrow> double \<Rightarrow> double \<Rightarrow> double \<Rightarrow> double" where
  "calc_distance_required_to_reach_cruise_velocity_clamped cfg start_v cruise_v accel =
     (let dist_out = calc_distance_required_to_reach_cruise_velocity start_v cruise_v accel in
      if dist_out < Finite (EPSILON_DISTANCE cfg) then 0 else dist_out)"

definition calc_distance_in_which_we_start_decelerating ::
  "double \<Rightarrow> double \<Rightarrow> double \<Rightarrow> double \<Rightarrow> double" where
  "calc_distance_in_which_we_start_decelerating start_v end_v accel dist_in =
     (Finite 2 * dist_in * accel + SQR end_v - SQR start_v) / (Finite 4 * accel)"

definition calc_distance_in_which_we_start_decelerating_clamped ::
  "config \<Rightarrow> double \<Rightarrow> double \<Rightarrow> double \<Rightarrow> double \<Rightarrow> double" where
  "calc_distance_in_which_we_start_decelerating_clamped cfg start_v end_v accel dist_in =
     (let dist_out = calc_distance_in_which_we_start_decelerating start_v end_v accel dist_in in
      if dist_out \<le> Finite (EPSILON_DISTANCE cfg) then 0
      else if dist_in - Finite (EPSILON_DISTANCE cfg) < dist_out then dist_in
      else dist_out)"

text \<open>Modelled from the spec: \<^verbatim>\<open>calc_end_position\<close> (absent header) advances a position by a
  distance along the unit direction of the segment.\<close>

definition calc_end_position :: "double xyze \<Rightarrow> double xyze \<Rightarrow> double \<Rightarrow> double xyze" where
  "calc_end_position start_pos axes_r dist_in = xyze_map2 (\<lambda>p r. p + r * dist_in) start_pos axes_r"

text \<open>Modelled from the spec: \<^verbatim>\<open>reset_reached_end_of_move_queue_flag\<close> (absent header) clears
  the end-of-queue indicator of every step generator.\<close>

definition reset_reached_end_of_move_queue_flag :: "engine \<Rightarrow> engine" where
  "reset_reached_end_of_move_queue_flag st =
     st\<lparr>step_generators_pool :=
          (let p = step_generators_pool st in
           XYZE ((x_of p)\<lparr>csg_reached_end_of_move_queue := False\<rparr>)
                ((y_of p)\<lparr>csg_reached_end_of_move_queue := False\<rparr>)
                ((z_of p)\<lparr>csg_reached_end_of_move_queue := False\<rparr>)
                ((e_of p)\<lparr>csg_reached_end_of_move_queue := False\<rparr>))\<rparr>"

text \<open>The first part of \<^verbatim>\<open>append_move_segments_to_queue\<close> (up to the test for free slots):
  the distances of the three phases and the cruise velocity, as
  \<open>(accel_dist, cruise_dist, decel_dist, cruise_v)\<close>.\<close>

definition block_phase_distances :: "config \<Rightarrow> block_t \<Rightarrow> double \<times> double \<times> double \<times> double" where
  "block_phase_distances cfg block =
     (let millimeters = Finite (blk_millimeters block);
          accel = Finite (blk_acceleration block);
          start_v = Finite (blk_initial_speed block);
          end_v = Finite (blk_final_speed block);
          cruise_v = Finite (blk_nominal_speed block);
          accel_dist = calc_distance_required_to_reach_cruise_velocity_clamped cfg start_v cruise_v accel;
          decel_dist = calc_distance_required_to_reach_cruise_velocity_clamped cfg end_v cruise_v accel;
          cruise_dist = millimeters - accel_dist - decel_dist
      in if cruise_dist < Finite (EPSILON_DISTANCE cfg) then
           (let accel_dist = calc_distance_in_which_we_start_decelerating_clamped cfg start_v end_v accel millimeters;
                decel_dist = std_max (millimeters - accel_dist) 0;
                cruise_dist = 0;
                cruise_v = calc_velocity_after_acceleration start_v accel accel_dist
            in (accel_dist, cruise_dist, decel_dist, cruise_v))
         else (accel_dist, cruise_dist, decel_dist, cruise_v))"

definition block_dir_flags :: "block_t \<Rightarrow> MoveFlag_t" where
  "block_dir_flags block =
     push_bit MOVE_FLAG_DIR_SHIFT (ucast (blk_direction_bits block AND 0x0F) :: 16 word)"

text \<open>The flags of the three segments of a block, as the three conditional blocks of
  \<^verbatim>\<open>append_move_segments_to_queue\<close> compute them.\<close>

definition accel_segment_flags :: "block_t \<Rightarrow> double \<Rightarrow> double \<Rightarrow> MoveFlag_t" where
  "accel_segment_flags block cruise_dist decel_dist =
     MOVE_FLAG_ACCELERATION_PHASE
     OR MOVE_FLAG_FIRST_MOVE_SEGMENT_OF_BLOCK
     OR (if cruise_dist \<noteq> 0 \<or> decel_dist \<noteq> 0 then 0 else MOVE_FLAG_LAST_MOVE_SEGMENT_OF_BLOCK)
     OR block_dir_flags block
     OR get_active_axis_flags_from_block block"

definition cruise_segment_flags :: "block_t \<Rightarrow> double \<Rightarrow> double \<Rightarrow> MoveFlag_t" where
  "cruise_segment_flags block accel_dist decel_dist =
     MOVE_FLAG_CRUISE_PHASE
     OR (if accel_dist \<noteq> 0 then 0 else MOVE_FLAG_FIRST_MOVE_SEGMENT_OF_BLOCK)
     OR (if decel_dist \<noteq> 0 then 0 else MOVE_FLAG_LAST_MOVE_SEGMENT_OF_BLOCK)
     OR block_dir_flags block
     OR get_active_axis_flags_from_block block"

definition decel_segment_flags :: "block_t \<Rightarrow> double \<Rightarrow> double \<Rightarrow> MoveFlag_t" where
  "decel_segment_flags block accel_dist cruise_dist =
     MOVE_FLAG_DECELERATION_PHASE
     OR MOVE_FLAG_LAST_MOVE_SEGMENT_OF_BLOCK
     OR (if accel_dist \<noteq> 0 \<or> cruise_dist \<noteq> 0 then 0 else MOVE_FLAG_FIRST_MOVE_SEGMENT_OF_BLOCK)
     OR block_dir_flags block
     OR get_active_axis_flags_from_block block"

text \<open>The three conditional blocks of \<^verbatim>\<open>append_move_segments_to_queue\<close>; each takes and
  returns the local variables \<open>(print_time, start_pos)\<close> and the engine. The arguments of
  \<^verbatim>\<open>append_move_segment_to_queue\<close> are the values its assignments leave in the fields of
  the segment.\<close>

definition append_accel_segment ::
  "config \<Rightarrow> block_t \<Rightarrow> double \<times> double \<times> double \<times> double
     \<Rightarrow> double \<times> double xyze \<times> engine \<Rightarrow> double \<times> double xyze \<times> engine"
where
  "append_accel_segment cfg block d v =
     (case (d, v) of ((accel_dist, cruise_dist, decel_dist, cruise_v), (print_time, start_pos, st)) \<Rightarrow>
        if accel_dist \<noteq> 0 then
          (let accel = Finite (blk_acceleration block);
               start_v = Finite (blk_initial_speed block);
               accel_t = (cruise_v - start_v) / accel;
               flags = accel_segment_flags block cruise_dist decel_dist;
               axes_r = calc_axes_r_from_block cfg block;
               half_accel = Finite 0.5 * accel;
               st' = snd (append_move_segment_to_queue (double_field cfg accel_t)
                            (double_field cfg start_v) (double_field cfg half_accel)
                            (double_field cfg print_time) (xyze_map (double_field cfg) axes_r)
                            (xyze_map (double_field cfg) start_pos) flags st)
           in (print_time + accel_t, calc_end_position start_pos axes_r accel_dist, st'))
        else (print_time, start_pos, st))"

definition append_cruise_segment ::
  "config \<Rightarrow> block_t \<Rightarrow> double \<times> double \<times> double \<times> double
     \<Rightarrow> double \<times> double xyze \<times> engine \<Rightarrow> double \<times> double xyze \<times> engine"
where
  "append_cruise_segment cfg block d v =
     (case (d, v) of ((accel_dist, cruise_dist, decel_dist, cruise_v), (print_time, start_pos, st)) \<Rightarrow>
        if cruise_dist \<noteq> 0 then
          (let cruise_t = cruise_dist / cruise_v;
               flags = cruise_segment_flags block accel_dist decel_dist;
               axes_r = calc_axes_r_from_block cfg block;
               st' = snd (append_move_segment_to_queue (double_field cfg cruise_t)
                            (double_field cfg cruise_v) 0
                            (double_field cfg print_time) (xyze_map (double_field cfg) axes_r)
                            (xyze_map (double_field cfg) start_pos) flags st)
           in (print_time + cruise_t, calc_end_position start_pos axes_r cruise_dist, st'))
        else (print_time, start_pos, st))"

definition append_decel_segment ::
  "config \<Rightarrow> block_t \<Rightarrow> double \<times> double \<times> double \<times> double
     \<Rightarrow> double \<times> double xyze \<times> engine \<Rightarrow> double \<times> double xyze \<times> engine"
where
  "append_decel_segment cfg block d v =
     (case (d, v) of ((accel_dist, cruise_dist, decel_dist, cruise_v), (print_time, start_pos, st)) \<Rightarrow>
        if decel_dist \<noteq> 0 then
          (let accel = Finite (blk_acceleration block);
               end_v = Finite (blk_final_speed block);
               decel_t = (cruise_v - end_v) / accel;
               flags = decel_segment_flags block accel_dist cruise_dist;
               axes_r = calc_axes_r_from_block cfg block;
               half_accel = Finite 0.5 * accel;
               st' = snd (append_move_segment_to_queue (double_field cfg decel_t)
                            (double_field cfg cruise_v) (double_field cfg (- half_accel))
                            (double_field cfg print_time) (xyze_map (double_field cfg) axes_r)
                            (xyze_map (double_field cfg) start_pos) flags st)
           in (print_time + decel_t, start_pos, st'))
        else (print_time, start_pos, st))"

definition move_blocks_required :: "double \<times> double \<times> double \<times> double \<Rightarrow> nat" where
  "move_blocks_required d =
     (case d of (accel_dist, cruise_dist, decel_dist, cruise_v) \<Rightarrow>
        of_bool (accel_dist \<noteq> 0) + of_bool (decel_dist \<noteq> 0) + of_bool (cruise_dist \<noteq> 0))"

definition append_move_segments_to_queue :: "config \<Rightarrow> block_t \<Rightarrow> engine \<Rightarrow> bool \<times> engine" where
  "append_move_segments_to_queue cfg block st =
     (let d = block_phase_distances cfg block in
      if queue_free_slots (move_segment_queue st)
           < move_blocks_required d + MOVE_SEGMENT_QUEUE_MIN_FREE_SLOTS cfg
      then (False, st)
      else
        (case append_decel_segment cfg block d
                (append_cruise_segment cfg block d
                   (append_accel_segment cfg block d
                      (Finite (total_print_time st), xyze_map Finite (total_start_pos st), st)))
         of (print_time, start_pos, st1) \<Rightarrow>
           (let steps = xyze_map2 (+) (total_start_pos_steps st1) (get_oriented_steps_from_block block);
                st2 = st1\<lparr>total_start_pos_steps := steps,
                         total_start_pos := convert_oriented_steps_to_distance cfg steps,
                         total_print_time := double_field cfg print_time\<rparr>
            in (True, reset_reached_end_of_move_queue_flag st2))))"

section \<open>Classic step generator\<close>

text \<open>Modelled from the spec: the accessors of the move segment ring (absent header).
  \<^verbatim>\<open>move_segment_queue_next_move\<close> yields the segment after the given one, or the null pointer
  when there is none yet; \<^verbatim>\<open>get_current_unprocessed_move_segment\<close> yields the segment at
  \<open>unprocessed_tail\<close>, or the null pointer when every segment was processed;
  \<^verbatim>\<open>discard_current_unprocessed_move_segment\<close> advances \<open>unprocessed_tail\<close>.\<close>

definition move_segment_queue_next_move :: "move_segment_queue_t \<Rightarrow> nat \<Rightarrow> nat option" where
  "move_segment_queue_next_move q cur =
     (if cur < length (q_data q) \<and> q_head q < length (q_data q) \<and> queue_next_index q cur \<noteq> q_head q
      then Some (queue_next_index q cur) else None)"

definition get_current_unprocessed_move_segment :: "engine \<Rightarrow> nat option" where
  "get_current_unprocessed_move_segment st =
     (let q = move_segment_queue st in
      if unprocessed_tail q = q_head q \<or> \<not> unprocessed_tail q < length (q_data q) then None
      else Some (unprocessed_tail q))"

definition discard_current_unprocessed_move_segment :: "engine \<Rightarrow> engine" where
  "discard_current_unprocessed_move_segment st =
     (let q = move_segment_queue st in
      if unprocessed_tail q = q_head q then st
      else st\<lparr>move_segment_queue := q\<lparr>unprocessed_tail := queue_next_index q (unprocessed_tail q)\<rparr>\<rparr>)"

text \<open>Modelled from the spec: \<^verbatim>\<open>get_move_step_dir\<close>, \<^verbatim>\<open>is_beginning_empty_move\<close> and
  \<^verbatim>\<open>is_ending_empty_move\<close> (absent header) read the flags of a segment; a set direction
  bit is the negative direction.\<close>

definition get_move_step_dir :: "move_t \<Rightarrow> axis \<Rightarrow> bool" where
  "get_move_step_dir move a = (mv_flags move AND push_bit (axis_num a) STEP_EVENT_FLAG_X_DIR = 0)"

definition is_beginning_empty_move :: "move_t \<Rightarrow> bool" where
  "is_beginning_empty_move move = (mv_flags move AND MOVE_FLAG_BEGINNING_EMPTY_MOVE \<noteq> 0)"

definition is_ending_empty_move :: "move_t \<Rightarrow> bool" where
  "is_ending_empty_move move = (mv_flags move AND MOVE_FLAG_ENDING_EMPTY_MOVE \<noteq> 0)"

definition get_move_axis_r :: "move_t \<Rightarrow> axis \<Rightarrow> real" where
  "get_move_axis_r move a = xyze_get (mv_axes_r move) a"

definition set_generator :: "axis \<Rightarrow> classic_step_generator_t \<Rightarrow> engine \<Rightarrow> engine" where
  "set_generator g gen st = st\<lparr>step_generators_pool := xyze_set (step_generators_pool st) g gen\<rparr>"

definition add_reference_cnt :: "nat \<Rightarrow> int \<Rightarrow> engine \<Rightarrow> engine" where
  "add_reference_cnt i d st =
     (let q = move_segment_queue st; m = q_data q ! i in
      st\<lparr>move_segment_queue := q\<lparr>q_data := (q_data q)[i := m\<lparr>mv_reference_cnt := mv_reference_cnt m + d\<rparr>]\<rparr>\<rparr>)"

text \<open>The generator is the element \<open>g\<close> of the pool. A null or dangling
  \<^verbatim>\<open>current_move\<close> is an error of the model.\<close>

definition classic_step_generator_update :: "axis \<Rightarrow> engine \<Rightarrow> error + engine" where
  "classic_step_generator_update g st =
     (let step_generator = xyze_get (step_generators_pool st) g;
          a = csg_axis step_generator
      in case csg_current_move step_generator of
           None \<Rightarrow> Inl NullPointer
         | Some cur \<Rightarrow>
             if \<not> cur < length (q_data (move_segment_queue st)) then Inl NullPointer
             else
               (let current_move = q_data (move_segment_queue st) ! cur;
                    axis_r = get_move_axis_r current_move a;
                    gen1 = (if axis_r = 0
                            then step_generator\<lparr>csg_start_v := 0, csg_accel := 0\<rparr>
                            else step_generator\<lparr>csg_start_v := mv_start_v current_move * axis_r,
                                                csg_accel := 2 * mv_half_accel current_move * axis_r\<rparr>);
                    gen2 = gen1\<lparr>csg_start_pos := xyze_get (mv_start_pos current_move) a,
                                csg_step_dir := get_move_step_dir current_move a\<rparr>
                in Inr (set_generator g gen2 st)))"

definition move_segment_processed_handler :: "engine \<Rightarrow> engine" where
  "move_segment_processed_handler st =
     (case get_current_unprocessed_move_segment st of
        None \<Rightarrow> st
      | Some m \<Rightarrow>
          if mv_reference_cnt (q_data (move_segment_queue st) ! m) = 0 then
            (let st1 = discard_current_unprocessed_move_segment st;
                 ss = step_generator_state st1
             in st1\<lparr>step_generator_state :=
                      ss\<lparr>sgs_left_insert_start_of_move_segment :=
                           sgs_left_insert_start_of_move_segment ss + 1\<rparr>\<rparr>)
          else st)"

text \<open>The branch of \<^verbatim>\<open>classic_step_generator_next_step_event\<close> that advances the generator
  from segment \<open>cur\<close> to the next segment \<open>next_move\<close>.\<close>

definition classic_advance :: "axis \<Rightarrow> nat \<Rightarrow> nat \<Rightarrow> engine \<Rightarrow> error + engine" where
  "classic_advance g cur next_move st =
     (let st1 = add_reference_cnt cur (- 1) st;
          st2 = set_generator g ((xyze_get (step_generators_pool st1) g)\<lparr>csg_current_move := Some next_move\<rparr>) st1;
          st3 = add_reference_cnt next_move 1 st2
      in case classic_step_generator_update g st3 of
           Inl e \<Rightarrow> Inl e
         | Inr st4 \<Rightarrow>
             (let step_generator = xyze_get (step_generators_pool st4) g;
                  a = csg_axis step_generator;
                  ss = step_generator_state st4;
                  current_axis_dir_flag = push_bit (axis_num a) STEP_EVENT_FLAG_X_DIR;
                  f1 = sgs_flags ss AND NOT current_axis_dir_flag;
                  f2 = f1 OR (if csg_step_dir step_generator then 0 else current_axis_dir_flag);
                  current_axis_active_flag = push_bit (axis_num a) STEP_EVENT_FLAG_X_ACTIVE;
                  f3 = f2 AND NOT current_axis_active_flag;
                  f4 = f3 OR (mv_flags (q_data (move_segment_queue st4) ! next_move) AND current_axis_active_flag);
                  st5 = st4\<lparr>step_generator_state := ss\<lparr>sgs_flags := f4\<rparr>\<rparr>
              in Inr (move_segment_processed_handler st5)))"

definition set_reached_end :: "axis \<Rightarrow> engine \<Rightarrow> engine" where
  "set_reached_end g st =
     set_generator g ((xyze_get (step_generators_pool st) g)\<lparr>csg_reached_end_of_move_queue := True\<rparr>) st"

definition ring_distance_to_head :: "engine \<Rightarrow> axis \<Rightarrow> nat" where
  "ring_distance_to_head st g =
     (case csg_current_move (xyze_get (step_generators_pool st) g) of
        None \<Rightarrow> 0
      | Some cur \<Rightarrow>
          (let q = move_segment_queue st in
           (q_head q + length (q_data q) - 1 - cur) mod length (q_data q)))"

lemma ring_distance_decreases:
  fixes h c n :: nat
  assumes "h < n" "c < n" "(c + 1) mod n \<noteq> h"
  shows "(h + n - 1 - (c + 1) mod n) mod n < (h + n - 1 - c) mod n"
proof (cases "c + 1 = n")
  case True
  with assms have h0: "h \<noteq> 0" by auto
  from True have "(c + 1) mod n = 0" by simp
  moreover from h0 assms(1) have "(h + n - 1) mod n = h - 1"
    by (metis Nat.add_diff_assoc2 One_nat_def Suc_leI Suc_pred add.commute less_imp_diff_less
        mod_add_self1 mod_less not_gr_zero)
  moreover from True have "h + n - 1 - c = h" by simp
  ultimately show ?thesis using assms(1) h0 by simp
next
  case False
  with assms(2) have c1: "c + 1 < n" by simp
  then have nx: "(c + 1) mod n = c + 1" by simp
  with assms(3) have ne: "c + 1 \<noteq> h" by simp
  show ?thesis
  proof (cases "c < h")
    case True
    with ne have "c + 2 \<le> h" by simp
    then have a: "h + n - 1 - (c + 1) = (h - 2 - c) + n" and b: "h + n - 1 - c = (h - 1 - c) + n"
      by simp_all
    have "(h + n - 1 - (c + 1)) mod n = h - 2 - c"
      unfolding a using assms(1) by simp
    moreover have "(h + n - 1 - c) mod n = h - 1 - c"
      unfolding b using assms(1) by simp
    ultimately show ?thesis using nx \<open>c + 2 \<le> h\<close> by simp
  next
    case False
    then have "h + n - 1 - c < n" "h + n - 1 - (c + 1) < n" using c1 by simp_all
    then show ?thesis using nx c1 False by simp
  qed
qed



lemma xyze_get_set [simp]: "xyze_get (xyze_set v a x) b = (if a = b then x else xyze_get v b)"
  by (cases v; cases a; cases b) simp_all

lemma set_generator_simps [simp]:
  "move_segment_queue (set_generator g gen st) = move_segment_queue st"
  "step_event_queue (set_generator g gen st) = step_event_queue st"
  "step_generator_state (set_generator g gen st) = step_generator_state st"
  "step_generators_pool (set_generator g gen st) = xyze_set (step_generators_pool st) g gen"
  by (simp_all add: set_generator_def)

lemma add_reference_cnt_simps [simp]:
  "q_head (move_segment_queue (add_reference_cnt i d st)) = q_head (move_segment_queue st)"
  "q_tail (move_segment_queue (add_reference_cnt i d st)) = q_tail (move_segment_queue st)"
  "unprocessed_tail (move_segment_queue (add_reference_cnt i d st)) = unprocessed_tail (move_segment_queue st)"
  "length (q_data (move_segment_queue (add_reference_cnt i d st))) = length (q_data (move_segment_queue st))"
  "step_event_queue (add_reference_cnt i d st) = step_event_queue st"
  "step_generator_state (add_reference_cnt i d st) = step_generator_state st"
  "step_generators_pool (add_reference_cnt i d st) = step_generators_pool st"
  by (simp_all add: add_reference_cnt_def Let_def)

lemma discard_unprocessed_simps [simp]:
  "q_head (move_segment_queue (discard_current_unprocessed_move_segment st)) = q_head (move_segment_queue st)"
  "q_tail (move_segment_queue (discard_current_unprocessed_move_segment st)) = q_tail (move_segment_queue st)"
  "q_data (move_segment_queue (discard_current_unprocessed_move_segment st)) = q_data (move_segment_queue st)"
  "step_event_queue (discard_current_unprocessed_move_segment st) = step_event_queue st"
  "step_generator_state (discard_current_unprocessed_move_segment st) = step_generator_state st"
  "step_generators_pool (discard_current_unprocessed_move_segment st) = step_generators_pool st"
  by (simp_all add: discard_current_unprocessed_move_segment_def Let_def)

lemma handler_simps [simp]:
  "q_head (move_segment_queue (move_segment_processed_handler st)) = q_head (move_segment_queue st)"
  "q_tail (move_segment_queue (move_segment_processed_handler st)) = q_tail (move_segment_queue st)"
  "q_data (move_segment_queue (move_segment_processed_handler st)) = q_data (move_segment_queue st)"
  "step_event_queue (move_segment_processed_handler st) = step_event_queue st"
  "step_generators_pool (move_segment_processed_handler st) = step_generators_pool st"
  by (simp_all add: move_segment_processed_handler_def Let_def split: option.splits)

lemma classic_step_generator_update_Inr:
  assumes "classic_step_generator_update g st = Inr st'"
  shows "\<exists>gen'. st' = set_generator g gen' st
           \<and> csg_current_move gen' = csg_current_move (xyze_get (step_generators_pool st) g)
           \<and> csg_axis gen' = csg_axis (xyze_get (step_generators_pool st) g)
           \<and> csg_reached_end_of_move_queue gen' = csg_reached_end_of_move_queue (xyze_get (step_generators_pool st) g)"
  using assms
  by (auto simp: classic_step_generator_update_def Let_def split: option.splits if_splits)

lemma classic_advance_frame:
  assumes "classic_advance g cur next_move st = Inr st'"
  shows "q_head (move_segment_queue st') = q_head (move_segment_queue st)"
    and "length (q_data (move_segment_queue st')) = length (q_data (move_segment_queue st))"
    and "csg_current_move (xyze_get (step_generators_pool st') g) = Some next_move"
proof -
  let ?st3 = "add_reference_cnt next_move 1
       (set_generator g ((xyze_get (step_generators_pool (add_reference_cnt cur (- 1) st)) g)\<lparr>csg_current_move := Some next_move\<rparr>)
          (add_reference_cnt cur (- 1) st))"
  from assms obtain st4 where u: "classic_step_generator_update g ?st3 = Inr st4"
    by (auto simp: classic_advance_def Let_def split: sum.splits)
  from classic_step_generator_update_Inr[OF u] obtain gen' where
    g: "st4 = set_generator g gen' ?st3" "csg_current_move gen' = Some next_move"
    by auto
  from assms u obtain f where "st' = move_segment_processed_handler (st4\<lparr>step_generator_state := f\<rparr>)"
    by (auto simp: classic_advance_def Let_def split: sum.splits)
  with g show "q_head (move_segment_queue st') = q_head (move_segment_queue st)"
    and "length (q_data (move_segment_queue st')) = length (q_data (move_segment_queue st))"
    and "csg_current_move (xyze_get (step_generators_pool st') g) = Some next_move"
    by simp_all
qed


definition needs_next_segment :: "real option \<Rightarrow> real \<Rightarrow> bool" where
  "needs_next_segment step_time limit = (case step_time of None \<Rightarrow> True | Some t \<Rightarrow> t > limit)"

definition step_time_value :: "real option \<Rightarrow> real" where
  "step_time_value step_time = (case step_time of None \<Rightarrow> 0 | Some t \<Rightarrow> t)"

text \<open>The time of the next half-step crossing within the current segment, as the first
  lines of the loop body compute it.\<close>

definition classic_step_time :: "config \<Rightarrow> classic_step_generator_t \<Rightarrow> step_generator_state_t \<Rightarrow> real option" where
  "classic_step_time cfg step_generator ss =
     (let a = csg_axis step_generator;
          half_step_dist = xyze_get (mm_per_half_step cfg) a;
          current_distance = real_of_int (xyze_get (sgs_current_distance ss) a)
                               * xyze_get (mm_per_step cfg) a;
          next_target = current_distance
                          + (if csg_step_dir step_generator then half_step_dist else - half_step_dist);
          next_distance = next_target - csg_start_pos step_generator
      in calc_time_for_distance cfg (csg_start_v step_generator) (csg_accel step_generator)
           next_distance (csg_step_dir step_generator))"

text \<open>One pass through the body of the \<^verbatim>\<open>do\<close> loop of
  \<^verbatim>\<open>classic_step_generator_next_step_event\<close>: either the loop ends with the returned step event
  (\<open>StepDone\<close>), or the generator moved to the next segment and the loop repeats
  (\<open>StepAdvanced\<close>).\<close>

datatype step_outcome = StepDone step_event_info_t engine | StepAdvanced engine

definition classic_next_step_iteration ::
  "config \<Rightarrow> axis \<Rightarrow> real \<Rightarrow> engine \<Rightarrow> error + step_outcome"
where
  "classic_next_step_iteration cfg g flush_time st =
     (let step_generator = xyze_get (step_generators_pool st) g;
          a = csg_axis step_generator;
          ss = step_generator_state st
      in case csg_current_move step_generator of
           None \<Rightarrow> Inl NullPointer
         | Some cur \<Rightarrow>
             if \<not> cur < length (q_data (move_segment_queue st)) then Inl NullPointer
             else
               (let current_move = q_data (move_segment_queue st) ! cur;
                    step_time = classic_step_time cfg step_generator ss;
                    elapsed_time = step_time_value step_time + mv_print_time current_move
                in if needs_next_segment step_time (mv_move_t current_move + EPSILON cfg) then
                     (case move_segment_queue_next_move (move_segment_queue st) cur of
                        Some next_move \<Rightarrow>
                          (case classic_advance g cur next_move st of
                             Inl e \<Rightarrow> Inl e
                           | Inr st' \<Rightarrow> Inr (StepAdvanced st'))
                      | None \<Rightarrow>
                          Inr (StepDone \<lparr>sei_time = DBL_MAX, sei_flags = 0\<rparr> (set_reached_end g st)))
                   else if elapsed_time > flush_time then
                     Inr (StepDone \<lparr>sei_time = DBL_MAX, sei_flags = 0\<rparr> (set_reached_end g st))
                   else
                     Inr (StepDone
                           \<lparr>sei_time = elapsed_time,
                            sei_flags = push_bit (axis_num a) STEP_EVENT_FLAG_STEP_X OR sgs_flags ss\<rparr>
                           (st\<lparr>step_generator_state := ss\<lparr>sgs_current_distance :=
                               xyze_set (sgs_current_distance ss) a
                                 (xyze_get (sgs_current_distance ss) a
                                    + (if csg_step_dir step_generator then 1 else - 1))\<rparr>\<rparr>))))"

lemma classic_next_step_iteration_advanced:
  assumes "classic_next_step_iteration cfg g flush_time st = Inr (StepAdvanced st')"
  shows "\<exists>cur next_move.
           csg_current_move (xyze_get (step_generators_pool st) g) = Some cur
           \<and> cur < length (q_data (move_segment_queue st))
           \<and> move_segment_queue_next_move (move_segment_queue st) cur = Some next_move
           \<and> classic_advance g cur next_move st = Inr st'"
proof (cases "csg_current_move (xyze_get (step_generators_pool st) g)")
  case None
  with assms show ?thesis by (simp add: classic_next_step_iteration_def)
next
  case (Some cur)
  show ?thesis
  proof (cases "move_segment_queue_next_move (move_segment_queue st) cur")
    case None
    with assms Some show ?thesis
      by (simp add: classic_next_step_iteration_def Let_def split: if_splits)
  next
    case nm: (Some next_move)
    show ?thesis
    proof (cases "classic_advance g cur next_move st")
      case (Inl e)
      with assms Some nm show ?thesis
        by (simp add: classic_next_step_iteration_def Let_def split: if_splits)
    next
      case (Inr st1)
      with assms Some nm show ?thesis
        by (simp add: classic_next_step_iteration_def Let_def split: if_splits)
    qed
  qed
qed

function classic_next_step_loop ::
  "config \<Rightarrow> axis \<Rightarrow> real \<Rightarrow> engine \<Rightarrow> error + (step_event_info_t \<times> engine)"
where
  "classic_next_step_loop cfg g flush_time st =
     (case classic_next_step_iteration cfg g flush_time st of
        Inl e \<Rightarrow> Inl e
      | Inr (StepDone next_step_event st') \<Rightarrow> Inr (next_step_event, st')
      | Inr (StepAdvanced st') \<Rightarrow> classic_next_step_loop cfg g flush_time st')"
  by pat_completeness auto
termination
proof (relation "measure (\<lambda>(cfg, g, flush_time, st). ring_distance_to_head st g)", goal_cases)
  case 1
  show ?case by simp
next
  case (2 cfg g flush_time st out st')
  then have it: "classic_next_step_iteration cfg g flush_time st = Inr (StepAdvanced st')" by simp
  from classic_next_step_iteration_advanced[OF it] obtain cur next_move where
    cur: "csg_current_move (xyze_get (step_generators_pool st) g) = Some cur"
    and lt: "cur < length (q_data (move_segment_queue st))"
    and nm: "move_segment_queue_next_move (move_segment_queue st) cur = Some next_move"
    and adv: "classic_advance g cur next_move st = Inr st'" by blast
  from nm have h: "q_head (move_segment_queue st) < length (q_data (move_segment_queue st))"
    and ne: "(cur + 1) mod length (q_data (move_segment_queue st)) \<noteq> q_head (move_segment_queue st)"
    and nx: "next_move = (cur + 1) mod length (q_data (move_segment_queue st))"
    by (auto simp: move_segment_queue_next_move_def queue_next_index_def split: if_splits)
  show ?case
    using ring_distance_decreases[OF h lt ne] cur nx classic_advance_frame[OF adv]
    by (simp add: ring_distance_to_head_def Let_def)
qed

declare classic_next_step_loop.simps [simp del]

definition classic_step_generator_next_step_event ::
  "config \<Rightarrow> axis \<Rightarrow> real \<Rightarrow> engine \<Rightarrow> error + (step_event_info_t \<times> engine)"
where
  "classic_step_generator_next_step_event cfg g flush_time st =
     (if csg_current_move (xyze_get (step_generators_pool st) g) = None then Inl AssertionFailed
      else classic_next_step_loop cfg g flush_time st)"

text \<open>\<open>classic_step_generator_init move g\<close>: \<open>move\<close> is the slot of the segment, \<open>g\<close> the
  generator of the pool.\<close>

definition classic_step_generator_init :: "nat \<Rightarrow> axis \<Rightarrow> engine \<Rightarrow> error + engine" where
  "classic_step_generator_init move g st =
     (if \<not> move < length (q_data (move_segment_queue st)) then Inl NullPointer
      else
        (let step_generator = xyze_get (step_generators_pool st) g;
             a = csg_axis step_generator;
             st1 = set_generator g (step_generator\<lparr>csg_current_move := Some move\<rparr>) st;
             ss = step_generator_state st1;
             mflags = mv_flags (q_data (move_segment_queue st1) ! move);
             f1 = sgs_flags ss OR (mflags AND push_bit (axis_num a) STEP_EVENT_FLAG_X_DIR);
             f2 = f1 OR (mflags AND push_bit (axis_num a) STEP_EVENT_FLAG_X_ACTIVE);
             st2 = st1\<lparr>step_generator_state :=
                        ss\<lparr>sgs_step_generator := xyze_set (sgs_step_generator ss) a (Some g),
                           sgs_next_step_func := xyze_set (sgs_next_step_func ss) a (Some classic_next_step_f),
                           sgs_flags := f2\<rparr>\<rparr>;
             st3 = add_reference_cnt move 1 st2
         in classic_step_generator_update g st3))"

section \<open>Multi-axis merger\<close>

definition step_generator_next_step_event ::
  "config \<Rightarrow> axis \<Rightarrow> real \<Rightarrow> engine \<Rightarrow> error + (step_event_info_t \<times> engine)"
where
  "step_generator_next_step_event cfg a flush_time st =
     (let ss = step_generator_state st in
      case xyze_get (sgs_next_step_func ss) a of
        None \<Rightarrow> Inl NullPointer
      | Some classic_next_step_f \<Rightarrow>
          (case xyze_get (sgs_step_generator ss) a of
             None \<Rightarrow> Inl NullPointer
           | Some g \<Rightarrow> classic_step_generator_next_step_event cfg g flush_time st))"

text \<open>Modelled from the spec: \<^verbatim>\<open>step_generator_state_update_nearest_idx\<close> (absent header)
  re-sorts the index of the four axes by the time of their next step event, so that its
  first entry is an axis with the minimum time.\<close>

definition step_generator_state_update_nearest_idx :: "step_generator_state_t \<Rightarrow> step_generator_state_t" where
  "step_generator_state_update_nearest_idx ss =
     ss\<lparr>sgs_step_event_index :=
          sort_key (\<lambda>a. sei_time (xyze_get (sgs_step_events ss) a)) (sgs_step_event_index ss)\<rparr>"

text \<open>The conversion \<^verbatim>\<open>int32_t(x)\<close> of a \<^verbatim>\<open>double\<close>: the fraction is discarded (truncation
  toward zero). When the integer part does not fit into 32 bits the conversion is undefined
  in C++; the code goes on with the value the hardware yields, \<open>int32_out_of_range\<close>.\<close>

definition truncate_toward_zero :: "real \<Rightarrow> int" where
  "truncate_toward_zero v = (if v \<ge> 0 then \<lfloor>v\<rfloor> else \<lceil>v\<rceil>)"

definition int32_of_double :: "config \<Rightarrow> real \<Rightarrow> int" where
  "int32_of_double cfg v =
     (let t = truncate_toward_zero v in
      if - (2 ^ 31) \<le> t \<and> t < 2 ^ 31 then t else int32_out_of_range cfg v)"

text \<open>The value that \<^verbatim>\<open>generate_next_step_event\<close> converts to ticks: the computed difference
  between the time of the nearest step event and \<^verbatim>\<open>previous_step_time\<close>, replaced by 0
  when it is negative, times \<^verbatim>\<open>ticks_per_sec\<close> (the computed product).\<close>

definition step_time_relative_in_ticks :: "config \<Rightarrow> axis \<Rightarrow> engine \<Rightarrow> real" where
  "step_time_relative_in_ticks cfg old_nearest_step_event_idx st =
     (let step_state = step_generator_state st;
          step_time_absolute =
            sei_time (xyze_get (sgs_step_events step_state) old_nearest_step_event_idx);
          step_time_relative0 = double_sub cfg step_time_absolute (sgs_previous_step_time step_state);
          step_time_relative = (if step_time_relative0 < 0 then 0 else step_time_relative0)
      in double_mul cfg step_time_relative (ticks_per_sec st))"

text \<open>The first part of \<^verbatim>\<open>generate_next_step_event\<close>, up to the request for the next
  event of the axis: the step event put out for the nearest axis
  \<open>old_nearest_step_event_idx\<close>. \<open>step_event\<close> is the reference argument (the caller's
  local, not initialised); the result is the reference argument after this part and the
  merger state.\<close>

definition emit_nearest_step_event ::
  "config \<Rightarrow> step_event_t \<Rightarrow> axis \<Rightarrow> engine \<Rightarrow> error + (step_event_t \<times> step_generator_state_t)"
where
  "emit_nearest_step_event cfg step_event old_nearest_step_event_idx st =
     (let step_state = step_generator_state st;
          old_nearest_step_event =
            sei_time (xyze_get (sgs_step_events step_state) old_nearest_step_event_idx)
      in if old_nearest_step_event \<noteq> 0 \<and> old_nearest_step_event \<noteq> DBL_MAX then
           (let step_time_absolute = old_nearest_step_event;
                ticks = int32_of_double cfg (step_time_relative_in_ticks cfg old_nearest_step_event_idx st);
                flags = sei_flags (xyze_get (sgs_step_events step_state) old_nearest_step_event_idx)
            in if flags = 0 then Inl AssertionFailed
               else if sgs_left_insert_start_of_move_segment step_state \<noteq> 0 then
                 Inr (\<lparr>se_time_ticks = ticks,
                       se_flags = flags OR STEP_EVENT_FLAG_BEGINNING_OF_MOVE_SEGMENT\<rparr>,
                      step_state\<lparr>sgs_left_insert_start_of_move_segment :=
                                    sgs_left_insert_start_of_move_segment step_state - 1,
                                  sgs_previous_step_time := step_time_absolute\<rparr>)
               else
                 Inr (\<lparr>se_time_ticks = ticks, se_flags = flags\<rparr>,
                      step_state\<lparr>sgs_previous_step_time := step_time_absolute\<rparr>))
         else Inr (step_event\<lparr>se_flags := 0\<rparr>, step_state))"

text \<open>\<open>generate_next_step_event cfg step_event flush_time st\<close>: the result is the returned
  flag, the reference argument after the call and the engine.\<close>

definition generate_next_step_event ::
  "config \<Rightarrow> step_event_t \<Rightarrow> real \<Rightarrow> engine \<Rightarrow> error + (bool \<times> step_event_t \<times> engine)"
where
  "generate_next_step_event cfg step_event flush_time st =
     (case sgs_step_event_index (step_generator_state st) of
        [] \<Rightarrow> Inl NullPointer
      | old_nearest_step_event_idx # _ \<Rightarrow>
          (case emit_nearest_step_event cfg step_event old_nearest_step_event_idx st of
             Inl e \<Rightarrow> Inl e
           | Inr (step_event', step_state1) \<Rightarrow>
               (case step_generator_next_step_event cfg old_nearest_step_event_idx flush_time
                       (st\<lparr>step_generator_state := step_state1\<rparr>) of
                  Inl e \<Rightarrow> Inl e
                | Inr (new_nearest_step_event, st2) \<Rightarrow>
                    (let ss2 = step_generator_state st2;
                         ss3 = ss2\<lparr>sgs_step_events :=
                                    xyze_set (sgs_step_events ss2) old_nearest_step_event_idx new_nearest_step_event\<rparr>;
                         ss4 = step_generator_state_update_nearest_idx ss3
                     in case sgs_step_event_index ss4 of
                          [] \<Rightarrow> Inl NullPointer
                        | i0 # _ \<Rightarrow>
                            Inr (sei_time (xyze_get (sgs_step_events ss4) i0) = DBL_MAX,
                                 step_event', st2\<lparr>step_generator_state := ss4\<rparr>)))))"

section \<open>Move interrupt: the producer of step events\<close>

datatype StepGeneratorStatus =
    STEP_GENERATOR_STATUS_OK
  | STEP_GENERATOR_STATUS_FULL_STEP_EVENT_QUEUE
  | STEP_GENERATOR_STATUS_NO_STEP_EVENT_PRODUCED

text \<open>The loop of \<^verbatim>\<open>step_generator_state_init\<close> over the generator pointers of the merger
  state, which clears \<^verbatim>\<open>reached_end_of_move_queue\<close> through each pointer.\<close>

fun clear_reached_end_flags :: "axis list \<Rightarrow> engine \<Rightarrow> error + engine" where
  "clear_reached_end_flags [] st = Inr st"
| "clear_reached_end_flags (a # as) st =
     (case xyze_get (sgs_step_generator (step_generator_state st)) a of
        None \<Rightarrow> Inl NullPointer
      | Some g \<Rightarrow>
          clear_reached_end_flags as
            (set_generator g ((xyze_get (step_generators_pool st) g)\<lparr>csg_reached_end_of_move_queue := False\<rparr>) st))"

fun classic_step_generator_init_all :: "nat \<Rightarrow> axis list \<Rightarrow> engine \<Rightarrow> error + engine" where
  "classic_step_generator_init_all move [] st = Inr st"
| "classic_step_generator_init_all move (g # gs) st =
     (case classic_step_generator_init move g st of
        Inl e \<Rightarrow> Inl e
      | Inr st' \<Rightarrow> classic_step_generator_init_all move gs st')"

definition step_generator_state_init :: "nat \<Rightarrow> engine \<Rightarrow> error + engine" where
  "step_generator_state_init move st =
     (if \<not> move < length (q_data (move_segment_queue st)) then Inl NullPointer
      else if \<not> is_beginning_empty_move (q_data (move_segment_queue st) ! move) then Inl AssertionFailed
      else if max_lookback_time st > mv_move_t (q_data (move_segment_queue st) ! move) then Inl Bsod
      else
        (let ss = step_generator_state st;
             z = \<lparr>sei_time = 0, sei_flags = 0\<rparr>;
             ss1 = ss\<lparr>sgs_flags := 0,
                      sgs_previous_step_time := 0,
                      sgs_buffered_step := (sgs_buffered_step ss)\<lparr>se_flags := 0\<rparr>,
                      sgs_current_distance := XYZE 0 0 0 0,
                      sgs_left_insert_start_of_move_segment := 0,
                      sgs_step_event_index := [X_AXIS, Y_AXIS, Z_AXIS, E_AXIS],
                      sgs_step_events := XYZE z z z z\<rparr>
         in case clear_reached_end_flags [X_AXIS, Y_AXIS, Z_AXIS, E_AXIS] (st\<lparr>step_generator_state := ss1\<rparr>) of
              Inl e \<Rightarrow> Inl e
            | Inr st1 \<Rightarrow>
                (case classic_step_generator_init_all move [X_AXIS, Y_AXIS, Z_AXIS, E_AXIS] st1 of
                   Inl e \<Rightarrow> Inl e
                 | Inr st2 \<Rightarrow>
                     Inr (st2\<lparr>step_generator_state := (step_generator_state st2)\<lparr>sgs_initialized := True\<rparr>\<rparr>))))"

definition write_step_event :: "nat \<Rightarrow> nat \<Rightarrow> step_event_t \<Rightarrow> engine \<Rightarrow> engine" where
  "write_step_event slot next_step_event_queue_head ev st =
     st\<lparr>step_event_queue := (step_event_queue st)
          \<lparr>q_data := (q_data (step_event_queue st))[slot := ev],
           q_head := next_step_event_queue_head\<rparr>\<rparr>"

definition append_move_discarding_step_event :: "StepEventFlag_t \<Rightarrow> engine \<Rightarrow> bool \<times> engine" where
  "append_move_discarding_step_event extra_step_flags st =
     (case queue_next_free (step_event_queue st) of
        Some (slot, next_step_event_queue_head) \<Rightarrow>
          (let st1 = write_step_event slot next_step_event_queue_head
                       \<lparr>se_time_ticks = 0,
                        se_flags = sgs_flags (step_generator_state st)
                                     OR STEP_EVENT_FLAG_BEGINNING_OF_MOVE_SEGMENT OR extra_step_flags\<rparr> st
           in (True, st1\<lparr>step_generator_state := (step_generator_state st1)\<lparr>sgs_previous_step_time := 0\<rparr>\<rparr>))
      | None \<Rightarrow> (False, st))"

text \<open>The test of \<^verbatim>\<open>process_one_move_segment_from_queue\<close> that allows a new step event to be
  merged into the buffered one.\<close>

definition merge_allowed :: "config \<Rightarrow> step_event_t \<Rightarrow> step_event_t \<Rightarrow> bool" where
  "merge_allowed cfg buffered new_step_event =
     (se_time_ticks new_step_event = 0
      \<and> (se_flags buffered AND se_flags new_step_event)
            AND (STEP_EVENT_FLAG_AXIS_MASK OR STEP_EVENT_FLAG_AXIS_OTHER_MASK cfg) = 0
      \<and> (se_flags buffered XOR se_flags new_step_event) AND STEP_EVENT_FLAG_DIR_MASK = 0)"

text \<open>The block "accumulate into or flush the buffered step". \<open>next_step_event\<close> is the
  free slot of the step event queue taken at the start of the iteration, with the head
  index after a write.\<close>

definition accumulate_or_flush ::
  "config \<Rightarrow> (nat \<times> nat) option \<Rightarrow> step_event_t \<Rightarrow> engine \<Rightarrow> error + engine"
where
  "accumulate_or_flush cfg next_step_event new_step_event st =
     (let ss = step_generator_state st; buffered = sgs_buffered_step ss in
      if se_flags new_step_event \<noteq> 0 then
        (if se_flags buffered = 0 then
           Inr (st\<lparr>step_generator_state := ss\<lparr>sgs_buffered_step := new_step_event\<rparr>\<rparr>)
         else if merge_allowed cfg buffered new_step_event then
           Inr (st\<lparr>step_generator_state :=
                     ss\<lparr>sgs_buffered_step :=
                          buffered\<lparr>se_flags := se_flags buffered OR se_flags new_step_event\<rparr>\<rparr>\<rparr>)
         else
           (case next_step_event of
              None \<Rightarrow> Inl AssertionFailed
            | Some (slot, next_step_event_queue_head) \<Rightarrow>
                (let st1 = write_step_event slot next_step_event_queue_head buffered st
                 in Inr (st1\<lparr>step_generator_state :=
                               (step_generator_state st1)\<lparr>sgs_buffered_step := new_step_event\<rparr>\<rparr>))))
      else Inr st)"

datatype loop_exit = LoopContinue | LoopBreak | LoopReturnFull

text \<open>One iteration of the \<^verbatim>\<open>for\<close> loop; \<open>uninit\<close> is the content of the local
  \<^verbatim>\<open>new_step_event\<close> before it is assigned.\<close>

definition produce_iteration ::
  "config \<Rightarrow> step_event_t \<Rightarrow> real \<Rightarrow> engine \<Rightarrow> error + (loop_exit \<times> engine)"
where
  "produce_iteration cfg uninit flush_time st =
     (let next_step_event = queue_next_free (step_event_queue st) in
      if se_flags (sgs_buffered_step (step_generator_state st)) \<noteq> 0 \<and> next_step_event = None
      then Inr (LoopReturnFull, st)
      else
        (case generate_next_step_event cfg uninit flush_time st of
           Inl e \<Rightarrow> Inl e
         | Inr (done, new_step_event, st1) \<Rightarrow>
             (case accumulate_or_flush cfg next_step_event new_step_event st1 of
                Inl e \<Rightarrow> Inl e
              | Inr st2 \<Rightarrow> Inr (if done then LoopBreak else LoopContinue, st2))))"

text \<open>The \<^verbatim>\<open>for\<close> loop. The result is \<open>None\<close> with the final \<^verbatim>\<open>produced_step_events_cnt\<close>
  when the loop ends, or the status of the \<^verbatim>\<open>return\<close> inside it.\<close>

function produce_loop ::
  "config \<Rightarrow> step_event_t \<Rightarrow> real \<Rightarrow> nat \<Rightarrow> engine
     \<Rightarrow> error + (StepGeneratorStatus option \<times> nat \<times> engine)"
where
  "produce_loop cfg uninit flush_time produced_step_events_cnt st =
     (if produced_step_events_cnt < MAX_STEP_EVENTS_PRODUCED_PER_ONE_CALL cfg then
        (case produce_iteration cfg uninit flush_time st of
           Inl e \<Rightarrow> Inl e
         | Inr (LoopReturnFull, st') \<Rightarrow>
             Inr (Some STEP_GENERATOR_STATUS_FULL_STEP_EVENT_QUEUE, produced_step_events_cnt, st')
         | Inr (LoopBreak, st') \<Rightarrow> Inr (None, 0, st')
         | Inr (LoopContinue, st') \<Rightarrow>
             produce_loop cfg uninit flush_time (produced_step_events_cnt + 1) st')
      else Inr (None, produced_step_events_cnt, st))"
  by pat_completeness auto
termination
  by (relation "measure (\<lambda>(cfg, uninit, flush_time, cnt, st).
        MAX_STEP_EVENTS_PRODUCED_PER_ONE_CALL cfg - cnt)") auto

declare produce_loop.simps [simp del]

definition apply_merger_helper ::
  "(step_generator_state_t \<times> classic_step_generator_t xyze
      \<Rightarrow> step_generator_state_t \<times> classic_step_generator_t xyze) \<Rightarrow> engine \<Rightarrow> engine"
where
  "apply_merger_helper f st =
     (case f (step_generator_state st, step_generators_pool st) of
        (ss, pool) \<Rightarrow> st\<lparr>step_generator_state := ss, step_generators_pool := pool\<rparr>)"

text \<open>The \<^verbatim>\<open>while\<close> loop that places the owed discarding step events.\<close>

function discarding_loop :: "engine \<Rightarrow> engine" where
  "discarding_loop st =
     (if sgs_left_insert_start_of_move_segment (step_generator_state st) > 0 then
        (case append_move_discarding_step_event 0 st of
           (True, st1) \<Rightarrow>
             discarding_loop
               (st1\<lparr>step_generator_state := (step_generator_state st1)
                     \<lparr>sgs_left_insert_start_of_move_segment :=
                        sgs_left_insert_start_of_move_segment (step_generator_state st1) - 1\<rparr>\<rparr>)
         | (False, st1) \<Rightarrow> st1)
      else st)"
  by pat_completeness auto
termination
  by (relation "measure (\<lambda>st. nat (sgs_left_insert_start_of_move_segment (step_generator_state st)))")
     (auto simp: append_move_discarding_step_event_def write_step_event_def Let_def
           split: option.splits)

declare discarding_loop.simps [simp del]

text \<open>The second part of \<^verbatim>\<open>process_one_move_segment_from_queue\<close>, entered when
  \<^verbatim>\<open>produced_step_events_cnt\<close> is zero: the wait on the ending empty move. The result is
  \<open>Some\<close> status for the \<^verbatim>\<open>return\<close> inside it.\<close>

definition finish_on_ending_move :: "engine \<Rightarrow> error + (StepGeneratorStatus option \<times> engine)" where
  "finish_on_ending_move st =
     (case get_current_unprocessed_move_segment st of
        None \<Rightarrow> Inr (None, st)
      | Some unprocessed_move \<Rightarrow>
          if \<not> is_ending_empty_move (q_data (move_segment_queue st) ! unprocessed_move)
          then Inr (None, st)
          else
            (let flushed =
                   (if se_flags (sgs_buffered_step (step_generator_state st)) \<noteq> 0 then
                      (case queue_next_free (step_event_queue st) of
                         None \<Rightarrow> None
                       | Some (slot, next_step_event_queue_head) \<Rightarrow>
                           (let st1 = write_step_event slot next_step_event_queue_head
                                        (sgs_buffered_step (step_generator_state st)) st;
                                ss1 = step_generator_state st1
                            in Some (st1\<lparr>step_generator_state :=
                                           ss1\<lparr>sgs_buffered_step := (sgs_buffered_step ss1)\<lparr>se_flags := 0\<rparr>\<rparr>\<rparr>)))
                    else Some st)
             in case flushed of
                  None \<Rightarrow> Inr (Some STEP_GENERATOR_STATUS_FULL_STEP_EVENT_QUEUE, st)
                | Some st2 \<Rightarrow>
                    (let st3 = discarding_loop st2 in
                     if sgs_left_insert_start_of_move_segment (step_generator_state st3) < 0
                     then Inl AssertionFailed
                     else if sgs_left_insert_start_of_move_segment (step_generator_state st3) = 0 then
                       (if \<not> queue_is_full (step_event_queue st3) then
                          (case append_move_discarding_step_event STEP_EVENT_END_OF_MOTION
                                  (discard_current_unprocessed_move_segment st3) of
                             (True, st4) \<Rightarrow> Inr (None, st4)
                           | (False, st4) \<Rightarrow> Inl AssertionFailed)
                        else Inr (None, st3))
                     else Inr (None, st3))))"

definition process_one_move_segment_from_queue ::
  "config \<Rightarrow> step_event_t \<Rightarrow> engine \<Rightarrow> error + (StepGeneratorStatus \<times> engine)"
where
  "process_one_move_segment_from_queue cfg uninit st =
     (let looped =
            (case get_current_unprocessed_move_segment st of
               None \<Rightarrow> Inr (None, 0, st)
             | Some move \<Rightarrow>
                 (case (if \<not> sgs_initialized (step_generator_state st)
                        then step_generator_state_init move st else Inr st) of
                    Inl e \<Rightarrow> Inl e
                  | Inr st1 \<Rightarrow>
                      (let flush_time = total_print_time st1 - max_lookback_time st1;
                           st2 = apply_merger_helper (step_generator_state_restart cfg) st1
                       in produce_loop cfg uninit flush_time 0 st2)))
      in case looped of
           Inl e \<Rightarrow> Inl e
         | Inr (Some status, produced_step_events_cnt, st3) \<Rightarrow> Inr (status, st3)
         | Inr (None, produced_step_events_cnt, st3) \<Rightarrow>
             if produced_step_events_cnt = 0 then
               (case finish_on_ending_move st3 of
                  Inl e \<Rightarrow> Inl e
                | Inr (Some status, st4) \<Rightarrow> Inr (status, st4)
                | Inr (None, st4) \<Rightarrow> Inr (STEP_GENERATOR_STATUS_NO_STEP_EVENT_PRODUCED, st4))
             else Inr (STEP_GENERATOR_STATUS_OK, st3))"

section \<open>Block intake, halt and reset\<close>

definition append_empty_move :: "move_t \<Rightarrow> engine \<Rightarrow> bool \<times> engine" where
  "append_empty_move move st =
     (case queue_next_free (move_segment_queue st) of
        Some (m, next_move_segment_queue_head) \<Rightarrow>
          (True, st\<lparr>move_segment_queue := (move_segment_queue st)
             \<lparr>q_data := (q_data (move_segment_queue st))[m := move],
              q_head := next_move_segment_queue_head\<rparr>\<rparr>)
      | None \<Rightarrow> (False, st))"

definition append_beginning_empty_move :: "engine \<Rightarrow> bool \<times> engine" where
  "append_beginning_empty_move st =
     (let move = \<lparr>mv_move_t = max_lookback_time st + 0.001, mv_start_v = 0, mv_half_accel = 0,
                  mv_print_time = 0, mv_axes_r = XYZE 0 0 0 0, mv_start_pos = total_start_pos st,
                  mv_flags = MOVE_FLAG_BEGINNING_EMPTY_MOVE, mv_reference_cnt = 0\<rparr>
      in case append_empty_move move st of
           (True, st1) \<Rightarrow>
             (True, reset_reached_end_of_move_queue_flag
                      (st1\<lparr>total_print_time := mv_print_time move + mv_move_t move\<rparr>))
         | (False, st1) \<Rightarrow> (False, st1))"

definition append_block_discarding_move :: "engine \<Rightarrow> bool \<times> engine" where
  "append_block_discarding_move st =
     append_empty_move
       \<lparr>mv_move_t = 0, mv_start_v = 0, mv_half_accel = 0,
        mv_print_time = total_print_time st, mv_axes_r = XYZE 0 0 0 0, mv_start_pos = total_start_pos st,
        mv_flags = MOVE_FLAG_FIRST_MOVE_SEGMENT_OF_BLOCK OR MOVE_FLAG_LAST_MOVE_SEGMENT_OF_BLOCK,
        mv_reference_cnt = 0\<rparr> st"

definition append_ending_empty_move :: "config \<Rightarrow> engine \<Rightarrow> bool \<times> engine" where
  "append_ending_empty_move cfg st =
     (let move = \<lparr>mv_move_t = MAX_PRINT_TIME cfg, mv_start_v = 0, mv_half_accel = 0,
                  mv_print_time = total_print_time st, mv_axes_r = XYZE 0 0 0 0,
                  mv_start_pos = total_start_pos st,
                  mv_flags = MOVE_FLAG_ENDING_EMPTY_MOVE, mv_reference_cnt = 0\<rparr>
      in case append_empty_move move st of
           (True, st1) \<Rightarrow>
             (True, reset_reached_end_of_move_queue_flag
                      (st1\<lparr>total_print_time := mv_print_time move + mv_move_t move\<rparr>))
         | (False, st1) \<Rightarrow> (False, st1))"

text \<open>Modelled from the spec: the planner interface and the helpers of the absent headers
  that block intake uses. A block is a move unless it is a sync block;
  \<^verbatim>\<open>has_all_generators_reached_end_of_move_queue\<close> holds when every generator reported the end
  of the queue; \<^verbatim>\<open>has_blocks_queued\<close> holds while one of the two rings is not empty;
  \<^verbatim>\<open>Stepper::_set_position\<close> loads the step counters.\<close>

definition is_move :: "block_t \<Rightarrow> bool" where
  "is_move block = (\<not> blk_sync_position block)"

definition get_current_unprocessed_block :: "engine \<Rightarrow> block_t option" where
  "get_current_unprocessed_block st =
     (case pl_unprocessed (planner st) of [] \<Rightarrow> None | b # bs \<Rightarrow> Some b)"

definition discard_current_unprocessed_block :: "engine \<Rightarrow> engine" where
  "discard_current_unprocessed_block st =
     (case pl_unprocessed (planner st) of
        [] \<Rightarrow> st
      | b # bs \<Rightarrow> st\<lparr>planner := (planner st)\<lparr>pl_unprocessed := bs,
                                              pl_processed := pl_processed (planner st) @ [b]\<rparr>\<rparr>)"

definition discard_current_block :: "engine \<Rightarrow> engine" where
  "discard_current_block st = st\<lparr>planner := (planner st)\<lparr>pl_processed := tl (pl_processed (planner st))\<rparr>\<rparr>"

definition clear_block_buffer :: "engine \<Rightarrow> engine" where
  "clear_block_buffer st = st\<lparr>planner := (planner st)\<lparr>pl_unprocessed := [], pl_processed := []\<rparr>\<rparr>"

definition movesplanned_processed :: "engine \<Rightarrow> nat" where
  "movesplanned_processed st = length (pl_processed (planner st))"

definition has_all_generators_reached_end_of_move_queue :: "engine \<Rightarrow> bool" where
  "has_all_generators_reached_end_of_move_queue st =
     (let p = step_generators_pool st in
      csg_reached_end_of_move_queue (x_of p) \<and> csg_reached_end_of_move_queue (y_of p)
      \<and> csg_reached_end_of_move_queue (z_of p) \<and> csg_reached_end_of_move_queue (e_of p))"

definition has_blocks_queued :: "engine \<Rightarrow> bool" where
  "has_blocks_queued st =
     (q_head (move_segment_queue st) \<noteq> q_tail (move_segment_queue st)
      \<or> q_head (step_event_queue st) \<noteq> q_tail (step_event_queue st))"

definition set_position :: "32 word xyze \<Rightarrow> engine \<Rightarrow> engine" where
  "set_position pos st = st\<lparr>count_position := pos\<rparr>"

text \<open>Modelled from the spec: \<^verbatim>\<open>step_event_queue_clear\<close> and \<^verbatim>\<open>move_segment_queue_clear\<close>
  (absent header) empty the rings.\<close>

definition step_event_queue_clear :: "engine \<Rightarrow> engine" where
  "step_event_queue_clear st = st\<lparr>step_event_queue := (step_event_queue st)\<lparr>q_head := 0, q_tail := 0\<rparr>\<rparr>"

definition move_segment_queue_clear :: "engine \<Rightarrow> engine" where
  "move_segment_queue_clear st =
     st\<lparr>move_segment_queue := (move_segment_queue st)\<lparr>q_head := 0, q_tail := 0, unprocessed_tail := 0\<rparr>\<rparr>"

definition reset_from_halt :: "config \<Rightarrow> engine \<Rightarrow> engine" where
  "reset_from_halt cfg st =
     (apply_merger_helper (step_generator_state_clear cfg) st)
       \<lparr>total_print_time := 0,
        total_start_pos := XYZE 0 0 0 0,
        total_start_pos_steps := XYZE 0 0 0 0\<rparr>"

text \<open>\<open>now\<close> is the value of \<^verbatim>\<open>ticks_ms()\<close>.\<close>

definition waiting_for_discard_check :: "config \<Rightarrow> engine \<Rightarrow> bool" where
  "waiting_for_discard_check cfg st =
     (if movesplanned_processed st \<ge> BLOCK_BUFFER_SIZE cfg div 2
      then \<not> has_all_generators_reached_end_of_move_queue st
      else False)"

definition is_waiting_before_delivering :: "config \<Rightarrow> 32 word \<Rightarrow> engine \<Rightarrow> bool \<times> engine" where
  "is_waiting_before_delivering cfg now st =
     (if pl_delay_before_delivering (planner st) \<noteq> 0 then
        (if waiting_before_delivering_start_time st = 0
         then (True, st\<lparr>waiting_before_delivering_start_time := now\<rparr>)
         else if pl_nonbusy_movesplanned (planner st) \<ge> 3
                 \<or> now - waiting_before_delivering_start_time st \<ge> pl_delay_before_delivering (planner st)
         then (let st1 = st\<lparr>planner := (planner st)\<lparr>pl_delay_before_delivering := 0\<rparr>,
                            waiting_before_delivering_start_time := 0\<rparr>
               in (waiting_for_discard_check cfg st1, st1))
         else (True, st))
      else (waiting_for_discard_check cfg st, st))"

text \<open>The \<^verbatim>\<open>while\<close> loop of \<^verbatim>\<open>process_queue_of_blocks\<close> that fetches the next block: \<open>None\<close>
  is the \<^verbatim>\<open>return\<close> inside the loop, \<open>Some\<close> the value of \<^verbatim>\<open>current_block\<close> after it.\<close>

function fetch_next_block :: "engine \<Rightarrow> error + (block_t option option \<times> engine)" where
  "fetch_next_block st =
     (case get_current_unprocessed_block st of
        None \<Rightarrow> Inr (Some None, st)
      | Some current_block \<Rightarrow>
          if is_move current_block then Inr (Some (Some current_block), st)
          else if total_print_time st = 0 then
            (if has_blocks_queued st then Inl AssertionFailed
             else fetch_next_block
                    (discard_current_block
                       (discard_current_unprocessed_block
                          (set_position (blk_position current_block) st))))
          else
            (case append_block_discarding_move st of
               (False, st1) \<Rightarrow> Inr (None, st1)
             | (True, st1) \<Rightarrow> fetch_next_block (discard_current_unprocessed_block st1)))"
  by pat_completeness auto
termination
  by (relation "measure (\<lambda>st. length (pl_unprocessed (planner st)))")
     (auto simp: get_current_unprocessed_block_def discard_current_unprocessed_block_def
           discard_current_block_def set_position_def append_block_discarding_move_def
           append_empty_move_def
           split: list.splits option.splits)

declare fetch_next_block.simps [simp del]

definition process_queue_of_blocks :: "config \<Rightarrow> 32 word \<Rightarrow> engine \<Rightarrow> error + engine" where
  "process_queue_of_blocks cfg now st =
     (case is_waiting_before_delivering cfg now st of
        (True, st1) \<Rightarrow> Inr st1
      | (False, st1) \<Rightarrow>
          if total_print_time st1 \<ge> MAX_PRINT_TIME cfg \<and> has_blocks_queued st1 then Inr st1
          else
            (let st2 = (if total_print_time st1 \<ge> MAX_PRINT_TIME cfg
                        then reset_from_halt cfg st1 else st1)
             in case fetch_next_block st2 of
                  Inl e \<Rightarrow> Inl e
                | Inr (None, st3) \<Rightarrow> Inr st3
                | Inr (Some None, st3) \<Rightarrow>
                    if total_print_time st3 \<noteq> 0 \<and> has_all_generators_reached_end_of_move_queue st3
                    then Inr (snd (append_ending_empty_move cfg st3))
                    else Inr st3
                | Inr (Some (Some current_block), st3) \<Rightarrow>
                    (case (if total_print_time st3 = 0 then append_beginning_empty_move st3
                           else (True, st3)) of
                       (False, st4) \<Rightarrow> Inr st4
                     | (True, st4) \<Rightarrow>
                         (case append_move_segments_to_queue cfg current_block st4 of
                            (True, st5) \<Rightarrow> Inr (discard_current_unprocessed_block st5)
                          | (False, st5) \<Rightarrow> Inr st5))))"

text \<open>\<^verbatim>\<open>reset_queues\<close>. Suspending the stepper and masking the move interrupt have no state in
  this model.\<close>

definition reset_queues :: "config \<Rightarrow> engine \<Rightarrow> engine" where
  "reset_queues cfg st =
     (clear_block_buffer (reset_from_halt cfg (move_segment_queue_clear (step_event_queue_clear st))))
       \<lparr>step_dl_miss := 0,
        step_ev_miss := 0,
        left_ticks_to_next_step_event := 0,
        axis_did_move := 0,
        stop_pending := False\<rparr>"

definition loop :: "config \<Rightarrow> engine \<Rightarrow> engine" where
  "loop cfg st = (if stop_pending st then reset_queues cfg st else st)"

section \<open>Example configuration and states\<close>

text \<open>A configuration and a halted engine with rings of eight slots, used to evaluate the
  functions at concrete inputs. The time of a step in the example configuration is the
  one of a uniform motion. Its difference and product of doubles are the exact ones (the
  examples use operands whose exact difference and product are doubles, so that no
  rounding takes place), and its conversion of a value outside the 32-bit range yields
  \<open>-2^31\<close>, the result of the conversion instruction of x86 processors.\<close>

definition uniform_time_for_distance :: "real \<Rightarrow> real \<Rightarrow> real \<Rightarrow> bool \<Rightarrow> real option" where
  "uniform_time_for_distance start_v accel distance step_dir =
     (if accel = 0 \<and> start_v \<noteq> 0 then Some (distance / start_v) else None)"

definition example_config :: config where
  "example_config =
     \<lparr>EPSILON_DISTANCE = 1 / 1000000,
      EPSILON = 1 / 1000000000,
      MOVE_SEGMENT_QUEUE_MIN_FREE_SLOTS = 2,
      MAX_STEP_EVENTS_PRODUCED_PER_ONE_CALL = 4,
      MAX_PRINT_TIME = 10000000,
      BLOCK_BUFFER_SIZE = 16,
      STEP_EVENT_FLAG_AXIS_OTHER_MASK =
        STEP_EVENT_FLAG_BEGINNING_OF_MOVE_SEGMENT OR STEP_EVENT_END_OF_MOTION,
      mm_per_step = XYZE (1 / 100) (1 / 100) (1 / 400) (1 / 320),
      mm_per_half_step = XYZE (1 / 200) (1 / 200) (1 / 800) (1 / 640),
      calc_time_for_distance = uniform_time_for_distance,
      step_generator_state_restart = (\<lambda>p. p),
      step_generator_state_clear = (\<lambda>p. p),
      double_sub = (\<lambda>a b. a - b),
      double_mul = (\<lambda>a b. a * b),
      int32_out_of_range = (\<lambda>v. - 2147483648),
      non_finite_field = (\<lambda>d. 0)\<rparr>"

definition empty_move :: move_t where
  "empty_move =
     \<lparr>mv_move_t = 0, mv_start_v = 0, mv_half_accel = 0, mv_print_time = 0,
      mv_axes_r = XYZE 0 0 0 0, mv_start_pos = XYZE 0 0 0 0, mv_flags = 0, mv_reference_cnt = 0\<rparr>"

definition detached_generator :: "axis \<Rightarrow> classic_step_generator_t" where
  "detached_generator a =
     \<lparr>csg_axis = a, csg_current_move = None, csg_reached_end_of_move_queue = False,
      csg_start_v = 0, csg_accel = 0, csg_start_pos = 0, csg_step_dir = True\<rparr>"

definition halted_merger :: step_generator_state_t where
  "halted_merger =
     \<lparr>sgs_flags = 0,
      sgs_previous_step_time = 0,
      sgs_buffered_step = \<lparr>se_time_ticks = 0, se_flags = 0\<rparr>,
      sgs_current_distance = XYZE 0 0 0 0,
      sgs_left_insert_start_of_move_segment = 0,
      sgs_step_event_index = [X_AXIS, Y_AXIS, Z_AXIS, E_AXIS],
      sgs_step_events = XYZE \<lparr>sei_time = 0, sei_flags = 0\<rparr> \<lparr>sei_time = 0, sei_flags = 0\<rparr>
                             \<lparr>sei_time = 0, sei_flags = 0\<rparr> \<lparr>sei_time = 0, sei_flags = 0\<rparr>,
      sgs_step_generator = XYZE (Some X_AXIS) (Some Y_AXIS) (Some Z_AXIS) (Some E_AXIS),
      sgs_next_step_func = XYZE None None None None,
      sgs_initialized = False\<rparr>"

definition halted_engine :: engine where
  "halted_engine =
     \<lparr>move_segment_queue =
        \<lparr>q_data = replicate 8 empty_move, q_head = 0, q_tail = 0, unprocessed_tail = 0\<rparr>,
      step_event_queue =
        \<lparr>q_data = replicate 8 \<lparr>se_time_ticks = 0, se_flags = 0\<rparr>, q_head = 0, q_tail = 0\<rparr>,
      left_ticks_to_next_step_event = 0,
      ticks_per_sec = 1000000,
      step_generator_state = halted_merger,
      step_generators_pool = XYZE (detached_generator X_AXIS) (detached_generator Y_AXIS)
                                  (detached_generator Z_AXIS) (detached_generator E_AXIS),
      max_lookback_time = 0,
      total_print_time = 0,
      total_start_pos = XYZE 0 0 0 0,
      total_start_pos_steps = XYZE 0 0 0 0,
      waiting_before_delivering_start_time = 0,
      stop_pending = False,
      step_dl_miss = 0,
      step_ev_miss = 0,
      planner = \<lparr>pl_unprocessed = [], pl_processed = [], pl_delay_before_delivering = 0,
                 pl_nonbusy_movesplanned = 0\<rparr>,
      axis_did_move = 0,
      count_position = XYZE 0 0 0 0\<rparr>"

section \<open>Properties of the rings\<close>

lemma ring_size_eq:
  fixes h t n :: nat
  assumes "h < n" "t < n"
  shows "(h + n - t) mod n = (if t \<le> h then h - t else h + n - t)"
proof (cases "t \<le> h")
  case True
  then have "h + n - t = (h - t) + n" by simp
  then have "(h + n - t) mod n = (h - t) mod n" by simp
  with True assms show ?thesis by simp
next
  case False
  with assms have "h + n - t < n" by simp
  with False show ?thesis by simp
qed

lemma ring_next_eq:
  fixes h n :: nat
  assumes "h < n"
  shows "(h + 1) mod n = (if h + 1 = n then 0 else h + 1)"
  using assms by (simp add: mod_if)

lemma queue_size_lt: "queue_wf q \<Longrightarrow> queue_size q < length (q_data q)"
  unfolding queue_wf_def queue_size_def
  by (metis less_nat_zero_code mod_less_divisor not_gr_zero)

lemma queue_not_full_size:
  assumes "queue_wf q" "\<not> queue_is_full q"
  shows "queue_size q + 1 < length (q_data q)"
proof -
  let ?n = "length (q_data q)" let ?h = "q_head q" let ?t = "q_tail q"
  from assms(1) have h: "?h < ?n" and t: "?t < ?n" by (simp_all add: queue_wf_def)
  from assms(2) have nf: "(?h + 1) mod ?n \<noteq> ?t"
    by (simp add: queue_is_full_def queue_next_index_def)
  have s: "queue_size q = (if ?t \<le> ?h then ?h - ?t else ?h + ?n - ?t)"
    unfolding queue_size_def using ring_size_eq[OF h t] .
  from nf have "(if ?h + 1 = ?n then 0 else ?h + 1) \<noteq> ?t"
    using ring_next_eq[OF h] by simp
  with h t s show ?thesis by (simp split: if_splits)
qed

lemma queue_free_pos_not_full:
  assumes "queue_wf q" "0 < queue_free_slots q"
  shows "\<not> queue_is_full q"
proof
  assume f: "queue_is_full q"
  let ?n = "length (q_data q)" let ?h = "q_head q" let ?t = "q_tail q"
  from assms(1) have h: "?h < ?n" and t: "?t < ?n" by (simp_all add: queue_wf_def)
  from f have nf: "(?h + 1) mod ?n = ?t"
    by (simp add: queue_is_full_def queue_next_index_def)
  have s: "queue_size q = (if ?t \<le> ?h then ?h - ?t else ?h + ?n - ?t)"
    unfolding queue_size_def using ring_size_eq[OF h t] .
  from nf have "(if ?h + 1 = ?n then 0 else ?h + 1) = ?t"
    using ring_next_eq[OF h] by simp
  with h t s have "queue_size q = ?n - 1" by (simp split: if_splits)
  with assms(2) show False by (simp add: queue_free_slots_def)
qed

lemma ring_last_index:
  fixes h t n :: nat
  assumes "h < n" "t < n"
  shows "(t + (h + n - t) mod n) mod n = h"
proof (cases "t \<le> h")
  case True
  with assms show ?thesis by (simp add: ring_size_eq)
next
  case False
  with assms have "t + (h + n - t) mod n = h + n" by (simp add: ring_size_eq)
  with assms show ?thesis by simp
qed

lemma ring_inner_index:
  fixes h t n k :: nat
  assumes "h < n" "t < n" "k < (h + n - t) mod n"
  shows "(t + k) mod n \<noteq> h"
proof (cases "t \<le> h")
  case True
  with assms have "t + k < h" by (simp add: ring_size_eq)
  with assms show ?thesis by simp
next
  case False
  with assms have k: "t + k < h + n" by (simp add: ring_size_eq)
  show ?thesis
  proof (cases "t + k < n")
    case True
    with False show ?thesis by simp
  next
    case False
    then have "(t + k) mod n = t + k - n"
      using assms(2) k assms(1) by (simp add: mod_if)
    with k False show ?thesis by simp
  qed
qed

lemma queue_push:
  fixes q :: "('a, 'z) queue_t_scheme" and m :: 'a
  assumes wf: "queue_wf q" and nf: "\<not> queue_is_full q"
  defines "q' \<equiv> q\<lparr>q_data := (q_data q)[q_head q := m], q_head := queue_next_index q (q_head q)\<rparr>"
  shows "queue_contents q' = queue_contents q @ [m]"
    and "queue_wf q'"
    and "queue_size q' = queue_size q + 1"
    and "queue_free_slots q' + 1 = queue_free_slots q"
proof -
  let ?n = "length (q_data q)" let ?h = "q_head q" let ?t = "q_tail q"
  from wf have h: "?h < ?n" and t: "?t < ?n" by (simp_all add: queue_wf_def)
  have s: "queue_size q = (if ?t \<le> ?h then ?h - ?t else ?h + ?n - ?t)"
    unfolding queue_size_def using ring_size_eq[OF h t] .
  have nx: "queue_next_index q ?h = (if ?h + 1 = ?n then 0 else ?h + 1)"
    unfolding queue_next_index_def using ring_next_eq[OF h] .
  from nf have ne: "queue_next_index q ?h \<noteq> ?t" by (simp add: queue_is_full_def)
  have h': "queue_next_index q ?h < ?n" using h nx by (auto split: if_splits)
  show wf': "queue_wf q'" using h' t by (simp add: queue_wf_def q'_def)
  have "queue_size q' = (if ?t \<le> queue_next_index q ?h then queue_next_index q ?h - ?t
                          else queue_next_index q ?h + ?n - ?t)"
    unfolding queue_size_def q'_def using ring_size_eq[OF h' t] by simp
  with s nx ne h t show sz: "queue_size q' = queue_size q + 1"
    by (simp split: if_splits)
  have lt: "queue_size q + 1 < ?n" using queue_not_full_size[OF wf nf] .
  show "queue_free_slots q' + 1 = queue_free_slots q"
    using sz lt by (simp add: queue_free_slots_def q'_def)
  have last: "(?t + queue_size q) mod ?n = ?h"
    unfolding queue_size_def using ring_last_index[OF h t] .
  have inner: "\<And>k. k < queue_size q \<Longrightarrow> (?t + k) mod ?n \<noteq> ?h"
    unfolding queue_size_def using ring_inner_index[OF h t] by blast
  have "queue_contents q' =
        map (\<lambda>k. (q_data q)[?h := m] ! ((?t + k) mod ?n)) [0..<queue_size q + 1]"
    using sz by (simp add: queue_contents_def q'_def)
  also have "\<dots> = map (\<lambda>k. (q_data q)[?h := m] ! ((?t + k) mod ?n)) [0..<queue_size q]
                  @ [(q_data q)[?h := m] ! ((?t + queue_size q) mod ?n)]"
    by simp
  also have "map (\<lambda>k. (q_data q)[?h := m] ! ((?t + k) mod ?n)) [0..<queue_size q]
             = queue_contents q"
    unfolding queue_contents_def using inner[THEN not_sym] by simp
  also have "(q_data q)[?h := m] ! ((?t + queue_size q) mod ?n) = m"
    using last h by simp
  finally show "queue_contents q' = queue_contents q @ [m]" .
qed

section \<open>Halt and reset\<close>

lemma apply_merger_helper_simps [simp]:
  "move_segment_queue (apply_merger_helper f st) = move_segment_queue st"
  "step_event_queue (apply_merger_helper f st) = step_event_queue st"
  "total_print_time (apply_merger_helper f st) = total_print_time st"
  "max_lookback_time (apply_merger_helper f st) = max_lookback_time st"
  "total_start_pos (apply_merger_helper f st) = total_start_pos st"
  "total_start_pos_steps (apply_merger_helper f st) = total_start_pos_steps st"
  "planner (apply_merger_helper f st) = planner st"
  "count_position (apply_merger_helper f st) = count_position st"
  "step_dl_miss (apply_merger_helper f st) = step_dl_miss st"
  "step_ev_miss (apply_merger_helper f st) = step_ev_miss st"
  "ticks_per_sec (apply_merger_helper f st) = ticks_per_sec st"
  by (simp_all add: apply_merger_helper_def split: prod.splits)

lemma queue_contents_cleared:
  "q_head q = 0 \<Longrightarrow> q_tail q = 0 \<Longrightarrow> queue_contents q = []"
  by (simp add: queue_contents_def queue_size_def)

text \<open>C7 (as amended). Once \<open>stop_pending\<close> is set, the foreground \<open>loop\<close> runs
  \<open>reset_queues\<close>, after which both rings are empty, the print time and both start
  positions are zero, \<open>axis_did_move\<close> is zero and \<open>stop_pending\<close> is cleared; the miss
  counters \<open>step_dl_miss\<close> and \<open>step_ev_miss\<close> and the ticks left to the next step event
  are zeroed as well (they are not left unchanged), while the step counters
  \<open>count_position\<close> keep their values.\<close>

theorem reset_queues_halt_state:
  "queue_contents (move_segment_queue (loop cfg (st\<lparr>stop_pending := True\<rparr>))) = []
   \<and> queue_contents (step_event_queue (loop cfg (st\<lparr>stop_pending := True\<rparr>))) = []
   \<and> total_print_time (loop cfg (st\<lparr>stop_pending := True\<rparr>)) = 0
   \<and> total_start_pos (loop cfg (st\<lparr>stop_pending := True\<rparr>)) = XYZE 0 0 0 0
   \<and> total_start_pos_steps (loop cfg (st\<lparr>stop_pending := True\<rparr>)) = XYZE 0 0 0 0
   \<and> axis_did_move (loop cfg (st\<lparr>stop_pending := True\<rparr>)) = 0
   \<and> stop_pending (loop cfg (st\<lparr>stop_pending := True\<rparr>)) = False
   \<and> step_dl_miss (loop cfg (st\<lparr>stop_pending := True\<rparr>)) = 0
   \<and> step_ev_miss (loop cfg (st\<lparr>stop_pending := True\<rparr>)) = 0
   \<and> left_ticks_to_next_step_event (loop cfg (st\<lparr>stop_pending := True\<rparr>)) = 0
   \<and> count_position (loop cfg (st\<lparr>stop_pending := True\<rparr>)) = count_position st"
  by (simp add: loop_def reset_queues_def reset_from_halt_def clear_block_buffer_def
      move_segment_queue_clear_def step_event_queue_clear_def queue_contents_cleared)

text \<open>C7 as stated fails: with three missed deadlines counted before the stop, the counter
  is not unchanged by the reset.\<close>

theorem reset_queues_counters_counterexample:
  "step_dl_miss (loop example_config (halted_engine\<lparr>step_dl_miss := 3, stop_pending := True\<rparr>))
     \<noteq> step_dl_miss (halted_engine\<lparr>step_dl_miss := 3, stop_pending := True\<rparr>)"
  by (simp add: loop_def reset_queues_def)

section \<open>Properties of the block to segment compiler\<close>

text \<open>A block that decelerates from 10 mm/s to rest at 1000 mm/s^2 over 0.050001 mm, and a
  block of 8 mm with acceleration 0 that starts and ends at 10 mm/s below its nominal
  speed.\<close>

definition short_decel_block :: block_t where
  "short_decel_block =
     \<lparr>blk_steps = XYZE 5 0 0 0, blk_direction_bits = 0, blk_millimeters = 50001 / 1000000,
      blk_acceleration = 1000, blk_initial_speed = 10, blk_nominal_speed = 100,
      blk_final_speed = 0, blk_sync_position = False, blk_position = XYZE 0 0 0 0\<rparr>"

definition zero_acceleration_block :: block_t where
  "zero_acceleration_block =
     \<lparr>blk_steps = XYZE 800 0 0 0, blk_direction_bits = 0, blk_millimeters = 8,
      blk_acceleration = 0, blk_initial_speed = 10, blk_nominal_speed = 100,
      blk_final_speed = 10, blk_sync_position = False, blk_position = XYZE 0 0 0 0\<rparr>"

text \<open>A block of 8 mm with acceleration 0 whose three speeds are 10 mm/s.\<close>

definition steady_zero_acceleration_block :: block_t where
  "steady_zero_acceleration_block =
     \<lparr>blk_steps = XYZE 800 0 0 0, blk_direction_bits = 0, blk_millimeters = 8,
      blk_acceleration = 0, blk_initial_speed = 10, blk_nominal_speed = 10,
      blk_final_speed = 10, blk_sync_position = False, blk_position = XYZE 0 0 0 0\<rparr>"

text \<open>The rule of the claim in its words: the value \<open>v\<close> snapped to the ends of \<open>[0, S]\<close>, and
  the acceleration distance of a block without cruise phase.\<close>

definition snap_to_range :: "real \<Rightarrow> real \<Rightarrow> real \<Rightarrow> real" where
  "snap_to_range eps S v = (if v \<le> eps then 0 else if v > S - eps then S else v)"

definition no_cruise_accel_dist :: "config \<Rightarrow> block_t \<Rightarrow> real" where
  "no_cruise_accel_dist cfg block =
     snap_to_range (EPSILON_DISTANCE cfg) (blk_millimeters block)
       ((2 * blk_millimeters block * blk_acceleration block
           + blk_final_speed block * blk_final_speed block
           - blk_initial_speed block * blk_initial_speed block)
        / (4 * blk_acceleration block))"

lemma snap_to_range_bounds:
  "0 \<le> S \<Longrightarrow> 0 \<le> eps \<Longrightarrow> 0 \<le> snap_to_range eps S v \<and> snap_to_range eps S v \<le> S"
  by (auto simp: snap_to_range_def)

text \<open>With a non-zero acceleration the distances are finite.\<close>

lemma calc_distance_required_to_reach_cruise_velocity_clamped_finite:
  assumes "accel \<noteq> 0"
  shows "calc_distance_required_to_reach_cruise_velocity_clamped cfg (Finite start_v) (Finite cruise_v) (Finite accel)
           = Finite (if (cruise_v * cruise_v - start_v * start_v) / (2 * accel) < EPSILON_DISTANCE cfg then 0
                     else (cruise_v * cruise_v - start_v * start_v) / (2 * accel))"
  using assms
  by (simp add: calc_distance_required_to_reach_cruise_velocity_clamped_def
      calc_distance_required_to_reach_cruise_velocity_def SQR_def Let_def zero_double_def)

lemma calc_distance_in_which_we_start_decelerating_clamped_finite:
  assumes "accel \<noteq> 0"
  shows "calc_distance_in_which_we_start_decelerating_clamped cfg (Finite start_v) (Finite end_v) (Finite accel) (Finite S)
           = Finite (snap_to_range (EPSILON_DISTANCE cfg) S
                      ((2 * S * accel + end_v * end_v - start_v * start_v) / (4 * accel)))"
  using assms
  by (simp add: calc_distance_in_which_we_start_decelerating_clamped_def
      calc_distance_in_which_we_start_decelerating_def SQR_def Let_def zero_double_def
      snap_to_range_def)

text \<open>The recomputation without cruise phase, on finite values.\<close>

lemma block_phase_distances_no_cruise:
  assumes "Finite (blk_millimeters block)
             - calc_distance_required_to_reach_cruise_velocity_clamped cfg
                 (Finite (blk_initial_speed block)) (Finite (blk_nominal_speed block))
                 (Finite (blk_acceleration block))
             - calc_distance_required_to_reach_cruise_velocity_clamped cfg
                 (Finite (blk_final_speed block)) (Finite (blk_nominal_speed block))
                 (Finite (blk_acceleration block))
           < Finite (EPSILON_DISTANCE cfg)"
    and "0 < blk_acceleration block"
    and "0 \<le> blk_millimeters block" and "0 \<le> EPSILON_DISTANCE cfg"
  shows "block_phase_distances cfg block
           = (Finite (no_cruise_accel_dist cfg block), Finite 0,
              Finite (blk_millimeters block - no_cruise_accel_dist cfg block),
              Finite (sqrt (2 * blk_acceleration block * no_cruise_accel_dist cfg block
                              + blk_initial_speed block * blk_initial_speed block)))"
proof -
  have a0: "blk_acceleration block \<noteq> 0" using assms(2) by simp
  have b: "0 \<le> no_cruise_accel_dist cfg block \<and> no_cruise_accel_dist cfg block \<le> blk_millimeters block"
    unfolding no_cruise_accel_dist_def using snap_to_range_bounds[OF assms(3,4)] .
  have ad: "calc_distance_in_which_we_start_decelerating_clamped cfg (Finite (blk_initial_speed block))
              (Finite (blk_final_speed block)) (Finite (blk_acceleration block))
              (Finite (blk_millimeters block))
            = Finite (no_cruise_accel_dist cfg block)"
    unfolding calc_distance_in_which_we_start_decelerating_clamped_finite[OF a0]
    by (simp add: no_cruise_accel_dist_def)
  have dd: "std_max (Finite (blk_millimeters block) - Finite (no_cruise_accel_dist cfg block)) 0
            = Finite (blk_millimeters block - no_cruise_accel_dist cfg block)"
    using b by (simp add: std_max_def zero_double_def)
  have nn: "0 \<le> 2 * no_cruise_accel_dist cfg block * blk_acceleration block
                 + blk_initial_speed block * blk_initial_speed block"
    using b assms(2) by simp
  have cv: "calc_velocity_after_acceleration (Finite (blk_initial_speed block))
              (Finite (blk_acceleration block)) (Finite (no_cruise_accel_dist cfg block))
            = Finite (sqrt (2 * blk_acceleration block * no_cruise_accel_dist cfg block
                              + blk_initial_speed block * blk_initial_speed block))"
    using nn by (simp add: calc_velocity_after_acceleration_def SQR_def mult.commute mult.left_commute)
  show ?thesis
    using assms(1) unfolding block_phase_distances_def Let_def
    by (simp only: if_True ad dd cv) (simp add: zero_double_def)
qed

text \<open>C9 (as amended). For a block with a positive acceleration and a non-negative length:
  when the cruise distance computed first is below \<open>EPSILON_DISTANCE\<close>, the block is
  recomputed without cruise phase: the acceleration distance is
  \<open>(2 S a + end_v^2 - start_v^2) / (4 a)\<close> snapped to the ends of \<open>[0, S]\<close> (0 when it is at
  most \<open>EPSILON_DISTANCE\<close>, \<open>S\<close> when it exceeds \<open>S - EPSILON_DISTANCE\<close>, itself otherwise),
  the deceleration distance is \<open>S\<close> minus it, the cruise distance is 0, and the cruise
  velocity is \<open>sqrt (2 a accel_dist + start_v^2)\<close>; all four are finite.\<close>

theorem no_cruise_recomputation:
  assumes "Finite (blk_millimeters block)
             - calc_distance_required_to_reach_cruise_velocity_clamped cfg
                 (Finite (blk_initial_speed block)) (Finite (blk_nominal_speed block))
                 (Finite (blk_acceleration block))
             - calc_distance_required_to_reach_cruise_velocity_clamped cfg
                 (Finite (blk_final_speed block)) (Finite (blk_nominal_speed block))
                 (Finite (blk_acceleration block))
           < Finite (EPSILON_DISTANCE cfg)"
    and "0 < blk_acceleration block"
    and "0 \<le> blk_millimeters block" and "0 \<le> EPSILON_DISTANCE cfg"
  shows "block_phase_distances cfg block
           = (Finite (no_cruise_accel_dist cfg block), Finite 0,
              Finite (blk_millimeters block - no_cruise_accel_dist cfg block),
              Finite (sqrt (2 * blk_acceleration block * no_cruise_accel_dist cfg block
                              + blk_initial_speed block * blk_initial_speed block)))
         \<and> 0 \<le> no_cruise_accel_dist cfg block
         \<and> no_cruise_accel_dist cfg block \<le> blk_millimeters block"
proof -
  have "0 \<le> no_cruise_accel_dist cfg block \<and> no_cruise_accel_dist cfg block \<le> blk_millimeters block"
    unfolding no_cruise_accel_dist_def using snap_to_range_bounds[OF assms(3,4)] .
  with block_phase_distances_no_cruise[OF assms] show ?thesis by simp
qed

lemma sqrt_100: "sqrt 100 = 10"
  by (rule real_sqrt_unique) simp_all

lemma short_decel_accel_dist: "no_cruise_accel_dist example_config short_decel_block = 0"
  by (simp add: no_cruise_accel_dist_def snap_to_range_def example_config_def short_decel_block_def)

theorem no_cruise_recomputation_witness:
  "block_phase_distances example_config short_decel_block
     = (Finite 0, Finite 0, Finite (50001 / 1000000), Finite 10)"
proof -
  have a: "blk_acceleration short_decel_block \<noteq> 0" by (simp add: short_decel_block_def)
  have h1: "Finite (blk_millimeters short_decel_block)
             - calc_distance_required_to_reach_cruise_velocity_clamped example_config
                 (Finite (blk_initial_speed short_decel_block)) (Finite (blk_nominal_speed short_decel_block))
                 (Finite (blk_acceleration short_decel_block))
             - calc_distance_required_to_reach_cruise_velocity_clamped example_config
                 (Finite (blk_final_speed short_decel_block)) (Finite (blk_nominal_speed short_decel_block))
                 (Finite (blk_acceleration short_decel_block))
           < Finite (EPSILON_DISTANCE example_config)"
    unfolding calc_distance_required_to_reach_cruise_velocity_clamped_finite[OF a]
    by (simp add: example_config_def short_decel_block_def)
  have h0: "0 < blk_acceleration short_decel_block" by (simp add: short_decel_block_def)
  have h2: "0 \<le> blk_millimeters short_decel_block" by (simp add: short_decel_block_def)
  have h3: "0 \<le> EPSILON_DISTANCE example_config" by (simp add: example_config_def)
  have v: "blk_millimeters short_decel_block = 50001 / 1000000"
    "blk_initial_speed short_decel_block = 10"
    by (simp_all add: short_decel_block_def)
  show ?thesis
    using no_cruise_recomputation[OF h1 h0 h2 h3]
    by (simp add: short_decel_accel_dist v sqrt_100)
qed

text \<open>C9 as stated fails: for a block that starts at 10 mm/s and stops after 0.050001 mm
  the formula gives half of \<open>EPSILON_DISTANCE\<close>, which a clamp to \<open>[0, S]\<close> keeps and the
  code replaces by 0.\<close>

theorem no_cruise_clamp_counterexample:
  "fst (block_phase_distances example_config short_decel_block)
     \<noteq> Finite (max 0 (min (blk_millimeters short_decel_block)
           ((2 * blk_millimeters short_decel_block * blk_acceleration short_decel_block
               + blk_final_speed short_decel_block * blk_final_speed short_decel_block
               - blk_initial_speed short_decel_block * blk_initial_speed short_decel_block)
             / (4 * blk_acceleration short_decel_block))))"
proof -
  have a: "blk_acceleration short_decel_block \<noteq> 0" by (simp add: short_decel_block_def)
  have "fst (block_phase_distances example_config short_decel_block) = Finite 0"
    unfolding block_phase_distances_def Let_def
      calc_distance_required_to_reach_cruise_velocity_clamped_finite[OF a]
      calc_distance_in_which_we_start_decelerating_clamped_finite[OF a]
    by (simp add: example_config_def short_decel_block_def snap_to_range_def)
  then show ?thesis by (simp add: short_decel_block_def)
qed

text \<open>With acceleration 0 the divisions are by zero: the two distances computed first are
  infinite, the block is recomputed without cruise phase, and the acceleration distance,
  the deceleration distance and the cruise velocity are NaN.\<close>

lemma zero_acceleration_block_distances:
  "block_phase_distances example_config zero_acceleration_block = (NaN, 0, NaN, NaN)"
  by (simp add: block_phase_distances_def Let_def example_config_def zero_acceleration_block_def
      calc_distance_required_to_reach_cruise_velocity_clamped_def
      calc_distance_required_to_reach_cruise_velocity_def
      calc_distance_in_which_we_start_decelerating_clamped_def
      calc_distance_in_which_we_start_decelerating_def
      calc_velocity_after_acceleration_def SQR_def std_max_def minus_double_def zero_double_def)

text \<open>Predicates on the segments a block contributes: the test of a flag, the rank of the
  phase (acceleration, cruise, deceleration), print times that continue one another, the
  print time at the end of a chain, and the segments between the old and the new head of
  the move segment queue.\<close>

definition move_flag_set :: "MoveFlag_t \<Rightarrow> move_t \<Rightarrow> bool" where
  "move_flag_set f m = (mv_flags m AND f \<noteq> 0)"

definition phase_rank :: "move_t \<Rightarrow> nat" where
  "phase_rank m =
     (if move_flag_set MOVE_FLAG_ACCELERATION_PHASE m then 0
      else if move_flag_set MOVE_FLAG_CRUISE_PHASE m then 1
      else if move_flag_set MOVE_FLAG_DECELERATION_PHASE m then 2 else 3)"

fun print_times_chained :: "real \<Rightarrow> move_t list \<Rightarrow> bool" where
  "print_times_chained t [] = True"
| "print_times_chained t (m # ms) = (mv_print_time m = t \<and> print_times_chained (t + mv_move_t m) ms)"

definition pushed_segments :: "engine \<Rightarrow> engine \<Rightarrow> move_t list" where
  "pushed_segments st st' =
     drop (queue_size (move_segment_queue st)) (queue_contents (move_segment_queue st'))"

fun one_segment :: "MoveFlag_t \<Rightarrow> real \<Rightarrow> real \<Rightarrow> move_t list \<Rightarrow> bool" where
  "one_segment fl pt pt' [m] = (mv_print_time m = pt \<and> pt' = pt + mv_move_t m \<and> mv_flags m = fl)"
| "one_segment fl pt pt' ms = False"

fun chain_end :: "real \<Rightarrow> move_t list \<Rightarrow> real" where
  "chain_end t [] = t"
| "chain_end t (m # ms) = chain_end (t + mv_move_t m) ms"

text \<open>Two blocks: 10 mm along X with all three phases, and a block of length zero.\<close>

definition cruise_block :: block_t where
  "cruise_block =
     \<lparr>blk_steps = XYZE 1000 0 0 0, blk_direction_bits = 0, blk_millimeters = 10,
      blk_acceleration = 1000, blk_initial_speed = 0, blk_nominal_speed = 50,
      blk_final_speed = 0, blk_sync_position = False, blk_position = XYZE 0 0 0 0\<rparr>"

definition zero_length_block :: block_t where
  "zero_length_block =
     \<lparr>blk_steps = XYZE 0 0 0 0, blk_direction_bits = 0, blk_millimeters = 0,
      blk_acceleration = 1000, blk_initial_speed = 10, blk_nominal_speed = 10,
      blk_final_speed = 10, blk_sync_position = False, blk_position = XYZE 0 0 0 0\<rparr>"

lemma append_move_segment_to_queue_frame:
  "\<exists>q'. snd (append_move_segment_to_queue t v ha pt ar sp fl st) = st\<lparr>move_segment_queue := q'\<rparr>"
proof (cases "queue_next_free (move_segment_queue st)")
  case None
  then have "snd (append_move_segment_to_queue t v ha pt ar sp fl st)
               = st\<lparr>move_segment_queue := move_segment_queue st\<rparr>"
    by (simp add: append_move_segment_to_queue_def)
  then show ?thesis by blast
next
  case (Some p)
  then show ?thesis
    by (cases p) (auto simp: append_move_segment_to_queue_def intro: exI)
qed

lemma append_accel_segment_frame:
  "\<exists>q'. snd (snd (append_accel_segment cfg block d (pt, sp, st))) = st\<lparr>move_segment_queue := q'\<rparr>"
proof -
  obtain ad cd dd cv where d: "d = (ad, cd, dd, cv)" by (cases d) auto
  show ?thesis
  proof (cases "ad = 0")
    case True
    then have "snd (snd (append_accel_segment cfg block d (pt, sp, st)))
                 = st\<lparr>move_segment_queue := move_segment_queue st\<rparr>"
      by (simp add: append_accel_segment_def d)
    then show ?thesis by blast
  next
    case False
    then show ?thesis
      using append_move_segment_to_queue_frame
      by (simp add: append_accel_segment_def d Let_def)
  qed
qed

lemma append_cruise_segment_frame:
  "\<exists>q'. snd (snd (append_cruise_segment cfg block d (pt, sp, st))) = st\<lparr>move_segment_queue := q'\<rparr>"
proof -
  obtain ad cd dd cv where d: "d = (ad, cd, dd, cv)" by (cases d) auto
  show ?thesis
  proof (cases "cd = 0")
    case True
    then have "snd (snd (append_cruise_segment cfg block d (pt, sp, st)))
                 = st\<lparr>move_segment_queue := move_segment_queue st\<rparr>"
      by (simp add: append_cruise_segment_def d)
    then show ?thesis by blast
  next
    case False
    then show ?thesis
      using append_move_segment_to_queue_frame
      by (simp add: append_cruise_segment_def d Let_def)
  qed
qed

lemma append_decel_segment_frame:
  "\<exists>q'. snd (snd (append_decel_segment cfg block d (pt, sp, st))) = st\<lparr>move_segment_queue := q'\<rparr>"
proof -
  obtain ad cd dd cv where d: "d = (ad, cd, dd, cv)" by (cases d) auto
  show ?thesis
  proof (cases "dd = 0")
    case True
    then have "snd (snd (append_decel_segment cfg block d (pt, sp, st)))
                 = st\<lparr>move_segment_queue := move_segment_queue st\<rparr>"
      by (simp add: append_decel_segment_def d)
    then show ?thesis by blast
  next
    case False
    then show ?thesis
      using append_move_segment_to_queue_frame
      by (simp add: append_decel_segment_def d Let_def)
  qed
qed

text \<open>The state after the three conditional blocks differs from the state before them in
  the move segment queue only.\<close>

lemma append_phases_frame:
  assumes "append_decel_segment cfg block d
             (append_cruise_segment cfg block d (append_accel_segment cfg block d (pt, sp, st)))
           = (pt', sp', st1)"
  shows "\<exists>q'. st1 = st\<lparr>move_segment_queue := q'\<rparr>"
proof -
  obtain pa spa sta where a: "append_accel_segment cfg block d (pt, sp, st) = (pa, spa, sta)"
    by (cases "append_accel_segment cfg block d (pt, sp, st)") auto
  obtain pc spc stc where c: "append_cruise_segment cfg block d (pa, spa, sta) = (pc, spc, stc)"
    by (cases "append_cruise_segment cfg block d (pa, spa, sta)") auto
  from append_accel_segment_frame[of cfg block d pt sp st] a
  obtain qa where qa: "sta = st\<lparr>move_segment_queue := qa\<rparr>" by auto
  from append_cruise_segment_frame[of cfg block d pa spa sta] c
  obtain qc where qc: "stc = sta\<lparr>move_segment_queue := qc\<rparr>" by auto
  from append_decel_segment_frame[of cfg block d pc spc stc] assms a c
  obtain qd where qd: "st1 = stc\<lparr>move_segment_queue := qd\<rparr>" by auto
  show ?thesis using qa qc qd by (intro exI[of _ qd]) simp
qed

lemma xyze_get_map2 [simp]: "xyze_get (xyze_map2 f u v) a = f (xyze_get u a) (xyze_get v a)"
  by (cases a) (simp_all add: xyze_map2_def)

lemma get_oriented_steps_axis:
  "xyze_get (get_oriented_steps_from_block block) a
     = (if blk_direction_bits block AND BV (axis_num a) \<noteq> 0
        then - xyze_get (blk_steps block) a else xyze_get (blk_steps block) a)"
  by (cases a) (simp_all add: get_oriented_steps_from_block_def Let_def xyze_map2_def)

lemma convert_oriented_steps_axis:
  "xyze_get (convert_oriented_steps_to_distance cfg steps) a
     = real_of_int (sint (xyze_get steps a)) * xyze_get (mm_per_step cfg) a"
  by (cases a) (simp_all add: convert_oriented_steps_to_distance_def)

text \<open>C8. After a successful \<open>append_move_segments_to_queue\<close>, on every axis the step
  accumulator \<open>total_start_pos_steps\<close> is its previous value plus the step count of the block,
  negated when the direction bit of the axis is set (in 32-bit arithmetic), and
  \<open>total_start_pos\<close> is that accumulator times \<open>mm_per_step\<close> of the axis: the position in
  millimeters is recomputed from the integer accumulator, not incremented.\<close>

theorem position_recomputed_from_steps:
  assumes "append_move_segments_to_queue cfg block st = (True, st')"
  shows "xyze_get (total_start_pos_steps st') a
           = xyze_get (total_start_pos_steps st) a
             + (if blk_direction_bits block AND BV (axis_num a) \<noteq> 0
                then - xyze_get (blk_steps block) a else xyze_get (blk_steps block) a)
         \<and> xyze_get (total_start_pos st') a
           = real_of_int (sint (xyze_get (total_start_pos_steps st') a)) * xyze_get (mm_per_step cfg) a"
proof -
  let ?d = "block_phase_distances cfg block"
  obtain pt sp st1 where p: "append_decel_segment cfg block ?d
             (append_cruise_segment cfg block ?d
                (append_accel_segment cfg block ?d
                   (Finite (total_print_time st), xyze_map Finite (total_start_pos st), st)))
           = (pt, sp, st1)"
    by (cases "append_decel_segment cfg block ?d
             (append_cruise_segment cfg block ?d
                (append_accel_segment cfg block ?d
                   (Finite (total_print_time st), xyze_map Finite (total_start_pos st), st)))") auto
  from append_phases_frame[OF p] obtain q' where q': "st1 = st\<lparr>move_segment_queue := q'\<rparr>" by auto
  from assms p have st': "st' = reset_reached_end_of_move_queue_flag
      (st1\<lparr>total_start_pos_steps := xyze_map2 (+) (total_start_pos_steps st1) (get_oriented_steps_from_block block),
           total_start_pos := convert_oriented_steps_to_distance cfg
              (xyze_map2 (+) (total_start_pos_steps st1) (get_oriented_steps_from_block block)),
           total_print_time := double_field cfg pt\<rparr>)"
    by (simp add: append_move_segments_to_queue_def Let_def split: if_splits)
  show ?thesis
    unfolding st' q'
    by (simp add: reset_reached_end_of_move_queue_flag_def get_oriented_steps_axis
        convert_oriented_steps_axis)
qed

lemma append_move_segment_to_queue_push:
  assumes wf: "queue_wf (move_segment_queue st)"
    and free: "0 < queue_free_slots (move_segment_queue st)"
  shows "\<exists>q'. snd (append_move_segment_to_queue t v ha pt ar sp fl st) = st\<lparr>move_segment_queue := q'\<rparr>
           \<and> queue_wf q'
           \<and> queue_contents q' = queue_contents (move_segment_queue st)
                @ [\<lparr>mv_move_t = t, mv_start_v = v, mv_half_accel = ha, mv_print_time = pt,
                    mv_axes_r = ar, mv_start_pos = sp, mv_flags = fl, mv_reference_cnt = 0\<rparr>]
           \<and> queue_free_slots q' + 1 = queue_free_slots (move_segment_queue st)"
proof -
  let ?q = "move_segment_queue st"
  let ?m = "\<lparr>mv_move_t = t, mv_start_v = v, mv_half_accel = ha, mv_print_time = pt,
             mv_axes_r = ar, mv_start_pos = sp, mv_flags = fl, mv_reference_cnt = 0\<rparr>"
  let ?q' = "?q\<lparr>q_data := (q_data ?q)[q_head ?q := ?m], q_head := queue_next_index ?q (q_head ?q)\<rparr>"
  have nf: "\<not> queue_is_full ?q" using queue_free_pos_not_full[OF wf free] .
  then have "snd (append_move_segment_to_queue t v ha pt ar sp fl st) = st\<lparr>move_segment_queue := ?q'\<rparr>"
    by (simp add: append_move_segment_to_queue_def queue_next_free_def)
  moreover note queue_push[OF wf nf, of ?m]
  ultimately show ?thesis by blast
qed

lemma bit_BV: "bit (BV k :: 16 word) n \<longleftrightarrow> n = k \<and> k < 16"
  by (auto simp: BV_def bit_exp_iff)

lemma flag_test: "(w AND (BV k :: 16 word) \<noteq> 0) = bit w k"
  by (simp add: BV_def bit_iff_and_push_bit_not_eq_0)

lemma bit_block_dir_flags:
  "bit (block_dir_flags block) n \<longleftrightarrow> 4 \<le> n \<and> n < 8 \<and> bit (blk_direction_bits block) (n - 4)"
proof -
  have m: "(15 :: 8 word) = mask 4" by (simp add: mask_eq_exp_minus_1)
  show ?thesis
    unfolding block_dir_flags_def MOVE_FLAG_DIR_SHIFT_def m
    by (auto simp: bit_push_bit_iff bit_ucast_iff bit_and_iff bit_mask_iff)
qed

lemma bit_active_axis_flags:
  "bit (get_active_axis_flags_from_block block) n \<longleftrightarrow>
     (n = 8 \<and> x_of (blk_steps block) > 0) \<or> (n = 9 \<and> y_of (blk_steps block) > 0)
     \<or> (n = 10 \<and> z_of (blk_steps block) > 0) \<or> (n = 11 \<and> e_of (blk_steps block) > 0)"
  by (auto simp: get_active_axis_flags_from_block_def bit_or_iff bit_BV
      MOVE_FLAG_X_ACTIVE_def MOVE_FLAG_Y_ACTIVE_def MOVE_FLAG_Z_ACTIVE_def MOVE_FLAG_E_ACTIVE_def
      split: if_splits)

lemmas move_flag_defs =
  MOVE_FLAG_ACCELERATION_PHASE_def MOVE_FLAG_DECELERATION_PHASE_def MOVE_FLAG_CRUISE_PHASE_def
  MOVE_FLAG_FIRST_MOVE_SEGMENT_OF_BLOCK_def MOVE_FLAG_LAST_MOVE_SEGMENT_OF_BLOCK_def

lemma bit_accel_segment_flags:
  "bit (accel_segment_flags block cd dd) 0"
  "\<not> bit (accel_segment_flags block cd dd) (Suc 0)"
  "\<not> bit (accel_segment_flags block cd dd) 2"
  "bit (accel_segment_flags block cd dd) 12"
  "bit (accel_segment_flags block cd dd) 13 \<longleftrightarrow> cd = 0 \<and> dd = 0"
  by (auto simp: accel_segment_flags_def bit_or_iff bit_BV bit_block_dir_flags move_flag_defs
      bit_active_axis_flags)

lemma bit_cruise_segment_flags:
  "\<not> bit (cruise_segment_flags block ad dd) 0"
  "\<not> bit (cruise_segment_flags block ad dd) (Suc 0)"
  "bit (cruise_segment_flags block ad dd) 2"
  "bit (cruise_segment_flags block ad dd) 12 \<longleftrightarrow> ad = 0"
  "bit (cruise_segment_flags block ad dd) 13 \<longleftrightarrow> dd = 0"
  by (auto simp: cruise_segment_flags_def bit_or_iff bit_BV bit_block_dir_flags move_flag_defs
      bit_active_axis_flags)

lemma bit_decel_segment_flags:
  "\<not> bit (decel_segment_flags block ad cd) 0"
  "bit (decel_segment_flags block ad cd) (Suc 0)"
  "\<not> bit (decel_segment_flags block ad cd) 2"
  "bit (decel_segment_flags block ad cd) 12 \<longleftrightarrow> ad = 0 \<and> cd = 0"
  "bit (decel_segment_flags block ad cd) 13"
  by (auto simp: decel_segment_flags_def bit_or_iff bit_BV bit_block_dir_flags move_flag_defs
      bit_active_axis_flags)

lemma engine_mq_update [simp]:
  "move_segment_queue (st\<lparr>move_segment_queue := q\<rparr>) = q"
  "(st\<lparr>move_segment_queue := q\<rparr>)\<lparr>move_segment_queue := q'\<rparr> = st\<lparr>move_segment_queue := q'\<rparr>"
  by simp_all

lemma double_field_Finite [simp]: "double_field cfg (Finite r) = r"
  by (simp add: double_field_def)

text \<open>The three conditional blocks on finite values: with a non-zero acceleration, a
  finite cruise velocity (non-zero where a cruise phase is present) and a finite print
  time, each block pushes at most one segment, whose print time is the given one and
  whose duration leads to the print time returned.\<close>

lemma append_accel_segment_push:
  assumes wf: "queue_wf (move_segment_queue st)"
    and free: "ad \<noteq> 0 \<Longrightarrow> 0 < queue_free_slots (move_segment_queue st)"
    and acc: "blk_acceleration block \<noteq> 0"
  shows "\<exists>q' pt' sp' A.
           append_accel_segment cfg block (ad, cd, dd, Finite cv) (Finite pt, sp, st)
             = (Finite pt', sp', st\<lparr>move_segment_queue := q'\<rparr>)
           \<and> queue_wf q'
           \<and> queue_contents q' = queue_contents (move_segment_queue st) @ A
           \<and> queue_free_slots q' + length A = queue_free_slots (move_segment_queue st)
           \<and> (if ad \<noteq> 0 then one_segment (accel_segment_flags block cd dd) pt pt' A
               else A = [] \<and> pt' = pt)"
proof (cases "ad = 0")
  case True
  have "append_accel_segment cfg block (ad, cd, dd, Finite cv) (Finite pt, sp, st)
          = (Finite pt, sp, st\<lparr>move_segment_queue := move_segment_queue st\<rparr>)"
    using True by (simp add: append_accel_segment_def)
  then show ?thesis using True wf by (intro exI[of _ "move_segment_queue st"] exI[of _ pt] exI[of _ sp] exI[of _ "[]"]) simp
next
  case False
  let ?t = "(cv - blk_initial_speed block) / blk_acceleration block"
  let ?ar = "xyze_map (double_field cfg) (calc_axes_r_from_block cfg block)"
  let ?sp = "xyze_map (double_field cfg) sp"
  from append_move_segment_to_queue_push[OF wf free[OF False],
      of ?t "blk_initial_speed block" "0.5 * blk_acceleration block" pt ?ar ?sp
         "accel_segment_flags block cd dd"]
  obtain q' where q': "snd (append_move_segment_to_queue ?t (blk_initial_speed block)
        (0.5 * blk_acceleration block) pt ?ar ?sp
        (accel_segment_flags block cd dd) st) = st\<lparr>move_segment_queue := q'\<rparr>"
    and w: "queue_wf q'"
    and c: "queue_contents q' = queue_contents (move_segment_queue st)
                @ [\<lparr>mv_move_t = ?t, mv_start_v = blk_initial_speed block,
                    mv_half_accel = 0.5 * blk_acceleration block, mv_print_time = pt,
                    mv_axes_r = ?ar, mv_start_pos = ?sp,
                    mv_flags = accel_segment_flags block cd dd, mv_reference_cnt = 0\<rparr>]"
    and f: "queue_free_slots q' + 1 = queue_free_slots (move_segment_queue st)"
    by blast
  have "append_accel_segment cfg block (ad, cd, dd, Finite cv) (Finite pt, sp, st)
          = (Finite (pt + ?t), calc_end_position sp (calc_axes_r_from_block cfg block) ad,
             st\<lparr>move_segment_queue := q'\<rparr>)"
    using False q' acc by (simp add: append_accel_segment_def Let_def)
  then show ?thesis using False w c f
    by (intro exI[of _ q'] exI[of _ "pt + ?t"]
          exI[of _ "calc_end_position sp (calc_axes_r_from_block cfg block) ad"]
          exI[of _ "[\<lparr>mv_move_t = ?t, mv_start_v = blk_initial_speed block,
                    mv_half_accel = 0.5 * blk_acceleration block, mv_print_time = pt,
                    mv_axes_r = ?ar, mv_start_pos = ?sp,
                    mv_flags = accel_segment_flags block cd dd, mv_reference_cnt = 0\<rparr>]"]) simp
qed

lemma append_cruise_segment_push:
  assumes wf: "queue_wf (move_segment_queue st)"
    and free: "cd \<noteq> 0 \<Longrightarrow> 0 < queue_free_slots (move_segment_queue st)"
    and fin: "cd = Finite c"
    and cvn: "cd \<noteq> 0 \<Longrightarrow> cv \<noteq> 0"
  shows "\<exists>q' pt' sp' A.
           append_cruise_segment cfg block (ad, cd, dd, Finite cv) (Finite pt, sp, st)
             = (Finite pt', sp', st\<lparr>move_segment_queue := q'\<rparr>)
           \<and> queue_wf q'
           \<and> queue_contents q' = queue_contents (move_segment_queue st) @ A
           \<and> queue_free_slots q' + length A = queue_free_slots (move_segment_queue st)
           \<and> (if cd \<noteq> 0 then one_segment (cruise_segment_flags block ad dd) pt pt' A
               else A = [] \<and> pt' = pt)"
proof (cases "cd = 0")
  case True
  have "append_cruise_segment cfg block (ad, cd, dd, Finite cv) (Finite pt, sp, st)
          = (Finite pt, sp, st\<lparr>move_segment_queue := move_segment_queue st\<rparr>)"
    using True by (simp add: append_cruise_segment_def)
  then show ?thesis using True wf by (intro exI[of _ "move_segment_queue st"] exI[of _ pt] exI[of _ sp] exI[of _ "[]"]) simp
next
  case False
  let ?t = "c / cv"
  let ?ar = "xyze_map (double_field cfg) (calc_axes_r_from_block cfg block)"
  let ?sp = "xyze_map (double_field cfg) sp"
  from append_move_segment_to_queue_push[OF wf free[OF False],
      of ?t cv 0 pt ?ar ?sp "cruise_segment_flags block ad dd"]
  obtain q' where q': "snd (append_move_segment_to_queue ?t cv 0 pt ?ar ?sp
        (cruise_segment_flags block ad dd) st) = st\<lparr>move_segment_queue := q'\<rparr>"
    and w: "queue_wf q'"
    and c: "queue_contents q' = queue_contents (move_segment_queue st)
                @ [\<lparr>mv_move_t = ?t, mv_start_v = cv, mv_half_accel = 0, mv_print_time = pt,
                    mv_axes_r = ?ar, mv_start_pos = ?sp,
                    mv_flags = cruise_segment_flags block ad dd, mv_reference_cnt = 0\<rparr>]"
    and f: "queue_free_slots q' + 1 = queue_free_slots (move_segment_queue st)"
    by blast
  have "append_cruise_segment cfg block (ad, cd, dd, Finite cv) (Finite pt, sp, st)
          = (Finite (pt + ?t), calc_end_position sp (calc_axes_r_from_block cfg block) cd,
             st\<lparr>move_segment_queue := q'\<rparr>)"
    using False q' cvn[OF False] fin by (simp add: append_cruise_segment_def Let_def)
  then show ?thesis using False w c f
    by (intro exI[of _ q'] exI[of _ "pt + ?t"]
          exI[of _ "calc_end_position sp (calc_axes_r_from_block cfg block) cd"]
          exI[of _ "[\<lparr>mv_move_t = ?t, mv_start_v = cv, mv_half_accel = 0, mv_print_time = pt,
                    mv_axes_r = ?ar, mv_start_pos = ?sp,
                    mv_flags = cruise_segment_flags block ad dd, mv_reference_cnt = 0\<rparr>]"]) simp
qed

lemma append_decel_segment_push:
  assumes wf: "queue_wf (move_segment_queue st)"
    and free: "dd \<noteq> 0 \<Longrightarrow> 0 < queue_free_slots (move_segment_queue st)"
    and acc: "blk_acceleration block \<noteq> 0"
  shows "\<exists>q' pt' sp' A.
           append_decel_segment cfg block (ad, cd, dd, Finite cv) (Finite pt, sp, st)
             = (Finite pt', sp', st\<lparr>move_segment_queue := q'\<rparr>)
           \<and> queue_wf q'
           \<and> queue_contents q' = queue_contents (move_segment_queue st) @ A
           \<and> queue_free_slots q' + length A = queue_free_slots (move_segment_queue st)
           \<and> (if dd \<noteq> 0 then one_segment (decel_segment_flags block ad cd) pt pt' A
               else A = [] \<and> pt' = pt)"
proof (cases "dd = 0")
  case True
  have "append_decel_segment cfg block (ad, cd, dd, Finite cv) (Finite pt, sp, st)
          = (Finite pt, sp, st\<lparr>move_segment_queue := move_segment_queue st\<rparr>)"
    using True by (simp add: append_decel_segment_def)
  then show ?thesis using True wf by (intro exI[of _ "move_segment_queue st"] exI[of _ pt] exI[of _ sp] exI[of _ "[]"]) simp
next
  case False
  let ?t = "(cv - blk_final_speed block) / blk_acceleration block"
  let ?ar = "xyze_map (double_field cfg) (calc_axes_r_from_block cfg block)"
  let ?sp = "xyze_map (double_field cfg) sp"
  from append_move_segment_to_queue_push[OF wf free[OF False],
      of ?t cv "- (0.5 * blk_acceleration block)" pt ?ar ?sp
         "decel_segment_flags block ad cd"]
  obtain q' where q': "snd (append_move_segment_to_queue ?t cv (- (0.5 * blk_acceleration block)) pt
        ?ar ?sp (decel_segment_flags block ad cd) st)
          = st\<lparr>move_segment_queue := q'\<rparr>"
    and w: "queue_wf q'"
    and c: "queue_contents q' = queue_contents (move_segment_queue st)
                @ [\<lparr>mv_move_t = ?t, mv_start_v = cv, mv_half_accel = - (0.5 * blk_acceleration block),
                    mv_print_time = pt,
                    mv_axes_r = ?ar, mv_start_pos = ?sp,
                    mv_flags = decel_segment_flags block ad cd, mv_reference_cnt = 0\<rparr>]"
    and f: "queue_free_slots q' + 1 = queue_free_slots (move_segment_queue st)"
    by blast
  have "append_decel_segment cfg block (ad, cd, dd, Finite cv) (Finite pt, sp, st)
          = (Finite (pt + ?t), sp, st\<lparr>move_segment_queue := q'\<rparr>)"
    using False q' acc by (simp add: append_decel_segment_def Let_def)
  then show ?thesis using False w c f
    by (intro exI[of _ q'] exI[of _ "pt + ?t"] exI[of _ sp]
          exI[of _ "[\<lparr>mv_move_t = ?t, mv_start_v = cv, mv_half_accel = - (0.5 * blk_acceleration block),
                    mv_print_time = pt,
                    mv_axes_r = ?ar, mv_start_pos = ?sp,
                    mv_flags = decel_segment_flags block ad cd, mv_reference_cnt = 0\<rparr>]"]) simp
qed

lemma move_flag_set_bits:
  "move_flag_set MOVE_FLAG_ACCELERATION_PHASE m = bit (mv_flags m) 0"
  "move_flag_set MOVE_FLAG_DECELERATION_PHASE m = bit (mv_flags m) 1"
  "move_flag_set MOVE_FLAG_CRUISE_PHASE m = bit (mv_flags m) 2"
  "move_flag_set MOVE_FLAG_FIRST_MOVE_SEGMENT_OF_BLOCK m = bit (mv_flags m) 12"
  "move_flag_set MOVE_FLAG_LAST_MOVE_SEGMENT_OF_BLOCK m = bit (mv_flags m) 13"
  by (simp_all add: move_flag_set_def move_flag_defs flag_test)

lemma one_segmentD:
  "one_segment fl pt pt' A \<Longrightarrow>
     \<exists>m. A = [m] \<and> mv_print_time m = pt \<and> pt' = pt + mv_move_t m \<and> mv_flags m = fl"
  by (cases "(fl, pt, pt', A)" rule: one_segment.cases) auto

text \<open>With a positive acceleration and a non-negative length the four values are finite;
  with a positive length and a positive \<open>EPSILON_DISTANCE\<close> one of the distances is not
  zero; a cruise phase has the nominal speed.\<close>

lemma block_phase_distances_finite:
  assumes acc: "0 < blk_acceleration block"
    and eps: "0 < EPSILON_DISTANCE cfg" and mm: "0 < blk_millimeters block"
  shows "\<exists>ad cd dd cv.
           block_phase_distances cfg block = (Finite ad, Finite cd, Finite dd, Finite cv)
           \<and> (ad \<noteq> 0 \<or> cd \<noteq> 0 \<or> dd \<noteq> 0)
           \<and> (cd \<noteq> 0 \<longrightarrow> cv = blk_nominal_speed block)"
proof -
  have a0: "blk_acceleration block \<noteq> 0" using acc by simp
  let ?ad = "if (blk_nominal_speed block * blk_nominal_speed block
                   - blk_initial_speed block * blk_initial_speed block) / (2 * blk_acceleration block)
                < EPSILON_DISTANCE cfg then 0
             else (blk_nominal_speed block * blk_nominal_speed block
                   - blk_initial_speed block * blk_initial_speed block) / (2 * blk_acceleration block)"
  let ?dd = "if (blk_nominal_speed block * blk_nominal_speed block
                   - blk_final_speed block * blk_final_speed block) / (2 * blk_acceleration block)
                < EPSILON_DISTANCE cfg then 0
             else (blk_nominal_speed block * blk_nominal_speed block
                   - blk_final_speed block * blk_final_speed block) / (2 * blk_acceleration block)"
  let ?first = "Finite (blk_millimeters block)
             - calc_distance_required_to_reach_cruise_velocity_clamped cfg
                 (Finite (blk_initial_speed block)) (Finite (blk_nominal_speed block))
                 (Finite (blk_acceleration block))
             - calc_distance_required_to_reach_cruise_velocity_clamped cfg
                 (Finite (blk_final_speed block)) (Finite (blk_nominal_speed block))
                 (Finite (blk_acceleration block))"
  have first: "?first = Finite (blk_millimeters block - ?ad - ?dd)"
    unfolding calc_distance_required_to_reach_cruise_velocity_clamped_finite[OF a0] by simp
  show ?thesis
  proof (cases "?first < Finite (EPSILON_DISTANCE cfg)")
    case True
    from block_phase_distances_no_cruise[OF True acc] mm eps
    have d: "block_phase_distances cfg block
           = (Finite (no_cruise_accel_dist cfg block), Finite 0,
              Finite (blk_millimeters block - no_cruise_accel_dist cfg block),
              Finite (sqrt (2 * blk_acceleration block * no_cruise_accel_dist cfg block
                              + blk_initial_speed block * blk_initial_speed block)))"
      by simp
    have "no_cruise_accel_dist cfg block \<noteq> 0
          \<or> blk_millimeters block - no_cruise_accel_dist cfg block \<noteq> 0"
      using mm by auto
    with d show ?thesis by auto
  next
    case False
    then have "block_phase_distances cfg block
           = (Finite ?ad, Finite (blk_millimeters block - ?ad - ?dd), Finite ?dd,
              Finite (blk_nominal_speed block))"
      unfolding block_phase_distances_def Let_def
      by (simp only: if_False calc_distance_required_to_reach_cruise_velocity_clamped_finite[OF a0])
         simp
    moreover from False first eps have "blk_millimeters block - ?ad - ?dd \<noteq> 0" by auto
    ultimately show ?thesis by blast
  qed
qed

lemma block_segments_properties:
  assumes a: "if ad \<noteq> 0 then one_segment (accel_segment_flags block cd dd) pt p1 A else A = [] \<and> p1 = pt"
    and c: "if cd \<noteq> 0 then one_segment (cruise_segment_flags block ad dd) p1 p2 C else C = [] \<and> p2 = p1"
    and d: "if dd \<noteq> 0 then one_segment (decel_segment_flags block ad cd) p2 p3 D else D = [] \<and> p3 = p2"
    and ne: "ad \<noteq> 0 \<or> cd \<noteq> 0 \<or> dd \<noteq> 0"
  shows "1 \<le> length (A @ C @ D) \<and> length (A @ C @ D) \<le> 3
         \<and> sorted_wrt (\<lambda>m m'. phase_rank m < phase_rank m') (A @ C @ D)
         \<and> list_all (\<lambda>m. phase_rank m < 3) (A @ C @ D)
         \<and> print_times_chained pt (A @ C @ D)
         \<and> chain_end pt (A @ C @ D) = p3
         \<and> length (filter (move_flag_set MOVE_FLAG_FIRST_MOVE_SEGMENT_OF_BLOCK) (A @ C @ D)) = 1
         \<and> length (filter (move_flag_set MOVE_FLAG_LAST_MOVE_SEGMENT_OF_BLOCK) (A @ C @ D)) = 1
         \<and> move_flag_set MOVE_FLAG_FIRST_MOVE_SEGMENT_OF_BLOCK (hd (A @ C @ D))
         \<and> move_flag_set MOVE_FLAG_LAST_MOVE_SEGMENT_OF_BLOCK (last (A @ C @ D))"
proof -
  have A: "ad \<noteq> 0 \<Longrightarrow> \<exists>m. A = [m] \<and> mv_print_time m = pt \<and> p1 = pt + mv_move_t m
              \<and> mv_flags m = accel_segment_flags block cd dd"
    using a one_segmentD by (simp split: if_splits)
  have C: "cd \<noteq> 0 \<Longrightarrow> \<exists>m. C = [m] \<and> mv_print_time m = p1 \<and> p2 = p1 + mv_move_t m
              \<and> mv_flags m = cruise_segment_flags block ad dd"
    using c one_segmentD by (simp split: if_splits)
  have D: "dd \<noteq> 0 \<Longrightarrow> \<exists>m. D = [m] \<and> mv_print_time m = p2 \<and> p3 = p2 + mv_move_t m
              \<and> mv_flags m = decel_segment_flags block ad cd"
    using d one_segmentD by (simp split: if_splits)
  have A0: "ad = 0 \<Longrightarrow> A = [] \<and> p1 = pt" using a by simp
  have C0: "cd = 0 \<Longrightarrow> C = [] \<and> p2 = p1" using c by simp
  have D0: "dd = 0 \<Longrightarrow> D = [] \<and> p3 = p2" using d by simp
  note fl = move_flag_set_bits phase_rank_def bit_accel_segment_flags bit_cruise_segment_flags
    bit_decel_segment_flags
  show ?thesis
  proof (cases "ad = 0")
    case a0: True
    show ?thesis
    proof (cases "cd = 0")
      case c0: True
      with a0 ne have d1: "dd \<noteq> 0" by simp
      from D[OF d1] obtain md where "D = [md]" "mv_print_time md = p2" "p3 = p2 + mv_move_t md"
        "mv_flags md = decel_segment_flags block ad cd" by blast
      then show ?thesis using A0[OF a0] C0[OF c0] a0 c0 by (simp add: fl)
    next
      case c1: False
      from C[OF c1] obtain mc where mc: "C = [mc]" "mv_print_time mc = p1" "p2 = p1 + mv_move_t mc"
        "mv_flags mc = cruise_segment_flags block ad dd" by blast
      show ?thesis
      proof (cases "dd = 0")
        case d0: True
        then show ?thesis using mc A0[OF a0] D0[OF d0] a0 c1 by (simp add: fl)
      next
        case d1: False
        from D[OF d1] obtain md where "D = [md]" "mv_print_time md = p2" "p3 = p2 + mv_move_t md"
          "mv_flags md = decel_segment_flags block ad cd" by blast
        then show ?thesis using mc A0[OF a0] a0 c1 d1 by (simp add: fl)
      qed
    qed
  next
    case a1: False
    from A[OF a1] obtain ma where ma: "A = [ma]" "mv_print_time ma = pt" "p1 = pt + mv_move_t ma"
      "mv_flags ma = accel_segment_flags block cd dd" by blast
    show ?thesis
    proof (cases "cd = 0")
      case c0: True
      show ?thesis
      proof (cases "dd = 0")
        case d0: True
        then show ?thesis using ma C0[OF c0] D0[OF d0] a1 c0 by (simp add: fl)
      next
        case d1: False
        from D[OF d1] obtain md where "D = [md]" "mv_print_time md = p2" "p3 = p2 + mv_move_t md"
          "mv_flags md = decel_segment_flags block ad cd" by blast
        then show ?thesis using ma C0[OF c0] a1 c0 d1 by (simp add: fl)
      qed
    next
      case c1: False
      from C[OF c1] obtain mc where mc: "C = [mc]" "mv_print_time mc = p1" "p2 = p1 + mv_move_t mc"
        "mv_flags mc = cruise_segment_flags block ad dd" by blast
      show ?thesis
      proof (cases "dd = 0")
        case d0: True
        then show ?thesis using ma mc D0[OF d0] a1 c1 by (simp add: fl)
      next
        case d1: False
        from D[OF d1] obtain md where "D = [md]" "mv_print_time md = p2" "p3 = p2 + mv_move_t md"
          "mv_flags md = decel_segment_flags block ad cd" by blast
        then show ?thesis using ma mc a1 c1 d1 by (simp add: fl)
      qed
    qed
  qed
qed

lemma queue_contents_length [simp]: "length (queue_contents q) = queue_size q"
  by (simp add: queue_contents_def)

lemma append_phases_push:
  assumes wf: "queue_wf (move_segment_queue st)"
    and free: "move_blocks_required (ad, cd, dd, Finite cv) \<le> queue_free_slots (move_segment_queue st)"
    and acc: "blk_acceleration block \<noteq> 0"
    and fin: "cd = Finite c"
    and cvn: "cd \<noteq> 0 \<Longrightarrow> cv \<noteq> 0"
  shows "\<exists>q' pt' sp' A C D p1 p2.
           append_decel_segment cfg block (ad, cd, dd, Finite cv)
             (append_cruise_segment cfg block (ad, cd, dd, Finite cv)
                (append_accel_segment cfg block (ad, cd, dd, Finite cv) (Finite pt, sp, st)))
             = (Finite pt', sp', st\<lparr>move_segment_queue := q'\<rparr>)
           \<and> queue_wf q'
           \<and> queue_contents q' = queue_contents (move_segment_queue st) @ A @ C @ D
           \<and> (if ad \<noteq> 0 then one_segment (accel_segment_flags block cd dd) pt p1 A
               else A = [] \<and> p1 = pt)
           \<and> (if cd \<noteq> 0 then one_segment (cruise_segment_flags block ad dd) p1 p2 C
               else C = [] \<and> p2 = p1)
           \<and> (if dd \<noteq> 0 then one_segment (decel_segment_flags block ad cd) p2 pt' D
               else D = [] \<and> pt' = p2)"
proof -
  from free have fr: "of_bool (ad \<noteq> 0) + of_bool (dd \<noteq> 0) + of_bool (cd \<noteq> 0)
                        \<le> queue_free_slots (move_segment_queue st)"
    by (simp add: move_blocks_required_def)
  have fa: "ad \<noteq> 0 \<Longrightarrow> 0 < queue_free_slots (move_segment_queue st)" using fr by simp
  from append_accel_segment_push[where st=st and ad=ad and cfg=cfg and block=block and cd=cd
      and dd=dd and cv=cv and pt=pt and sp=sp, OF wf fa acc]
  obtain qa p1 s1 A where
    ra: "append_accel_segment cfg block (ad, cd, dd, Finite cv) (Finite pt, sp, st)
           = (Finite p1, s1, st\<lparr>move_segment_queue := qa\<rparr>)"
    and wa: "queue_wf qa"
    and ca: "queue_contents qa = queue_contents (move_segment_queue st) @ A"
    and la: "queue_free_slots qa + length A = queue_free_slots (move_segment_queue st)"
    and pa: "if ad \<noteq> 0 then one_segment (accel_segment_flags block cd dd) pt p1 A else A = [] \<and> p1 = pt"
    by blast
  have lenA: "length A = of_bool (ad \<noteq> 0)"
    using pa one_segmentD[of "accel_segment_flags block cd dd" pt p1 A] by (auto split: if_splits)
  let ?sa = "st\<lparr>move_segment_queue := qa\<rparr>"
  have wa': "queue_wf (move_segment_queue ?sa)" using wa by simp
  have fc: "cd \<noteq> 0 \<Longrightarrow> 0 < queue_free_slots (move_segment_queue ?sa)"
    using fr la lenA by simp
  from append_cruise_segment_push[where st="?sa" and ad=ad and cfg=cfg and block=block and cd=cd
      and dd=dd and cv=cv and pt=p1 and sp=s1, OF wa' fc fin cvn]
  obtain qc p2 s2 C where
    rc: "append_cruise_segment cfg block (ad, cd, dd, Finite cv) (Finite p1, s1, ?sa)
           = (Finite p2, s2, st\<lparr>move_segment_queue := qc\<rparr>)"
    and wc: "queue_wf qc"
    and cc: "queue_contents qc = queue_contents qa @ C"
    and lc: "queue_free_slots qc + length C = queue_free_slots qa"
    and pc: "if cd \<noteq> 0 then one_segment (cruise_segment_flags block ad dd) p1 p2 C else C = [] \<and> p2 = p1"
    by auto
  have lenC: "length C = of_bool (cd \<noteq> 0)"
    using pc one_segmentD[of "cruise_segment_flags block ad dd" p1 p2 C] by (auto split: if_splits)
  let ?sc = "st\<lparr>move_segment_queue := qc\<rparr>"
  have wc': "queue_wf (move_segment_queue ?sc)" using wc by simp
  have fd: "dd \<noteq> 0 \<Longrightarrow> 0 < queue_free_slots (move_segment_queue ?sc)"
    using fr la lenA lc lenC by simp
  from append_decel_segment_push[where st="?sc" and ad=ad and cfg=cfg and block=block and cd=cd
      and dd=dd and cv=cv and pt=p2 and sp=s2, OF wc' fd acc]
  obtain qd p3 s3 D where
    rd: "append_decel_segment cfg block (ad, cd, dd, Finite cv) (Finite p2, s2, ?sc)
           = (Finite p3, s3, st\<lparr>move_segment_queue := qd\<rparr>)"
    and wd: "queue_wf qd"
    and cd': "queue_contents qd = queue_contents qc @ D"
    and pd: "if dd \<noteq> 0 then one_segment (decel_segment_flags block ad cd) p2 p3 D else D = [] \<and> p3 = p2"
    by auto
  show ?thesis
    using ra rc rd wd ca cc cd' pa pc pd
    by (intro exI[of _ qd] exI[of _ p3] exI[of _ s3] exI[of _ A] exI[of _ C] exI[of _ D]
          exI[of _ p1] exI[of _ p2]) simp
qed

text \<open>C3 (as amended). For a block of positive length with a positive acceleration and a
  nominal speed that is not zero, with a positive \<open>EPSILON_DISTANCE\<close> and a well-formed
  ring: when \<open>append_move_segments_to_queue\<close> returns true, the queue is the old queue
  followed by one to three new segments, in the order acceleration, cruise, deceleration;
  the first starts at the old \<open>total_print_time\<close>, each next one at the print time of its
  predecessor plus its duration, and the new \<open>total_print_time\<close> is the end of the last;
  exactly one of them (the first) carries the flag of the first segment of a block and
  exactly one (the last) the flag of the last. (With an acceleration of zero the distances
  and durations of the code are not numbers, see \<open>steady_zero_acceleration_block_segments\<close>; with
  a nominal speed of zero the duration of a cruise phase is infinite.)\<close>

theorem block_segments_pushed:
  assumes wf: "queue_wf (move_segment_queue st)"
    and eps: "0 < EPSILON_DISTANCE cfg" and mm: "0 < blk_millimeters block"
    and acc: "0 < blk_acceleration block" and nom: "blk_nominal_speed block \<noteq> 0"
    and ok: "append_move_segments_to_queue cfg block st = (True, st')"
  shows "queue_contents (move_segment_queue st')
           = queue_contents (move_segment_queue st) @ pushed_segments st st'
         \<and> 1 \<le> length (pushed_segments st st') \<and> length (pushed_segments st st') \<le> 3
         \<and> sorted_wrt (\<lambda>m m'. phase_rank m < phase_rank m') (pushed_segments st st')
         \<and> list_all (\<lambda>m. phase_rank m < 3) (pushed_segments st st')
         \<and> print_times_chained (total_print_time st) (pushed_segments st st')
         \<and> chain_end (total_print_time st) (pushed_segments st st') = total_print_time st'
         \<and> length (filter (move_flag_set MOVE_FLAG_FIRST_MOVE_SEGMENT_OF_BLOCK) (pushed_segments st st')) = 1
         \<and> length (filter (move_flag_set MOVE_FLAG_LAST_MOVE_SEGMENT_OF_BLOCK) (pushed_segments st st')) = 1
         \<and> move_flag_set MOVE_FLAG_FIRST_MOVE_SEGMENT_OF_BLOCK (hd (pushed_segments st st'))
         \<and> move_flag_set MOVE_FLAG_LAST_MOVE_SEGMENT_OF_BLOCK (last (pushed_segments st st'))"
proof -
  from block_phase_distances_finite[OF acc eps mm]
  obtain ad cd dd cv where d: "block_phase_distances cfg block = (Finite ad, Finite cd, Finite dd, Finite cv)"
    and ne: "ad \<noteq> 0 \<or> cd \<noteq> 0 \<or> dd \<noteq> 0"
    and cvn: "cd \<noteq> 0 \<longrightarrow> cv = blk_nominal_speed block"
    by blast
  have ne': "Finite ad \<noteq> 0 \<or> Finite cd \<noteq> 0 \<or> Finite dd \<noteq> 0" using ne by simp
  have a0: "blk_acceleration block \<noteq> 0" using acc by simp
  have cv0: "Finite cd \<noteq> 0 \<Longrightarrow> cv \<noteq> 0" using cvn nom by simp
  from ok have free: "move_blocks_required (Finite ad, Finite cd, Finite dd, Finite cv)
                        \<le> queue_free_slots (move_segment_queue st)"
    by (simp add: append_move_segments_to_queue_def Let_def d split: if_splits)
  from append_phases_push[where st=st and ad="Finite ad" and cfg=cfg and block=block
      and cd="Finite cd" and c=cd and dd="Finite dd" and cv=cv and pt="total_print_time st"
      and sp="xyze_map Finite (total_start_pos st)", OF wf free a0 refl cv0]
  obtain q' pt' sp' A C D p1 p2 where
    r: "append_decel_segment cfg block (Finite ad, Finite cd, Finite dd, Finite cv)
             (append_cruise_segment cfg block (Finite ad, Finite cd, Finite dd, Finite cv)
                (append_accel_segment cfg block (Finite ad, Finite cd, Finite dd, Finite cv)
                   (Finite (total_print_time st), xyze_map Finite (total_start_pos st), st)))
             = (Finite pt', sp', st\<lparr>move_segment_queue := q'\<rparr>)"
    and c: "queue_contents q' = queue_contents (move_segment_queue st) @ A @ C @ D"
    and pa: "if Finite ad \<noteq> 0
             then one_segment (accel_segment_flags block (Finite cd) (Finite dd)) (total_print_time st) p1 A
             else A = [] \<and> p1 = total_print_time st"
    and pc: "if Finite cd \<noteq> 0
             then one_segment (cruise_segment_flags block (Finite ad) (Finite dd)) p1 p2 C
             else C = [] \<and> p2 = p1"
    and pd: "if Finite dd \<noteq> 0
             then one_segment (decel_segment_flags block (Finite ad) (Finite cd)) p2 pt' D
             else D = [] \<and> pt' = p2"
    by blast
  from ok free have "st' = (case append_decel_segment cfg block (Finite ad, Finite cd, Finite dd, Finite cv)
             (append_cruise_segment cfg block (Finite ad, Finite cd, Finite dd, Finite cv)
                (append_accel_segment cfg block (Finite ad, Finite cd, Finite dd, Finite cv)
                   (Finite (total_print_time st), xyze_map Finite (total_start_pos st), st)))
         of (print_time, start_pos, st1) \<Rightarrow>
           reset_reached_end_of_move_queue_flag
             (st1\<lparr>total_start_pos_steps := xyze_map2 (+) (total_start_pos_steps st1) (get_oriented_steps_from_block block),
                  total_start_pos := convert_oriented_steps_to_distance cfg
                    (xyze_map2 (+) (total_start_pos_steps st1) (get_oriented_steps_from_block block)),
                  total_print_time := double_field cfg print_time\<rparr>))"
    by (simp add: append_move_segments_to_queue_def Let_def d split: if_splits prod.splits)
  then have "st' = reset_reached_end_of_move_queue_flag
      (st\<lparr>move_segment_queue := q',
          total_start_pos_steps := xyze_map2 (+) (total_start_pos_steps st) (get_oriented_steps_from_block block),
          total_start_pos := convert_oriented_steps_to_distance cfg
              (xyze_map2 (+) (total_start_pos_steps st) (get_oriented_steps_from_block block)),
          total_print_time := pt'\<rparr>)"
    unfolding r by simp
  then have q: "move_segment_queue st' = q'" and t: "total_print_time st' = pt'"
    by (simp_all add: reset_reached_end_of_move_queue_flag_def)
  have pushed: "pushed_segments st st' = A @ C @ D"
    by (simp add: pushed_segments_def q c)
  from block_segments_properties[OF pa pc pd ne']
  show ?thesis unfolding pushed q t using c by simp
qed

lemma cruise_block_distances:
  "block_phase_distances example_config cruise_block
     = (Finite (5 / 4), Finite (15 / 2), Finite (5 / 4), Finite 50)"
  by (simp add: block_phase_distances_def Let_def example_config_def cruise_block_def
      calc_distance_required_to_reach_cruise_velocity_clamped_def
      calc_distance_required_to_reach_cruise_velocity_def SQR_def zero_double_def)

lemma halted_engine_queue:
  "queue_wf (move_segment_queue halted_engine)"
  "queue_free_slots (move_segment_queue halted_engine) = 7"
  "queue_contents (move_segment_queue halted_engine) = []"
  by (simp_all add: halted_engine_def queue_wf_def queue_free_slots_def queue_size_def
      queue_contents_def)

lemma example_min_free: "MOVE_SEGMENT_QUEUE_MIN_FREE_SLOTS example_config = 2"
  by (simp add: example_config_def)

lemma cruise_block_accepted:
  "fst (append_move_segments_to_queue example_config cruise_block halted_engine)"
  by (simp add: append_move_segments_to_queue_def Let_def cruise_block_distances
      halted_engine_queue move_blocks_required_def example_min_free split: prod.splits)

text \<open>The block with three phases is accepted by the halted engine.\<close>

theorem block_segments_pushed_witness:
  "fst (append_move_segments_to_queue example_config cruise_block halted_engine)
   \<and> 1 \<le> length (pushed_segments halted_engine
                   (snd (append_move_segments_to_queue example_config cruise_block halted_engine)))
   \<and> length (filter (move_flag_set MOVE_FLAG_FIRST_MOVE_SEGMENT_OF_BLOCK)
        (pushed_segments halted_engine
           (snd (append_move_segments_to_queue example_config cruise_block halted_engine)))) = 1
   \<and> length (filter (move_flag_set MOVE_FLAG_LAST_MOVE_SEGMENT_OF_BLOCK)
        (pushed_segments halted_engine
           (snd (append_move_segments_to_queue example_config cruise_block halted_engine)))) = 1"
proof -
  have eps: "0 < EPSILON_DISTANCE example_config" by (simp add: example_config_def)
  have mm: "0 < blk_millimeters cruise_block" by (simp add: cruise_block_def)
  have acc: "0 < blk_acceleration cruise_block" by (simp add: cruise_block_def)
  have nom: "blk_nominal_speed cruise_block \<noteq> 0" by (simp add: cruise_block_def)
  have ok: "append_move_segments_to_queue example_config cruise_block halted_engine
              = (True, snd (append_move_segments_to_queue example_config cruise_block halted_engine))"
    using cruise_block_accepted by (simp add: prod_eq_iff)
  show ?thesis
    using block_segments_pushed[OF halted_engine_queue(1) eps mm acc nom ok] cruise_block_accepted
    by blast
qed

lemma zero_length_block_distances:
  "block_phase_distances example_config zero_length_block
     = (Finite 0, Finite 0, Finite 0, Finite 10)"
  by (simp add: block_phase_distances_def Let_def example_config_def zero_length_block_def
      calc_distance_required_to_reach_cruise_velocity_clamped_def
      calc_distance_required_to_reach_cruise_velocity_def
      calc_distance_in_which_we_start_decelerating_clamped_def
      calc_distance_in_which_we_start_decelerating_def
      calc_velocity_after_acceleration_def SQR_def sqrt_100 zero_double_def std_max_def)

text \<open>C3 as stated fails for a block of length zero whose three speeds are equal: all three
  distances are zero, the call returns true and no segment is pushed.\<close>

theorem zero_length_block_counterexample:
  "fst (append_move_segments_to_queue example_config zero_length_block halted_engine)
   \<and> queue_contents (move_segment_queue
        (snd (append_move_segments_to_queue example_config zero_length_block halted_engine))) = []"
  by (simp add: append_move_segments_to_queue_def Let_def zero_length_block_distances
      halted_engine_queue move_blocks_required_def example_min_free
      append_accel_segment_def append_cruise_segment_def append_decel_segment_def
      reset_reached_end_of_move_queue_flag_def)

text \<open>Whatever the distances are, a successful call pushes as many segments as it
  counted before: one for each distance that differs from zero, which NaN does. The block
  with acceleration 0 and three equal speeds has three NaN distances and contributes three
  segments.\<close>

lemma steady_zero_acceleration_block_distances:
  "block_phase_distances example_config steady_zero_acceleration_block = (NaN, NaN, NaN, Finite 10)"
  by (simp add: block_phase_distances_def Let_def example_config_def steady_zero_acceleration_block_def
      calc_distance_required_to_reach_cruise_velocity_clamped_def
      calc_distance_required_to_reach_cruise_velocity_def
      SQR_def std_max_def minus_double_def zero_double_def)

lemma append_move_segment_to_queue_count:
  assumes wf: "queue_wf (move_segment_queue st)"
    and free: "0 < queue_free_slots (move_segment_queue st)"
  shows "queue_wf (move_segment_queue (snd (append_move_segment_to_queue t v ha pt ar sp fl st)))
         \<and> queue_free_slots (move_segment_queue (snd (append_move_segment_to_queue t v ha pt ar sp fl st))) + 1
             = queue_free_slots (move_segment_queue st)
         \<and> queue_size (move_segment_queue (snd (append_move_segment_to_queue t v ha pt ar sp fl st)))
             = queue_size (move_segment_queue st) + 1"
proof -
  from append_move_segment_to_queue_push[OF wf free, of t v ha pt ar sp fl]
  obtain q' where q: "snd (append_move_segment_to_queue t v ha pt ar sp fl st) = st\<lparr>move_segment_queue := q'\<rparr>"
    and w: "queue_wf q'"
    and c: "queue_contents q' = queue_contents (move_segment_queue st)
                @ [\<lparr>mv_move_t = t, mv_start_v = v, mv_half_accel = ha, mv_print_time = pt,
                    mv_axes_r = ar, mv_start_pos = sp, mv_flags = fl, mv_reference_cnt = 0\<rparr>]"
    and f: "queue_free_slots q' + 1 = queue_free_slots (move_segment_queue st)"
    by blast
  from c have "length (queue_contents q') = length (queue_contents (move_segment_queue st)) + 1"
    by simp
  then have "queue_size q' = queue_size (move_segment_queue st) + 1" by simp
  with q w f show ?thesis by simp
qed

lemma append_accel_segment_count:
  assumes wf: "queue_wf (move_segment_queue st)"
    and free: "ad \<noteq> 0 \<Longrightarrow> 0 < queue_free_slots (move_segment_queue st)"
    and r: "append_accel_segment cfg block (ad, cd, dd, cv) (pt, sp, st) = (pt', sp', st')"
  shows "queue_wf (move_segment_queue st')
         \<and> queue_free_slots (move_segment_queue st') + of_bool (ad \<noteq> 0)
             = queue_free_slots (move_segment_queue st)
         \<and> queue_size (move_segment_queue st')
             = queue_size (move_segment_queue st) + of_bool (ad \<noteq> 0)"
proof (cases "ad = 0")
  case True
  then show ?thesis using r wf by (simp add: append_accel_segment_def)
next
  case False
  then show ?thesis
    using r append_move_segment_to_queue_count[OF wf free[OF False]]
    by (auto simp: append_accel_segment_def Let_def)
qed

lemma append_cruise_segment_count:
  assumes wf: "queue_wf (move_segment_queue st)"
    and free: "cd \<noteq> 0 \<Longrightarrow> 0 < queue_free_slots (move_segment_queue st)"
    and r: "append_cruise_segment cfg block (ad, cd, dd, cv) (pt, sp, st) = (pt', sp', st')"
  shows "queue_wf (move_segment_queue st')
         \<and> queue_free_slots (move_segment_queue st') + of_bool (cd \<noteq> 0)
             = queue_free_slots (move_segment_queue st)
         \<and> queue_size (move_segment_queue st')
             = queue_size (move_segment_queue st) + of_bool (cd \<noteq> 0)"
proof (cases "cd = 0")
  case True
  then show ?thesis using r wf by (simp add: append_cruise_segment_def)
next
  case False
  then show ?thesis
    using r append_move_segment_to_queue_count[OF wf free[OF False]]
    by (auto simp: append_cruise_segment_def Let_def)
qed

lemma append_decel_segment_count:
  assumes wf: "queue_wf (move_segment_queue st)"
    and free: "dd \<noteq> 0 \<Longrightarrow> 0 < queue_free_slots (move_segment_queue st)"
    and r: "append_decel_segment cfg block (ad, cd, dd, cv) (pt, sp, st) = (pt', sp', st')"
  shows "queue_wf (move_segment_queue st')
         \<and> queue_free_slots (move_segment_queue st') + of_bool (dd \<noteq> 0)
             = queue_free_slots (move_segment_queue st)
         \<and> queue_size (move_segment_queue st')
             = queue_size (move_segment_queue st) + of_bool (dd \<noteq> 0)"
proof (cases "dd = 0")
  case True
  then show ?thesis using r wf by (simp add: append_decel_segment_def)
next
  case False
  then show ?thesis
    using r append_move_segment_to_queue_count[OF wf free[OF False]]
    by (auto simp: append_decel_segment_def Let_def)
qed

lemma append_move_segments_to_queue_count:
  assumes wf: "queue_wf (move_segment_queue st)"
    and ok: "append_move_segments_to_queue cfg block st = (True, st')"
  shows "queue_size (move_segment_queue st')
           = queue_size (move_segment_queue st) + move_blocks_required (block_phase_distances cfg block)"
proof -
  obtain ad cd dd cv where d: "block_phase_distances cfg block = (ad, cd, dd, cv)"
    by (cases "block_phase_distances cfg block") auto
  let ?v = "(Finite (total_print_time st), xyze_map Finite (total_start_pos st), st)"
  obtain pa spa sta where a: "append_accel_segment cfg block (ad, cd, dd, cv) ?v = (pa, spa, sta)"
    by (cases "append_accel_segment cfg block (ad, cd, dd, cv) ?v") auto
  obtain pc spc stc where c: "append_cruise_segment cfg block (ad, cd, dd, cv) (pa, spa, sta) = (pc, spc, stc)"
    by (cases "append_cruise_segment cfg block (ad, cd, dd, cv) (pa, spa, sta)") auto
  obtain pd spd std where e: "append_decel_segment cfg block (ad, cd, dd, cv) (pc, spc, stc) = (pd, spd, std)"
    by (cases "append_decel_segment cfg block (ad, cd, dd, cv) (pc, spc, stc)") auto
  from ok have "move_blocks_required (ad, cd, dd, cv) \<le> queue_free_slots (move_segment_queue st)"
    by (simp add: append_move_segments_to_queue_def Let_def d split: if_splits)
  then have fr: "of_bool (ad \<noteq> 0) + of_bool (dd \<noteq> 0) + of_bool (cd \<noteq> 0)
                        \<le> queue_free_slots (move_segment_queue st)"
    by (simp add: move_blocks_required_def)
  have fa: "ad \<noteq> 0 \<Longrightarrow> 0 < queue_free_slots (move_segment_queue st)" using fr by simp
  note A = append_accel_segment_count[OF wf fa a]
  have fc: "cd \<noteq> 0 \<Longrightarrow> 0 < queue_free_slots (move_segment_queue sta)" using fr A by simp
  note C = append_cruise_segment_count[OF conjunct1[OF A] fc c]
  have fd: "dd \<noteq> 0 \<Longrightarrow> 0 < queue_free_slots (move_segment_queue stc)" using fr A C by simp
  note D = append_decel_segment_count[OF conjunct1[OF C] fd e]
  from ok have "move_segment_queue st' = move_segment_queue std"
    by (auto simp: append_move_segments_to_queue_def Let_def d a c e
        reset_reached_end_of_move_queue_flag_def split: if_splits)
  then show ?thesis using A C D by (simp add: d move_blocks_required_def)
qed

lemma steady_zero_acceleration_block_accepted:
  "fst (append_move_segments_to_queue example_config steady_zero_acceleration_block halted_engine)"
  by (simp add: append_move_segments_to_queue_def Let_def steady_zero_acceleration_block_distances
      halted_engine_queue move_blocks_required_def example_min_free split: prod.splits)

lemma steady_zero_acceleration_block_segments:
  "queue_size (move_segment_queue
      (snd (append_move_segments_to_queue example_config steady_zero_acceleration_block halted_engine))) = 3"
proof -
  have ok: "append_move_segments_to_queue example_config steady_zero_acceleration_block halted_engine
              = (True, snd (append_move_segments_to_queue example_config steady_zero_acceleration_block halted_engine))"
    using steady_zero_acceleration_block_accepted by (simp add: prod_eq_iff)
  have s: "queue_size (move_segment_queue halted_engine) = 0"
    by (simp add: halted_engine_def queue_size_def)
  show ?thesis
    using append_move_segments_to_queue_count[OF halted_engine_queue(1) ok]
    by (simp add: steady_zero_acceleration_block_distances move_blocks_required_def s)
qed

theorem position_recomputed_from_steps_witness:
  "fst (append_move_segments_to_queue example_config cruise_block halted_engine)
   \<and> xyze_get (total_start_pos_steps
        (snd (append_move_segments_to_queue example_config cruise_block halted_engine))) X_AXIS = 1000
   \<and> xyze_get (total_start_pos
        (snd (append_move_segments_to_queue example_config cruise_block halted_engine))) X_AXIS = 10"
proof -
  have ok: "append_move_segments_to_queue example_config cruise_block halted_engine
              = (True, snd (append_move_segments_to_queue example_config cruise_block halted_engine))"
    using cruise_block_accepted by (simp add: prod_eq_iff)
  have s: "x_of (total_start_pos_steps halted_engine) = 0"
    "x_of (blk_steps cruise_block) = 1000" "blk_direction_bits cruise_block = 0"
    "x_of (mm_per_step example_config) = 1 / 100"
    by (simp_all add: halted_engine_def cruise_block_def example_config_def)
  note t = position_recomputed_from_steps[OF ok, of X_AXIS]
  have a: "x_of (total_start_pos_steps
        (snd (append_move_segments_to_queue example_config cruise_block halted_engine))) = 1000"
    using t by (simp add: s)
  have b: "x_of (total_start_pos
        (snd (append_move_segments_to_queue example_config cruise_block halted_engine))) = 10"
    using t by (simp add: s a)
  show ?thesis using a b cruise_block_accepted by simp
qed

section \<open>Properties of block intake\<close>

text \<open>An engine in motion whose move segment queue has one free slot left, with the
  three-phase block waiting in the planner.\<close>

definition busy_engine :: engine where
  "busy_engine =
     halted_engine
       \<lparr>move_segment_queue := (move_segment_queue halted_engine)\<lparr>q_head := 6\<rparr>,
        total_print_time := 1,
        planner := (planner halted_engine)\<lparr>pl_unprocessed := [cruise_block]\<rparr>\<rparr>"

lemma is_waiting_before_delivering_frame:
  assumes "is_waiting_before_delivering cfg now st = (w, st1)"
  shows "move_segment_queue st1 = move_segment_queue st"
    and "step_event_queue st1 = step_event_queue st"
    and "total_print_time st1 = total_print_time st"
    and "total_start_pos st1 = total_start_pos st"
    and "total_start_pos_steps st1 = total_start_pos_steps st"
    and "pl_unprocessed (planner st1) = pl_unprocessed (planner st)"
    and "pl_processed (planner st1) = pl_processed (planner st)"
  using assms
  by (auto simp: is_waiting_before_delivering_def Let_def split: if_splits)

lemma reset_from_halt_frame:
  "move_segment_queue (reset_from_halt cfg st) = move_segment_queue st"
  "step_event_queue (reset_from_halt cfg st) = step_event_queue st"
  "planner (reset_from_halt cfg st) = planner st"
  "total_print_time (reset_from_halt cfg st) = 0"
  by (simp_all add: reset_from_halt_def)

lemma fetch_next_block_move:
  assumes "pl_unprocessed (planner st) = b # bs" "is_move b"
  shows "fetch_next_block st = Inr (Some (Some b), st)"
  using assms
  by (subst fetch_next_block.simps) (simp add: get_current_unprocessed_block_def)

lemma reset_reached_end_frame [simp]:
  "move_segment_queue (reset_reached_end_of_move_queue_flag st) = move_segment_queue st"
  "planner (reset_reached_end_of_move_queue_flag st) = planner st"
  "total_print_time (reset_reached_end_of_move_queue_flag st) = total_print_time st"
  by (simp_all add: reset_reached_end_of_move_queue_flag_def)

lemma append_empty_move_cases:
  assumes "append_empty_move m st = (r, st1)"
  shows "planner st1 = planner st"
    and "total_print_time st1 = total_print_time st"
    and "\<not> r \<Longrightarrow> st1 = st"
    and "queue_wf (move_segment_queue st) \<Longrightarrow> r \<Longrightarrow>
           queue_wf (move_segment_queue st1)
           \<and> queue_free_slots (move_segment_queue st1) + 1 = queue_free_slots (move_segment_queue st)"
proof -
  show "planner st1 = planner st" "total_print_time st1 = total_print_time st" "\<not> r \<Longrightarrow> st1 = st"
    using assms by (auto simp: append_empty_move_def split: option.splits)
  assume wf: "queue_wf (move_segment_queue st)" and r: r
  from assms r have nf: "\<not> queue_is_full (move_segment_queue st)"
    by (auto simp: append_empty_move_def queue_next_free_def split: if_splits)
  from assms r nf have "move_segment_queue st1 = (move_segment_queue st)
      \<lparr>q_data := (q_data (move_segment_queue st))[q_head (move_segment_queue st) := m],
       q_head := queue_next_index (move_segment_queue st) (q_head (move_segment_queue st))\<rparr>"
    by (auto simp: append_empty_move_def queue_next_free_def)
  then show "queue_wf (move_segment_queue st1)
           \<and> queue_free_slots (move_segment_queue st1) + 1 = queue_free_slots (move_segment_queue st)"
    using queue_push(2,4)[OF wf nf, of m] by simp
qed

lemma append_beginning_empty_move_cases:
  assumes "append_beginning_empty_move st = (r, st1)"
  shows "planner st1 = planner st"
    and "\<not> r \<Longrightarrow> st1 = st"
    and "queue_wf (move_segment_queue st) \<Longrightarrow> r \<Longrightarrow>
           queue_wf (move_segment_queue st1)
           \<and> queue_free_slots (move_segment_queue st1) + 1 = queue_free_slots (move_segment_queue st)"
proof -
  let ?m = "\<lparr>mv_move_t = max_lookback_time st + 0.001, mv_start_v = 0, mv_half_accel = 0,
                  mv_print_time = 0, mv_axes_r = XYZE 0 0 0 0, mv_start_pos = total_start_pos st,
                  mv_flags = MOVE_FLAG_BEGINNING_EMPTY_MOVE, mv_reference_cnt = 0\<rparr>"
  obtain r0 s0 where e: "append_empty_move ?m st = (r0, s0)"
    by (cases "append_empty_move ?m st") auto
  from assms e have rr: "r = r0"
    by (cases r0) (simp_all add: append_beginning_empty_move_def Let_def)
  from assms e have s1: "r0 \<Longrightarrow> st1 = reset_reached_end_of_move_queue_flag
         (s0\<lparr>total_print_time := mv_print_time ?m + mv_move_t ?m\<rparr>)"
    and s2: "\<not> r0 \<Longrightarrow> st1 = s0"
    by (simp_all add: append_beginning_empty_move_def Let_def)
  note c = append_empty_move_cases[OF e]
  show "planner st1 = planner st" using c(1) s1 s2 by (cases r0) simp_all
  show "\<not> r \<Longrightarrow> st1 = st" using c(3) s2 rr by simp
  show "queue_wf (move_segment_queue st) \<Longrightarrow> r \<Longrightarrow>
           queue_wf (move_segment_queue st1)
           \<and> queue_free_slots (move_segment_queue st1) + 1 = queue_free_slots (move_segment_queue st)"
    using c(4) s1 rr by simp
qed

text \<open>With a move block at the head of the unprocessed blocks, a call of
  \<open>process_queue_of_blocks\<close> either returns before the block is offered, leaving the
  planner's lists as they were, or offers the block to \<open>append_move_segments_to_queue\<close> in a
  state with the same lists and discards it exactly when the offer is accepted.\<close>

lemma process_queue_of_blocks_cases:
  assumes hd: "pl_unprocessed (planner st) = b # bs" and mv: "is_move b"
    and res: "process_queue_of_blocks cfg now st = Inr st'"
  shows "(pl_unprocessed (planner st') = pl_unprocessed (planner st)
            \<and> pl_processed (planner st') = pl_processed (planner st))
         \<or> (\<exists>st4. pl_unprocessed (planner st4) = pl_unprocessed (planner st)
                  \<and> pl_processed (planner st4) = pl_processed (planner st)
                  \<and> (queue_wf (move_segment_queue st) \<longrightarrow>
                        queue_wf (move_segment_queue st4)
                        \<and> queue_free_slots (move_segment_queue st4) \<le> queue_free_slots (move_segment_queue st))
                  \<and> st' = (if fst (append_move_segments_to_queue cfg b st4)
                            then discard_current_unprocessed_block (snd (append_move_segments_to_queue cfg b st4))
                            else snd (append_move_segments_to_queue cfg b st4)))"
proof -
  obtain w st1 where iw: "is_waiting_before_delivering cfg now st = (w, st1)"
    by (cases "is_waiting_before_delivering cfg now st") auto
  note f1 = is_waiting_before_delivering_frame[OF iw]
  show ?thesis
  proof (cases "w \<or> (total_print_time st1 \<ge> MAX_PRINT_TIME cfg \<and> has_blocks_queued st1)")
    case True
    with res iw have "st' = st1"
      by (cases w) (auto simp: process_queue_of_blocks_def)
    with f1 show ?thesis by simp
  next
    case False
    let ?st2 = "if total_print_time st1 \<ge> MAX_PRINT_TIME cfg then reset_from_halt cfg st1 else st1"
    have p2: "pl_unprocessed (planner ?st2) = b # bs" "planner ?st2 = planner st1"
      "move_segment_queue ?st2 = move_segment_queue st"
      using f1 hd by (simp_all add: reset_from_halt_frame)
    note fb = fetch_next_block_move[OF p2(1) mv]
    obtain r st4 where bm: "(if total_print_time ?st2 = 0 then append_beginning_empty_move ?st2
                           else (True, ?st2)) = (r, st4)"
      by (cases "if total_print_time ?st2 = 0 then append_beginning_empty_move ?st2
                           else (True, ?st2)") auto
    have pl4: "planner st4 = planner st1"
      and nr: "\<not> r \<Longrightarrow> st4 = ?st2"
      and fr: "queue_wf (move_segment_queue st) \<Longrightarrow> r \<Longrightarrow>
            queue_wf (move_segment_queue st4)
            \<and> queue_free_slots (move_segment_queue st4) \<le> queue_free_slots (move_segment_queue st)"
    proof -
      show "planner st4 = planner st1"
        using bm append_beginning_empty_move_cases(1)[of ?st2 r st4] p2(2)
        by (auto split: if_splits)
      show "\<not> r \<Longrightarrow> st4 = ?st2"
        using bm append_beginning_empty_move_cases(2)[of ?st2 r st4]
        by (auto split: if_splits)
      show "queue_wf (move_segment_queue st) \<Longrightarrow> r \<Longrightarrow>
            queue_wf (move_segment_queue st4)
            \<and> queue_free_slots (move_segment_queue st4) \<le> queue_free_slots (move_segment_queue st)"
        using bm append_beginning_empty_move_cases(3)[of ?st2 r st4] p2(3)
        by (cases "total_print_time ?st2 = 0") auto
    qed
    from res iw False fb bm have st': "st' = (if r then
          (if fst (append_move_segments_to_queue cfg b st4)
           then discard_current_unprocessed_block (snd (append_move_segments_to_queue cfg b st4))
           else snd (append_move_segments_to_queue cfg b st4))
        else st4)"
      by (auto simp: process_queue_of_blocks_def Let_def split: prod.splits if_splits)
    show ?thesis
    proof (cases r)
      case True
      have "pl_unprocessed (planner st4) = pl_unprocessed (planner st)
                  \<and> pl_processed (planner st4) = pl_processed (planner st)"
        using pl4 f1 by simp
      with st' True fr show ?thesis by (intro disjI2 exI[of _ st4]) simp
    next
      case False
      with st' nr pl4 f1 show ?thesis by simp
    qed
  qed
qed

lemma append_rejected:
  assumes "queue_free_slots (move_segment_queue st)
             < move_blocks_required (block_phase_distances cfg block)
               + MOVE_SEGMENT_QUEUE_MIN_FREE_SLOTS cfg"
  shows "append_move_segments_to_queue cfg block st = (False, st)"
  using assms by (simp add: append_move_segments_to_queue_def Let_def)

lemma append_false_unchanged:
  assumes "\<not> fst (append_move_segments_to_queue cfg block st)"
  shows "snd (append_move_segments_to_queue cfg block st) = st"
  using assms
  by (auto simp: append_move_segments_to_queue_def Let_def split: if_splits prod.splits)

text \<open>C4. When the free slots of the move segment queue are fewer than the present phases
  plus \<open>MOVE_SEGMENT_QUEUE_MIN_FREE_SLOTS\<close>, \<open>append_move_segments_to_queue\<close> returns false
  and leaves the engine (the queue, \<open>total_print_time\<close>, \<open>total_start_pos\<close>,
  \<open>total_start_pos_steps\<close>) unchanged. \<open>process_queue_of_blocks\<close>, with a move block at the
  head of the planner's unprocessed blocks, either leaves the block where it is or
  discards it after an append that returned true; with too few free slots it leaves
  it, so the next call offers the same block again.\<close>

theorem rejected_block_is_retried:
  "(queue_free_slots (move_segment_queue st)
      < move_blocks_required (block_phase_distances cfg block)
        + MOVE_SEGMENT_QUEUE_MIN_FREE_SLOTS cfg
    \<longrightarrow> append_move_segments_to_queue cfg block st = (False, st))
   \<and> (pl_unprocessed (planner st) = block # bs \<and> is_move block
        \<and> process_queue_of_blocks cfg now st = Inr st'
      \<longrightarrow> (pl_unprocessed (planner st') = block # bs
             \<and> pl_processed (planner st') = pl_processed (planner st))
          \<or> (\<exists>st4. pl_unprocessed (planner st4) = block # bs
                   \<and> pl_processed (planner st4) = pl_processed (planner st)
                   \<and> fst (append_move_segments_to_queue cfg block st4)
                   \<and> st' = discard_current_unprocessed_block
                             (snd (append_move_segments_to_queue cfg block st4))))
   \<and> (queue_free_slots (move_segment_queue st)
         < move_blocks_required (block_phase_distances cfg block)
           + MOVE_SEGMENT_QUEUE_MIN_FREE_SLOTS cfg
       \<and> queue_wf (move_segment_queue st)
       \<and> pl_unprocessed (planner st) = block # bs \<and> is_move block
       \<and> process_queue_of_blocks cfg now st = Inr st'
      \<longrightarrow> pl_unprocessed (planner st') = block # bs
          \<and> pl_processed (planner st') = pl_processed (planner st))"
proof (intro conjI impI)
  assume "queue_free_slots (move_segment_queue st)
      < move_blocks_required (block_phase_distances cfg block)
        + MOVE_SEGMENT_QUEUE_MIN_FREE_SLOTS cfg"
  then show "append_move_segments_to_queue cfg block st = (False, st)"
    by (rule append_rejected)
next
  assume a: "pl_unprocessed (planner st) = block # bs \<and> is_move block
        \<and> process_queue_of_blocks cfg now st = Inr st'"
  then have hd: "pl_unprocessed (planner st) = block # bs" and mv: "is_move block"
    and res: "process_queue_of_blocks cfg now st = Inr st'" by simp_all
  from process_queue_of_blocks_cases[OF hd mv res]
  show "(pl_unprocessed (planner st') = block # bs
             \<and> pl_processed (planner st') = pl_processed (planner st))
          \<or> (\<exists>st4. pl_unprocessed (planner st4) = block # bs
                   \<and> pl_processed (planner st4) = pl_processed (planner st)
                   \<and> fst (append_move_segments_to_queue cfg block st4)
                   \<and> st' = discard_current_unprocessed_block
                             (snd (append_move_segments_to_queue cfg block st4)))"
  proof (elim disjE exE conjE)
    assume "pl_unprocessed (planner st') = pl_unprocessed (planner st)"
      "pl_processed (planner st') = pl_processed (planner st)"
    with hd show ?thesis by simp
  next
    fix st4
    assume u: "pl_unprocessed (planner st4) = pl_unprocessed (planner st)"
      and p: "pl_processed (planner st4) = pl_processed (planner st)"
      and s: "st' = (if fst (append_move_segments_to_queue cfg block st4)
                     then discard_current_unprocessed_block (snd (append_move_segments_to_queue cfg block st4))
                     else snd (append_move_segments_to_queue cfg block st4))"
    show ?thesis
    proof (cases "fst (append_move_segments_to_queue cfg block st4)")
      case True
      with u p s hd show ?thesis by (intro disjI2 exI[of _ st4]) simp
    next
      case False
      with s append_false_unchanged[OF False] have "st' = st4" by simp
      with u p hd show ?thesis by simp
    qed
  qed
next
  assume a: "queue_free_slots (move_segment_queue st)
         < move_blocks_required (block_phase_distances cfg block)
           + MOVE_SEGMENT_QUEUE_MIN_FREE_SLOTS cfg
       \<and> queue_wf (move_segment_queue st)
       \<and> pl_unprocessed (planner st) = block # bs \<and> is_move block
       \<and> process_queue_of_blocks cfg now st = Inr st'"
  then have low: "queue_free_slots (move_segment_queue st)
         < move_blocks_required (block_phase_distances cfg block)
           + MOVE_SEGMENT_QUEUE_MIN_FREE_SLOTS cfg"
    and wf: "queue_wf (move_segment_queue st)"
    and hd: "pl_unprocessed (planner st) = block # bs" and mv: "is_move block"
    and res: "process_queue_of_blocks cfg now st = Inr st'" by simp_all
  from process_queue_of_blocks_cases[OF hd mv res]
  have "pl_unprocessed (planner st') = block # bs
          \<and> pl_processed (planner st') = pl_processed (planner st)"
  proof (elim disjE exE conjE)
    assume "pl_unprocessed (planner st') = pl_unprocessed (planner st)"
      "pl_processed (planner st') = pl_processed (planner st)"
    with hd show ?thesis by simp
  next
    fix st4
    assume u: "pl_unprocessed (planner st4) = pl_unprocessed (planner st)"
      and p: "pl_processed (planner st4) = pl_processed (planner st)"
      and f: "queue_wf (move_segment_queue st) \<longrightarrow>
                queue_wf (move_segment_queue st4)
                \<and> queue_free_slots (move_segment_queue st4) \<le> queue_free_slots (move_segment_queue st)"
      and s: "st' = (if fst (append_move_segments_to_queue cfg block st4)
                     then discard_current_unprocessed_block (snd (append_move_segments_to_queue cfg block st4))
                     else snd (append_move_segments_to_queue cfg block st4))"
    from f wf low have "queue_free_slots (move_segment_queue st4)
         < move_blocks_required (block_phase_distances cfg block)
           + MOVE_SEGMENT_QUEUE_MIN_FREE_SLOTS cfg" by simp
    from append_rejected[OF this] s have "st' = st4" by simp
    with u p hd show ?thesis by simp
  qed
  then show "pl_unprocessed (planner st') = block # bs"
    and "pl_processed (planner st') = pl_processed (planner st)" by simp_all
qed

lemma busy_engine_facts:
  "queue_wf (move_segment_queue busy_engine)"
  "queue_free_slots (move_segment_queue busy_engine) = 1"
  "pl_unprocessed (planner busy_engine) = [cruise_block]"
  "pl_processed (planner busy_engine) = []"
  "total_print_time busy_engine = 1"
  by (simp_all add: busy_engine_def halted_engine_def queue_wf_def queue_free_slots_def queue_size_def)

lemma busy_engine_low:
  "queue_free_slots (move_segment_queue busy_engine)
     < move_blocks_required (block_phase_distances example_config cruise_block)
       + MOVE_SEGMENT_QUEUE_MIN_FREE_SLOTS example_config"
  by (simp add: busy_engine_facts cruise_block_distances move_blocks_required_def example_min_free)

lemma busy_engine_not_waiting:
  "is_waiting_before_delivering example_config 0 busy_engine = (False, busy_engine)"
  by (simp add: is_waiting_before_delivering_def waiting_for_discard_check_def
      movesplanned_processed_def busy_engine_def halted_engine_def example_config_def)

lemma busy_engine_process:
  "process_queue_of_blocks example_config 0 busy_engine = Inr busy_engine"
proof -
  have mv: "is_move cruise_block" by (simp add: is_move_def cruise_block_def)
  have mx: "\<not> MAX_PRINT_TIME example_config \<le> total_print_time busy_engine"
    by (simp add: busy_engine_facts example_config_def)
  show ?thesis
    using mx
    by (simp add: process_queue_of_blocks_def busy_engine_not_waiting Let_def
        fetch_next_block_move[OF busy_engine_facts(3) mv] busy_engine_facts(5)
        append_rejected[OF busy_engine_low])
qed

text \<open>The engine with one free slot rejects the three-phase block and keeps it.\<close>

theorem rejected_block_is_retried_witness:
  "append_move_segments_to_queue example_config cruise_block busy_engine = (False, busy_engine)
   \<and> process_queue_of_blocks example_config 0 busy_engine = Inr busy_engine
   \<and> pl_unprocessed (planner busy_engine) = [cruise_block]"
proof -
  have mv: "is_move cruise_block" by (simp add: is_move_def cruise_block_def)
  note t = rejected_block_is_retried[of busy_engine example_config cruise_block "[]" 0 busy_engine]
  from t busy_engine_low have a: "append_move_segments_to_queue example_config cruise_block busy_engine
      = (False, busy_engine)" by blast
  from t busy_engine_low busy_engine_facts(1,3) mv busy_engine_process
  have "pl_unprocessed (planner busy_engine) = [cruise_block]" by blast
  with a busy_engine_process show ?thesis by simp
qed

section \<open>Properties of the merger\<close>

text \<open>What a step generator leaves alone: the step event queue, the tick rate, the times
  of the engine, the planner and, of the merger state, everything but the cached flags,
  the step counters and the count of owed segment markers.\<close>

definition merger_frame :: "engine \<Rightarrow> engine \<Rightarrow> bool" where
  "merger_frame st st' =
     (step_event_queue st' = step_event_queue st
      \<and> ticks_per_sec st' = ticks_per_sec st
      \<and> total_print_time st' = total_print_time st
      \<and> max_lookback_time st' = max_lookback_time st
      \<and> planner st' = planner st
      \<and> sgs_buffered_step (step_generator_state st') = sgs_buffered_step (step_generator_state st)
      \<and> sgs_previous_step_time (step_generator_state st') = sgs_previous_step_time (step_generator_state st)
      \<and> sgs_step_events (step_generator_state st') = sgs_step_events (step_generator_state st)
      \<and> sgs_step_event_index (step_generator_state st') = sgs_step_event_index (step_generator_state st)
      \<and> sgs_step_generator (step_generator_state st') = sgs_step_generator (step_generator_state st)
      \<and> sgs_next_step_func (step_generator_state st') = sgs_next_step_func (step_generator_state st)
      \<and> sgs_initialized (step_generator_state st') = sgs_initialized (step_generator_state st))"

lemma merger_frame_refl [simp]: "merger_frame st st"
  by (simp add: merger_frame_def)

lemma merger_frame_trans: "merger_frame a b \<Longrightarrow> merger_frame b c \<Longrightarrow> merger_frame a c"
  by (simp add: merger_frame_def)

lemma merger_frame_set_generator [simp]: "merger_frame st (set_generator g gen st)"
  by (simp add: merger_frame_def set_generator_def)

lemma merger_frame_add_reference_cnt [simp]: "merger_frame st (add_reference_cnt i d st)"
  by (simp add: merger_frame_def add_reference_cnt_def Let_def)

lemma merger_frame_handler [simp]: "merger_frame st (move_segment_processed_handler st)"
  by (simp add: merger_frame_def move_segment_processed_handler_def Let_def
      discard_current_unprocessed_move_segment_def split: option.splits)

lemma merger_frame_update:
  "classic_step_generator_update g st = Inr st' \<Longrightarrow> merger_frame st st'"
  using classic_step_generator_update_Inr[of g st st'] by auto

lemma merger_frame_advance:
  assumes "classic_advance g cur next_move st = Inr st'"
  shows "merger_frame st st'"
proof -
  let ?st1 = "add_reference_cnt cur (- 1) st"
  let ?st2 = "set_generator g ((xyze_get (step_generators_pool ?st1) g)\<lparr>csg_current_move := Some next_move\<rparr>) ?st1"
  let ?st3 = "add_reference_cnt next_move 1 ?st2"
  from assms obtain st4 where u: "classic_step_generator_update g ?st3 = Inr st4"
    by (auto simp: classic_advance_def Let_def split: sum.splits)
  from assms u obtain f where s: "st' = move_segment_processed_handler
      (st4\<lparr>step_generator_state := (step_generator_state st4)\<lparr>sgs_flags := f\<rparr>\<rparr>)"
    by (auto simp: classic_advance_def Let_def split: sum.splits)
  have a1: "merger_frame st ?st1" by (rule merger_frame_add_reference_cnt)
  have a2: "merger_frame ?st1 ?st2" by (rule merger_frame_set_generator)
  have a3: "merger_frame ?st2 ?st3" by (rule merger_frame_add_reference_cnt)
  have a: "merger_frame st ?st3"
    by (rule merger_frame_trans[OF merger_frame_trans[OF a1 a2] a3])
  have b: "merger_frame ?st3 st4" using merger_frame_update[OF u] .
  have c: "merger_frame st4 (st4\<lparr>step_generator_state := (step_generator_state st4)\<lparr>sgs_flags := f\<rparr>\<rparr>)"
    by (simp add: merger_frame_def)
  show ?thesis unfolding s
    by (rule merger_frame_trans[OF merger_frame_trans[OF merger_frame_trans[OF a b] c]
          merger_frame_handler])
qed

lemma merger_frame_iteration:
  assumes "classic_next_step_iteration cfg g flush_time st = Inr out"
  shows "case out of StepDone ev st' \<Rightarrow> merger_frame st st' | StepAdvanced st' \<Rightarrow> merger_frame st st'"
proof (cases out)
  case (StepAdvanced st')
  with assms classic_next_step_iteration_advanced[of cfg g flush_time st st']
  obtain cur nm where "classic_advance g cur nm st = Inr st'" by blast
  from merger_frame_advance[OF this] StepAdvanced show ?thesis by simp
next
  case (StepDone ev st')
  have a: "merger_frame st (set_reached_end g st)"
    by (simp add: set_reached_end_def)
  have b: "\<And>d. merger_frame st (st\<lparr>step_generator_state :=
              (step_generator_state st)\<lparr>sgs_current_distance := d\<rparr>\<rparr>)"
    by (simp add: merger_frame_def)
  from assms StepDone have "st' = set_reached_end g st
      \<or> (\<exists>d. st' = st\<lparr>step_generator_state := (step_generator_state st)\<lparr>sgs_current_distance := d\<rparr>\<rparr>)"
    by (auto simp: classic_next_step_iteration_def Let_def split: option.splits if_splits sum.splits)
  with a b StepDone show ?thesis by auto
qed

lemma merger_frame_loop:
  "classic_next_step_loop cfg g flush_time st = Inr (ev, st') \<Longrightarrow> merger_frame st st'"
proof (induction cfg g flush_time st arbitrary: ev st' rule: classic_next_step_loop.induct)
  case (1 cfg g flush_time st)
  from "1.prems" obtain out where it: "classic_next_step_iteration cfg g flush_time st = Inr out"
    by (subst (asm) classic_next_step_loop.simps) (auto split: sum.splits)
  note f = merger_frame_iteration[OF it]
  show ?case
  proof (cases out)
    case (StepDone ev1 st1)
    with "1.prems" it have "st' = st1"
      by (subst (asm) classic_next_step_loop.simps) simp
    with f StepDone show ?thesis by simp
  next
    case (StepAdvanced st1)
    with "1.prems" it have "classic_next_step_loop cfg g flush_time st1 = Inr (ev, st')"
      by (subst (asm) classic_next_step_loop.simps) simp
    from "1.IH"[OF it StepAdvanced this] have r: "merger_frame st1 st'" .
    from f StepAdvanced have "merger_frame st st1" by simp
    from merger_frame_trans[OF this r] show ?thesis .
  qed
qed


lemma int32_of_double_in_range:
  assumes "- (2 ^ 31) - 1 < v" and "v < 2 ^ 31"
  shows "int32_of_double cfg v = truncate_toward_zero v"
proof -
  have "- (2 ^ 31) \<le> truncate_toward_zero v \<and> truncate_toward_zero v < 2 ^ 31"
  proof (cases "0 \<le> v")
    case True
    then have t: "truncate_toward_zero v = \<lfloor>v\<rfloor>" by (simp add: truncate_toward_zero_def)
    from True have "0 \<le> \<lfloor>v\<rfloor>" by simp
    moreover from assms(2) have "\<lfloor>v\<rfloor> < 2 ^ 31" by (simp add: floor_less_iff)
    ultimately show ?thesis unfolding t by simp
  next
    case False
    then have t: "truncate_toward_zero v = \<lceil>v\<rceil>" by (simp add: truncate_toward_zero_def)
    from False have "\<lceil>v\<rceil> \<le> 0" by (simp add: ceiling_le_iff)
    moreover from assms(1) have "- (2 ^ 31) \<le> \<lceil>v\<rceil>" by (simp add: le_ceiling_iff)
    ultimately show ?thesis unfolding t by simp
  qed
  then show ?thesis by (simp add: int32_of_double_def Let_def)
qed

lemma int32_of_double_out_of_range:
  assumes "\<not> (- (2 ^ 31) - 1 < v \<and> v < 2 ^ 31)"
  shows "int32_of_double cfg v = int32_out_of_range cfg v"
proof -
  have "\<not> (- (2 ^ 31) \<le> truncate_toward_zero v \<and> truncate_toward_zero v < 2 ^ 31)"
  proof (cases "0 \<le> v")
    case True
    then have t: "truncate_toward_zero v = \<lfloor>v\<rfloor>" by (simp add: truncate_toward_zero_def)
    from True assms have "2 ^ 31 \<le> v" by simp
    then have "2 ^ 31 \<le> \<lfloor>v\<rfloor>" by (simp add: le_floor_iff)
    then show ?thesis unfolding t by simp
  next
    case False
    then have t: "truncate_toward_zero v = \<lceil>v\<rceil>" by (simp add: truncate_toward_zero_def)
    from False assms have "v \<le> - (2 ^ 31) - 1" by simp
    then have "\<lceil>v\<rceil> \<le> - (2 ^ 31) - 1" by (simp add: ceiling_le_iff)
    then show ?thesis unfolding t by simp
  qed
  then show ?thesis by (auto simp: int32_of_double_def Let_def)
qed

lemma step_time_relative_in_ticks_max:
  "step_time_relative_in_ticks cfg idx st
     = double_mul cfg
         (max 0 (double_sub cfg (sei_time (xyze_get (sgs_step_events (step_generator_state st)) idx))
                                (sgs_previous_step_time (step_generator_state st))))
         (ticks_per_sec st)"
  by (simp add: step_time_relative_in_ticks_def Let_def max_def)

lemma emit_nearest_step_event_emitted:
  assumes "emit_nearest_step_event cfg ev0 idx st = Inr (ev, ss1)"
    and "sei_time (xyze_get (sgs_step_events (step_generator_state st)) idx) \<noteq> 0"
    and "sei_time (xyze_get (sgs_step_events (step_generator_state st)) idx) \<noteq> DBL_MAX"
  shows "se_time_ticks ev = int32_of_double cfg (step_time_relative_in_ticks cfg idx st)"
    and "se_flags ev \<noteq> 0"
    and "se_flags ev = sei_flags (xyze_get (sgs_step_events (step_generator_state st)) idx)
         \<or> se_flags ev = sei_flags (xyze_get (sgs_step_events (step_generator_state st)) idx)
                            OR STEP_EVENT_FLAG_BEGINNING_OF_MOVE_SEGMENT"
    and "sgs_previous_step_time ss1 = sei_time (xyze_get (sgs_step_events (step_generator_state st)) idx)"
proof -
  let ?t = "sei_time (xyze_get (sgs_step_events (step_generator_state st)) idx)"
  from assms have f: "sei_flags (xyze_get (sgs_step_events (step_generator_state st)) idx) \<noteq> 0"
    by (auto simp: emit_nearest_step_event_def Let_def split: if_splits)
  from assms f show "se_time_ticks ev = int32_of_double cfg (step_time_relative_in_ticks cfg idx st)"
    by (auto simp: emit_nearest_step_event_def Let_def split: if_splits)
  from assms f show "se_flags ev = sei_flags (xyze_get (sgs_step_events (step_generator_state st)) idx)
         \<or> se_flags ev = sei_flags (xyze_get (sgs_step_events (step_generator_state st)) idx)
                            OR STEP_EVENT_FLAG_BEGINNING_OF_MOVE_SEGMENT"
    by (auto simp: emit_nearest_step_event_def Let_def split: if_splits)
  with f show "se_flags ev \<noteq> 0" by (auto simp: or_eq_0_iff)
  from assms f show "sgs_previous_step_time ss1 = ?t"
    by (auto simp: emit_nearest_step_event_def Let_def split: if_splits)
qed


lemma emit_nearest_step_event_frame:
  assumes "emit_nearest_step_event cfg ev0 idx st = Inr (ev, ss1)"
  shows "sgs_buffered_step ss1 = sgs_buffered_step (step_generator_state st)"
    and "sgs_step_events ss1 = sgs_step_events (step_generator_state st)"
    and "sgs_step_event_index ss1 = sgs_step_event_index (step_generator_state st)"
    and "sgs_step_generator ss1 = sgs_step_generator (step_generator_state st)"
    and "sgs_next_step_func ss1 = sgs_next_step_func (step_generator_state st)"
    and "sgs_initialized ss1 = sgs_initialized (step_generator_state st)"
    and "sgs_flags ss1 = sgs_flags (step_generator_state st)"
  using assms
  by (auto simp: emit_nearest_step_event_def Let_def split: if_splits)

lemma step_generator_next_step_event_frame:
  assumes "step_generator_next_step_event cfg a flush_time st = Inr (ev, st')"
  shows "merger_frame st st'"
proof -
  from assms obtain g where "classic_step_generator_next_step_event cfg g flush_time st = Inr (ev, st')"
    by (auto simp: step_generator_next_step_event_def Let_def split: option.splits generator_next_step_f.splits)
  then have "classic_next_step_loop cfg g flush_time st = Inr (ev, st')"
    by (auto simp: classic_step_generator_next_step_event_def split: if_splits)
  then show ?thesis by (rule merger_frame_loop)
qed

lemma generate_next_step_event_Inr:
  assumes "generate_next_step_event cfg ev0 flush_time st = Inr (done, ev, st')"
  shows "\<exists>idx rest ss1.
           sgs_step_event_index (step_generator_state st) = idx # rest
           \<and> emit_nearest_step_event cfg ev0 idx st = Inr (ev, ss1)
           \<and> sgs_previous_step_time (step_generator_state st') = sgs_previous_step_time ss1
           \<and> step_event_queue st' = step_event_queue st
           \<and> ticks_per_sec st' = ticks_per_sec st
           \<and> total_print_time st' = total_print_time st
           \<and> max_lookback_time st' = max_lookback_time st
           \<and> planner st' = planner st
           \<and> sgs_buffered_step (step_generator_state st') = sgs_buffered_step (step_generator_state st)
           \<and> sgs_initialized (step_generator_state st') = sgs_initialized (step_generator_state st)"
proof -
  from assms obtain idx rest where ix: "sgs_step_event_index (step_generator_state st) = idx # rest"
    by (auto simp: generate_next_step_event_def split: list.splits)
  from assms ix obtain ss1 where em: "emit_nearest_step_event cfg ev0 idx st = Inr (ev, ss1)"
    by (auto simp: generate_next_step_event_def Let_def split: sum.splits list.splits)
  from assms ix em obtain nev st2 where
    g: "step_generator_next_step_event cfg idx flush_time (st\<lparr>step_generator_state := ss1\<rparr>) = Inr (nev, st2)"
    by (auto simp: generate_next_step_event_def Let_def split: sum.splits list.splits)
  from assms ix em g have st': "st' = st2\<lparr>step_generator_state :=
       step_generator_state_update_nearest_idx
         ((step_generator_state st2)\<lparr>sgs_step_events :=
             xyze_set (sgs_step_events (step_generator_state st2)) idx nev\<rparr>)\<rparr>"
    by (auto simp: generate_next_step_event_def Let_def split: sum.splits list.splits)
  note f = step_generator_next_step_event_frame[OF g] emit_nearest_step_event_frame[OF em]
  show ?thesis
    using ix em f unfolding st'
    by (intro exI[of _ idx] exI[of _ rest] exI[of _ ss1])
       (simp add: merger_frame_def step_generator_state_update_nearest_idx_def)
qed

text \<open>C1 (as amended). When \<open>generate_next_step_event\<close> returns and the time of the nearest
  axis is neither 0 nor \<open>DBL_MAX\<close>, the delay of the step event it puts out is the
  conversion to \<^verbatim>\<open>int32_t\<close> of the computed product of \<open>ticks_per_sec\<close> and the computed
  difference between that time and \<open>previous_step_time\<close>, a negative difference replaced by
  0. When the product lies in the range of \<^verbatim>\<open>int32_t\<close> (above \<open>-2^31 - 1\<close> and below \<open>2^31\<close>),
  the delay is the product truncated toward zero (not rounded); outside this range it is
  the result of the out-of-range conversion. Afterwards \<open>previous_step_time\<close> is the time
  of the event.\<close>

theorem step_event_time_ticks:
  assumes gen: "generate_next_step_event cfg ev0 flush_time st = Inr (done, ev, st')"
    and idx: "sgs_step_event_index (step_generator_state st) = idx # rest"
    and t0: "sei_time (xyze_get (sgs_step_events (step_generator_state st)) idx) \<noteq> 0"
    and tm: "sei_time (xyze_get (sgs_step_events (step_generator_state st)) idx) \<noteq> DBL_MAX"
  shows "step_time_relative_in_ticks cfg idx st
           = double_mul cfg
               (max 0 (double_sub cfg (sei_time (xyze_get (sgs_step_events (step_generator_state st)) idx))
                                      (sgs_previous_step_time (step_generator_state st))))
               (ticks_per_sec st)
         \<and> se_time_ticks ev = int32_of_double cfg (step_time_relative_in_ticks cfg idx st)
         \<and> (- (2 ^ 31) - 1 < step_time_relative_in_ticks cfg idx st
              \<and> step_time_relative_in_ticks cfg idx st < 2 ^ 31
            \<longrightarrow> se_time_ticks ev = truncate_toward_zero (step_time_relative_in_ticks cfg idx st))
         \<and> (\<not> (- (2 ^ 31) - 1 < step_time_relative_in_ticks cfg idx st
                 \<and> step_time_relative_in_ticks cfg idx st < 2 ^ 31)
            \<longrightarrow> se_time_ticks ev = int32_out_of_range cfg (step_time_relative_in_ticks cfg idx st))
         \<and> sgs_previous_step_time (step_generator_state st')
             = sei_time (xyze_get (sgs_step_events (step_generator_state st)) idx)"
proof -
  from generate_next_step_event_Inr[OF gen] idx obtain ss1 where
    em: "emit_nearest_step_event cfg ev0 idx st = Inr (ev, ss1)"
    and p: "sgs_previous_step_time (step_generator_state st') = sgs_previous_step_time ss1"
    by auto
  note e = emit_nearest_step_event_emitted(1,4)[OF em t0 tm]
  have r: "- (2 ^ 31) - 1 < step_time_relative_in_ticks cfg idx st
              \<and> step_time_relative_in_ticks cfg idx st < 2 ^ 31
            \<longrightarrow> se_time_ticks ev = truncate_toward_zero (step_time_relative_in_ticks cfg idx st)"
    unfolding e(1) by (simp add: int32_of_double_in_range)
  have o: "\<not> (- (2 ^ 31) - 1 < step_time_relative_in_ticks cfg idx st
                 \<and> step_time_relative_in_ticks cfg idx st < 2 ^ 31)
            \<longrightarrow> se_time_ticks ev = int32_out_of_range cfg (step_time_relative_in_ticks cfg idx st)"
    unfolding e(1) by (rule impI, rule int32_of_double_out_of_range)
  from e p r o show ?thesis by (simp add: step_time_relative_in_ticks_max)
qed


text \<open>An engine in motion: one segment in the move segment queue with the four generators
  attached to it, and a step of the X axis due 2^-20 s after the previous one.\<close>

definition attached_generator :: "axis \<Rightarrow> nat \<Rightarrow> classic_step_generator_t" where
  "attached_generator a m = (detached_generator a)\<lparr>csg_current_move := Some m\<rparr>"

definition stepping_engine :: engine where
  "stepping_engine =
     halted_engine
       \<lparr>move_segment_queue := (move_segment_queue halted_engine)\<lparr>q_head := 1\<rparr>,
        total_print_time := 1,
        step_generator_state := halted_merger
          \<lparr>sgs_step_events :=
             XYZE \<lparr>sei_time = 1 / 1048576, sei_flags = STEP_EVENT_FLAG_STEP_X\<rparr>
                  \<lparr>sei_time = DBL_MAX, sei_flags = 0\<rparr>
                  \<lparr>sei_time = DBL_MAX, sei_flags = 0\<rparr>
                  \<lparr>sei_time = DBL_MAX, sei_flags = 0\<rparr>,
           sgs_next_step_func := XYZE (Some classic_next_step_f) (Some classic_next_step_f)
                                      (Some classic_next_step_f) (Some classic_next_step_f),
           sgs_initialized := True\<rparr>,
        step_generators_pool := XYZE (attached_generator X_AXIS 0) (attached_generator Y_AXIS 0)
                                     (attached_generator Z_AXIS 0) (attached_generator E_AXIS 0)\<rparr>"

lemma DBL_MAX_gt_1: "1 < DBL_MAX"
  by (simp add: DBL_MAX_def)

lemma stepping_iteration:
  "classic_next_step_iteration example_config X_AXIS 1
     (stepping_engine\<lparr>step_generator_state := ss\<rparr>)
   = Inr (StepDone \<lparr>sei_time = DBL_MAX, sei_flags = 0\<rparr>
            (set_reached_end X_AXIS (stepping_engine\<lparr>step_generator_state := ss\<rparr>)))"
  by (simp add: classic_next_step_iteration_def Let_def stepping_engine_def halted_engine_def
      attached_generator_def detached_generator_def classic_step_time_def example_config_def
      uniform_time_for_distance_def needs_next_segment_def move_segment_queue_next_move_def
      queue_next_index_def)

lemma stepping_engine_merger:
  "sgs_step_event_index (step_generator_state stepping_engine) = [X_AXIS, Y_AXIS, Z_AXIS, E_AXIS]"
  "sgs_step_events (step_generator_state stepping_engine)
     = XYZE \<lparr>sei_time = 1 / 1048576, sei_flags = STEP_EVENT_FLAG_STEP_X\<rparr>
            \<lparr>sei_time = DBL_MAX, sei_flags = 0\<rparr> \<lparr>sei_time = DBL_MAX, sei_flags = 0\<rparr>
            \<lparr>sei_time = DBL_MAX, sei_flags = 0\<rparr>"
  "sgs_previous_step_time (step_generator_state stepping_engine) = 0"
  "sgs_left_insert_start_of_move_segment (step_generator_state stepping_engine) = 0"
  "ticks_per_sec stepping_engine = 1000000"
  by (simp_all add: stepping_engine_def halted_merger_def halted_engine_def)

lemma small_time_not_max: "DBL_MAX * 1048576 \<noteq> 1"
  using DBL_MAX_gt_1 by simp

lemma step_x_nonzero: "STEP_EVENT_FLAG_STEP_X \<noteq> 0"
  by (simp add: STEP_EVENT_FLAG_STEP_X_def BV_def)

lemma example_config_arith:
  "double_sub example_config a b = a - b"
  "double_mul example_config a b = a * b"
  "int32_out_of_range example_config v = - 2147483648"
  by (simp_all add: example_config_def)

lemma stepping_product:
  "step_time_relative_in_ticks example_config X_AXIS stepping_engine = 15625 / 16384"
  by (simp add: step_time_relative_in_ticks_def Let_def stepping_engine_merger example_config_arith)

lemma stepping_emit:
  "emit_nearest_step_event example_config ev0 X_AXIS stepping_engine
     = Inr (\<lparr>se_time_ticks = 0, se_flags = STEP_EVENT_FLAG_STEP_X\<rparr>,
            (step_generator_state stepping_engine)\<lparr>sgs_previous_step_time := 1 / 1048576\<rparr>)"
  by (simp add: emit_nearest_step_event_def Let_def stepping_engine_merger small_time_not_max
      step_x_nonzero int32_of_double_def truncate_toward_zero_def stepping_product)

lemma stepping_next:
  "step_generator_next_step_event example_config X_AXIS 1
     (stepping_engine\<lparr>step_generator_state :=
        (step_generator_state stepping_engine)\<lparr>sgs_previous_step_time := 1 / 1048576\<rparr>\<rparr>)
   = Inr (\<lparr>sei_time = DBL_MAX, sei_flags = 0\<rparr>,
          set_reached_end X_AXIS (stepping_engine\<lparr>step_generator_state :=
            (step_generator_state stepping_engine)\<lparr>sgs_previous_step_time := 1 / 1048576\<rparr>\<rparr>))"
proof -
  have a: "x_of (sgs_next_step_func (step_generator_state stepping_engine)) = Some classic_next_step_f"
    "x_of (sgs_step_generator (step_generator_state stepping_engine)) = Some X_AXIS"
    "csg_current_move (x_of (step_generators_pool stepping_engine)) = Some 0"
    by (simp_all add: stepping_engine_def halted_merger_def halted_engine_def attached_generator_def)
  show ?thesis
    by (simp add: step_generator_next_step_event_def Let_def a
        classic_step_generator_next_step_event_def classic_next_step_loop.simps
        stepping_iteration)
qed

lemma stepping_generate:
  "map_sum id (\<lambda>(d, ev, s). (d, ev))
     (generate_next_step_event example_config ev0 1 stepping_engine)
   = Inr (True, \<lparr>se_time_ticks = 0, se_flags = STEP_EVENT_FLAG_STEP_X\<rparr>)"
  by (simp add: generate_next_step_event_def stepping_engine_merger(1) stepping_emit stepping_next
      Let_def set_reached_end_def step_generator_state_update_nearest_idx_def
      stepping_engine_merger(2))

lemma stepping_generate_result:
  "\<exists>st'. generate_next_step_event example_config \<lparr>se_time_ticks = 0, se_flags = 0\<rparr> 1 stepping_engine
           = Inr (True, \<lparr>se_time_ticks = 0, se_flags = STEP_EVENT_FLAG_STEP_X\<rparr>, st')"
proof (cases "generate_next_step_event example_config \<lparr>se_time_ticks = 0, se_flags = 0\<rparr> 1 stepping_engine")
  case (Inl e)
  with stepping_generate[of "\<lparr>se_time_ticks = 0, se_flags = 0\<rparr>"] show ?thesis by simp
next
  case (Inr r)
  with stepping_generate[of "\<lparr>se_time_ticks = 0, se_flags = 0\<rparr>"] show ?thesis
    by (cases r) auto
qed

text \<open>C1 as stated fails: at 1 MHz a step due 2^-20 s after the previous one (0.95 ticks)
  gets the delay 0, where rounding gives 1.\<close>

theorem step_event_time_ticks_counterexample:
  "map_sum id (\<lambda>(d, ev, s). se_time_ticks ev)
     (generate_next_step_event example_config \<lparr>se_time_ticks = 0, se_flags = 0\<rparr> 1 stepping_engine)
     = Inr 0
   \<and> sei_time (x_of (sgs_step_events (step_generator_state stepping_engine))) = 1 / 1048576
   \<and> sgs_previous_step_time (step_generator_state stepping_engine) = 0
   \<and> round ((1 / 1048576 - 0) * ticks_per_sec stepping_engine) = 1"
proof -
  from stepping_generate_result obtain st' where
    "generate_next_step_event example_config \<lparr>se_time_ticks = 0, se_flags = 0\<rparr> 1 stepping_engine
           = Inr (True, \<lparr>se_time_ticks = 0, se_flags = STEP_EVENT_FLAG_STEP_X\<rparr>, st')" by blast
  then show ?thesis
    by (simp add: stepping_engine_merger round_def)
qed

text \<open>Two step events of one move along X and Y, due at the same tick: a step of X and a
  step of Y, both with the active bits of X and Y, and an engine that has buffered the
  first.\<close>

definition x_step_event :: step_event_t where
  "x_step_event =
     \<lparr>se_time_ticks = 100,
      se_flags = STEP_EVENT_FLAG_STEP_X OR STEP_EVENT_FLAG_X_ACTIVE
                   OR push_bit (axis_num Y_AXIS) STEP_EVENT_FLAG_X_ACTIVE\<rparr>"

definition y_step_event :: step_event_t where
  "y_step_event =
     \<lparr>se_time_ticks = 0,
      se_flags = push_bit (axis_num Y_AXIS) STEP_EVENT_FLAG_STEP_X OR STEP_EVENT_FLAG_X_ACTIVE
                   OR push_bit (axis_num Y_AXIS) STEP_EVENT_FLAG_X_ACTIVE\<rparr>"

definition x_buffered_engine :: engine where
  "x_buffered_engine =
     halted_engine\<lparr>step_generator_state := halted_merger\<lparr>sgs_buffered_step := x_step_event\<rparr>\<rparr>"

text \<open>The engine in motion puts out the step of the X axis with the truncated delay: the
  product \<open>2^-20 * 10^6 = 15625 / 16384\<close> is a double and lies in the range of
  \<^verbatim>\<open>int32_t\<close>.\<close>

theorem step_event_time_ticks_witness:
  "map_sum id (\<lambda>(d, ev, s). se_time_ticks ev)
     (generate_next_step_event example_config \<lparr>se_time_ticks = 0, se_flags = 0\<rparr> 1 stepping_engine)
     = Inr (truncate_toward_zero (max 0 (1 / 1048576 - 0) * 1000000))"
proof -
  from stepping_generate_result obtain st' where
    g: "generate_next_step_event example_config \<lparr>se_time_ticks = 0, se_flags = 0\<rparr> 1 stepping_engine
           = Inr (True, \<lparr>se_time_ticks = 0, se_flags = STEP_EVENT_FLAG_STEP_X\<rparr>, st')" by blast
  have t0: "sei_time (xyze_get (sgs_step_events (step_generator_state stepping_engine)) X_AXIS) \<noteq> 0"
    by (simp add: stepping_engine_merger)
  have tm: "sei_time (xyze_get (sgs_step_events (step_generator_state stepping_engine)) X_AXIS) \<noteq> DBL_MAX"
    using small_time_not_max by (simp add: stepping_engine_merger)
  from step_event_time_ticks[OF g stepping_engine_merger(1) t0 tm]
  have "se_time_ticks \<lparr>se_time_ticks = 0, se_flags = STEP_EVENT_FLAG_STEP_X\<rparr>
          = truncate_toward_zero (15625 / 16384)"
    by (simp add: stepping_product)
  with g show ?thesis by simp
qed

section \<open>Properties of the producer of step events\<close>

lemma dir_bits_identical:
  "((a XOR b) AND m = 0) = (a AND m = b AND m)" for a b m :: "16 word"
  by (auto simp: bit_eq_iff bit_and_iff bit_xor_iff)

text \<open>C6 (as amended). With a step buffered, a new step event is merged into the buffer, by
  the bitwise or of the flags, exactly when its delay is 0, the two events share no bit of
  \<open>STEP_EVENT_FLAG_AXIS_MASK OR STEP_EVENT_FLAG_AXIS_OTHER_MASK\<close> (the step bits and the bits
  of the second mask, which is a constant of the absent header that the source calls the
  move flags) and their direction bits are identical; the step event queue is then left as
  it is. Otherwise, given the free slot of the queue, the buffered event is appended to
  the queue and the new event becomes the buffer.\<close>

theorem coalescing_rule:
  assumes nb: "se_flags (sgs_buffered_step (step_generator_state st)) \<noteq> 0"
    and nn: "se_flags new_step_event \<noteq> 0"
  shows "(merge_allowed cfg (sgs_buffered_step (step_generator_state st)) new_step_event
            \<longleftrightarrow> se_time_ticks new_step_event = 0
                \<and> (se_flags (sgs_buffered_step (step_generator_state st)) AND se_flags new_step_event)
                     AND (STEP_EVENT_FLAG_AXIS_MASK OR STEP_EVENT_FLAG_AXIS_OTHER_MASK cfg) = 0
                \<and> se_flags (sgs_buffered_step (step_generator_state st)) AND STEP_EVENT_FLAG_DIR_MASK
                    = se_flags new_step_event AND STEP_EVENT_FLAG_DIR_MASK)
         \<and> (merge_allowed cfg (sgs_buffered_step (step_generator_state st)) new_step_event
              \<longrightarrow> accumulate_or_flush cfg next_step_event new_step_event st
                    = Inr (st\<lparr>step_generator_state := (step_generator_state st)
                              \<lparr>sgs_buffered_step := (sgs_buffered_step (step_generator_state st))
                                 \<lparr>se_flags := se_flags (sgs_buffered_step (step_generator_state st))
                                                OR se_flags new_step_event\<rparr>\<rparr>\<rparr>))
         \<and> (\<not> merge_allowed cfg (sgs_buffered_step (step_generator_state st)) new_step_event
              \<and> queue_wf (step_event_queue st)
              \<and> next_step_event = queue_next_free (step_event_queue st)
              \<and> next_step_event \<noteq> None
              \<longrightarrow> (\<exists>st'. accumulate_or_flush cfg next_step_event new_step_event st = Inr st'
                     \<and> queue_contents (step_event_queue st')
                          = queue_contents (step_event_queue st) @ [sgs_buffered_step (step_generator_state st)]
                     \<and> sgs_buffered_step (step_generator_state st') = new_step_event))"
proof (intro conjI impI)
  show "merge_allowed cfg (sgs_buffered_step (step_generator_state st)) new_step_event
            \<longleftrightarrow> se_time_ticks new_step_event = 0
                \<and> (se_flags (sgs_buffered_step (step_generator_state st)) AND se_flags new_step_event)
                     AND (STEP_EVENT_FLAG_AXIS_MASK OR STEP_EVENT_FLAG_AXIS_OTHER_MASK cfg) = 0
                \<and> se_flags (sgs_buffered_step (step_generator_state st)) AND STEP_EVENT_FLAG_DIR_MASK
                    = se_flags new_step_event AND STEP_EVENT_FLAG_DIR_MASK"
    by (simp add: merge_allowed_def dir_bits_identical)
next
  assume "merge_allowed cfg (sgs_buffered_step (step_generator_state st)) new_step_event"
  with nb nn show "accumulate_or_flush cfg next_step_event new_step_event st
                    = Inr (st\<lparr>step_generator_state := (step_generator_state st)
                              \<lparr>sgs_buffered_step := (sgs_buffered_step (step_generator_state st))
                                 \<lparr>se_flags := se_flags (sgs_buffered_step (step_generator_state st))
                                                OR se_flags new_step_event\<rparr>\<rparr>\<rparr>)"
    by (simp add: accumulate_or_flush_def Let_def)
next
  assume a: "\<not> merge_allowed cfg (sgs_buffered_step (step_generator_state st)) new_step_event
              \<and> queue_wf (step_event_queue st)
              \<and> next_step_event = queue_next_free (step_event_queue st)
              \<and> next_step_event \<noteq> None"
  let ?q = "step_event_queue st"
  let ?b = "sgs_buffered_step (step_generator_state st)"
  from a have nm: "\<not> merge_allowed cfg ?b new_step_event" and wf: "queue_wf ?q"
    and nx: "next_step_event = queue_next_free ?q" and nf: "\<not> queue_is_full ?q"
    by (auto simp: queue_next_free_def split: if_splits)
  let ?st' = "(write_step_event (q_head ?q) (queue_next_index ?q (q_head ?q)) ?b st)
                \<lparr>step_generator_state :=
                   (step_generator_state (write_step_event (q_head ?q) (queue_next_index ?q (q_head ?q)) ?b st))
                     \<lparr>sgs_buffered_step := new_step_event\<rparr>\<rparr>"
  have r: "accumulate_or_flush cfg next_step_event new_step_event st = Inr ?st'"
    using nb nn nm nx nf by (simp add: accumulate_or_flush_def Let_def queue_next_free_def)
  have q: "step_event_queue ?st' = ?q\<lparr>q_data := (q_data ?q)[q_head ?q := ?b],
                                     q_head := queue_next_index ?q (q_head ?q)\<rparr>"
    by (simp add: write_step_event_def)
  have c: "queue_contents (step_event_queue ?st') = queue_contents ?q @ [?b]"
    unfolding q using queue_push(1)[OF wf nf] .
  have b: "sgs_buffered_step (step_generator_state ?st') = new_step_event" by simp
  from r c b show "\<exists>st'. accumulate_or_flush cfg next_step_event new_step_event st = Inr st'
                     \<and> queue_contents (step_event_queue st')
                          = queue_contents (step_event_queue st) @ [sgs_buffered_step (step_generator_state st)]
                     \<and> sgs_buffered_step (step_generator_state st') = new_step_event"
    by blast
qed

lemmas step_flag_defs =
  STEP_EVENT_FLAG_STEP_X_def STEP_EVENT_FLAG_X_DIR_def STEP_EVENT_FLAG_X_ACTIVE_def
  STEP_EVENT_FLAG_BEGINNING_OF_MOVE_SEGMENT_def STEP_EVENT_END_OF_MOTION_def
  STEP_EVENT_FLAG_AXIS_MASK_def STEP_EVENT_FLAG_DIR_MASK_def STEP_EVENT_FLAG_AXIS_ACTIVE_MASK_def BV_def

lemma xy_step_events_merge:
  "merge_allowed example_config x_step_event y_step_event"
  by (simp add: merge_allowed_def x_step_event_def y_step_event_def example_config_def step_flag_defs)

text \<open>C6 as stated fails on the two step events above, which share the active bits of X and
  Y: with a second mask of the two marker bits the code merges them, against the rule that
  no active bit may be shared; with the active bits as second mask the code would not
  merge them, against the conclusion that two axes stepping at the same instant give one
  event.\<close>

theorem coalescing_rule_counterexample:
  "merge_allowed example_config x_step_event y_step_event
   \<and> (se_flags x_step_event AND se_flags y_step_event)
        AND (STEP_EVENT_FLAG_AXIS_MASK OR STEP_EVENT_FLAG_AXIS_ACTIVE_MASK) \<noteq> 0
   \<and> \<not> merge_allowed
          (example_config\<lparr>STEP_EVENT_FLAG_AXIS_OTHER_MASK := STEP_EVENT_FLAG_AXIS_ACTIVE_MASK\<rparr>)
          x_step_event y_step_event"
  by (simp add: merge_allowed_def x_step_event_def y_step_event_def example_config_def step_flag_defs)

text \<open>The step of Y is merged into the buffered step of X: one event with both step bits.\<close>

theorem coalescing_rule_witness:
  "accumulate_or_flush example_config None y_step_event x_buffered_engine
     = Inr (x_buffered_engine\<lparr>step_generator_state := (step_generator_state x_buffered_engine)
              \<lparr>sgs_buffered_step := x_step_event
                 \<lparr>se_flags := se_flags x_step_event OR se_flags y_step_event\<rparr>\<rparr>\<rparr>)
   \<and> se_flags x_step_event OR se_flags y_step_event
       = STEP_EVENT_FLAG_STEP_X OR push_bit (axis_num Y_AXIS) STEP_EVENT_FLAG_STEP_X
           OR STEP_EVENT_FLAG_X_ACTIVE OR push_bit (axis_num Y_AXIS) STEP_EVENT_FLAG_X_ACTIVE"
proof -
  have b: "sgs_buffered_step (step_generator_state x_buffered_engine) = x_step_event"
    by (simp add: x_buffered_engine_def)
  have nb: "se_flags (sgs_buffered_step (step_generator_state x_buffered_engine)) \<noteq> 0"
    by (simp add: b x_step_event_def step_flag_defs)
  have nn: "se_flags y_step_event \<noteq> 0"
    by (simp add: y_step_event_def step_flag_defs)
  from coalescing_rule[OF nb nn, of example_config None] xy_step_events_merge
  have "accumulate_or_flush example_config None y_step_event x_buffered_engine
     = Inr (x_buffered_engine\<lparr>step_generator_state := (step_generator_state x_buffered_engine)
              \<lparr>sgs_buffered_step := x_step_event
                 \<lparr>se_flags := se_flags x_step_event OR se_flags y_step_event\<rparr>\<rparr>\<rparr>)"
    by (simp add: b)
  moreover have "se_flags x_step_event OR se_flags y_step_event
       = STEP_EVENT_FLAG_STEP_X OR push_bit (axis_num Y_AXIS) STEP_EVENT_FLAG_STEP_X
           OR STEP_EVENT_FLAG_X_ACTIVE OR push_bit (axis_num Y_AXIS) STEP_EVENT_FLAG_X_ACTIVE"
    by (simp add: x_step_event_def y_step_event_def step_flag_defs)
  ultimately show ?thesis by simp
qed

section \<open>Properties of the step event queue\<close>

text \<open>\<open>events_ok P st\<close>: the ring of step events is well formed, and every queued step
  event and a pending buffered step satisfy \<open>P\<close>.\<close>

definition events_ok :: "(step_event_t \<Rightarrow> bool) \<Rightarrow> engine \<Rightarrow> bool" where
  "events_ok P st =
     (queue_wf (step_event_queue st)
      \<and> list_all P (queue_contents (step_event_queue st))
      \<and> (se_flags (sgs_buffered_step (step_generator_state st)) \<noteq> 0
            \<longrightarrow> P (sgs_buffered_step (step_generator_state st))))"

definition events_frame :: "engine \<Rightarrow> engine \<Rightarrow> bool" where
  "events_frame st st' =
     (step_event_queue st' = step_event_queue st
      \<and> ticks_per_sec st' = ticks_per_sec st
      \<and> sgs_buffered_step (step_generator_state st') = sgs_buffered_step (step_generator_state st))"

text \<open>An engine at the end of a motion: the ending empty move is the only segment in the
  move segment queue, a step of X is buffered, one more step of X is due, and one
  beginning of a move segment is still to be marked.\<close>

definition draining_engine :: engine where
  "draining_engine =
     stepping_engine
       \<lparr>move_segment_queue := (move_segment_queue stepping_engine)
          \<lparr>q_data := (q_data (move_segment_queue stepping_engine))
                       [0 := empty_move\<lparr>mv_flags := MOVE_FLAG_ENDING_EMPTY_MOVE\<rparr>]\<rparr>,
        step_generator_state := (step_generator_state stepping_engine)
          \<lparr>sgs_buffered_step := x_step_event,
           sgs_left_insert_start_of_move_segment := 1\<rparr>\<rparr>"

definition x_first_step_event :: step_event_t where
  "x_first_step_event =
     \<lparr>se_time_ticks = 0,
      se_flags = STEP_EVENT_FLAG_STEP_X OR STEP_EVENT_FLAG_BEGINNING_OF_MOVE_SEGMENT\<rparr>"

definition end_of_motion_event :: step_event_t where
  "end_of_motion_event =
     \<lparr>se_time_ticks = 0,
      se_flags = STEP_EVENT_FLAG_BEGINNING_OF_MOVE_SEGMENT OR STEP_EVENT_END_OF_MOTION\<rparr>"

definition draining_generated :: engine where
  "draining_generated =
     set_reached_end X_AXIS
       (draining_engine\<lparr>step_generator_state := (step_generator_state draining_engine)
          \<lparr>sgs_left_insert_start_of_move_segment := 0,
           sgs_previous_step_time := 1 / 1048576,
           sgs_step_events := XYZE \<lparr>sei_time = DBL_MAX, sei_flags = 0\<rparr> \<lparr>sei_time = DBL_MAX, sei_flags = 0\<rparr>
                                   \<lparr>sei_time = DBL_MAX, sei_flags = 0\<rparr> \<lparr>sei_time = DBL_MAX, sei_flags = 0\<rparr>\<rparr>\<rparr>)"

definition draining_buffered :: engine where
  "draining_buffered =
     (write_step_event 0 1 x_step_event draining_generated)
       \<lparr>step_generator_state :=
          (step_generator_state draining_generated)\<lparr>sgs_buffered_step := x_first_step_event\<rparr>\<rparr>"

definition draining_flushed :: engine where
  "draining_flushed =
     (write_step_event 1 2 x_first_step_event draining_buffered)
       \<lparr>step_generator_state := (step_generator_state draining_buffered)
           \<lparr>sgs_buffered_step := x_first_step_event\<lparr>se_flags := 0\<rparr>\<rparr>\<rparr>"

definition drained_engine :: engine where
  "drained_engine =
     (write_step_event 2 3 end_of_motion_event (discard_current_unprocessed_move_segment draining_flushed))
       \<lparr>step_generator_state := (step_generator_state draining_flushed)\<lparr>sgs_previous_step_time := 0\<rparr>\<rparr>"






lemma write_step_event_push:
  assumes wf: "queue_wf (step_event_queue st)"
    and nf: "queue_next_free (step_event_queue st) = Some (slot, nh)"
  shows "queue_wf (step_event_queue (write_step_event slot nh ev st))"
    and "queue_contents (step_event_queue (write_step_event slot nh ev st))
           = queue_contents (step_event_queue st) @ [ev]"
    and "step_generator_state (write_step_event slot nh ev st) = step_generator_state st"
    and "ticks_per_sec (write_step_event slot nh ev st) = ticks_per_sec st"
    and "move_segment_queue (write_step_event slot nh ev st) = move_segment_queue st"
proof -
  let ?q = "step_event_queue st"
  from nf have f: "\<not> queue_is_full ?q" and s: "slot = q_head ?q" "nh = queue_next_index ?q (q_head ?q)"
    by (auto simp: queue_next_free_def split: if_splits)
  have q: "step_event_queue (write_step_event slot nh ev st)
             = ?q\<lparr>q_data := (q_data ?q)[q_head ?q := ev], q_head := queue_next_index ?q (q_head ?q)\<rparr>"
    by (simp add: write_step_event_def s)
  show "queue_wf (step_event_queue (write_step_event slot nh ev st))"
    unfolding q using queue_push(2)[OF wf f] .
  show "queue_contents (step_event_queue (write_step_event slot nh ev st))
           = queue_contents (step_event_queue st) @ [ev]"
    unfolding q using queue_push(1)[OF wf f] .
  show "step_generator_state (write_step_event slot nh ev st) = step_generator_state st"
    "ticks_per_sec (write_step_event slot nh ev st) = ticks_per_sec st"
    "move_segment_queue (write_step_event slot nh ev st) = move_segment_queue st"
    by (simp_all add: write_step_event_def)
qed

lemma accumulate_or_flush_events_ok:
  assumes ok: "events_ok P st"
    and nf: "next_step_event = queue_next_free (step_event_queue st)"
    and new: "se_flags new_step_event \<noteq> 0 \<Longrightarrow> P new_step_event"
    and closed: "\<And>e f. P e \<Longrightarrow> se_flags e \<noteq> 0 \<Longrightarrow> P (e\<lparr>se_flags := se_flags e OR f\<rparr>)"
    and res: "accumulate_or_flush cfg next_step_event new_step_event st = Inr st'"
  shows "events_ok P st' \<and> ticks_per_sec st' = ticks_per_sec st"
proof (cases "se_flags new_step_event = 0")
  case True
  with res ok show ?thesis by (simp add: accumulate_or_flush_def Let_def)
next
  case nn: False
  let ?b = "sgs_buffered_step (step_generator_state st)"
  show ?thesis
  proof (cases "se_flags ?b = 0")
    case True
    with res nn have "st' = st\<lparr>step_generator_state :=
         (step_generator_state st)\<lparr>sgs_buffered_step := new_step_event\<rparr>\<rparr>"
      by (simp add: accumulate_or_flush_def Let_def)
    with ok new[OF nn] show ?thesis by (simp add: events_ok_def)
  next
    case nb: False
    show ?thesis
    proof (cases "merge_allowed cfg ?b new_step_event")
      case True
      with res nn nb have "st' = st\<lparr>step_generator_state := (step_generator_state st)
            \<lparr>sgs_buffered_step := ?b\<lparr>se_flags := se_flags ?b OR se_flags new_step_event\<rparr>\<rparr>\<rparr>"
        by (simp add: accumulate_or_flush_def Let_def)
      with ok nb closed[of ?b "se_flags new_step_event"] show ?thesis
        by (simp add: events_ok_def)
    next
      case False
      with res nn nb nf obtain slot nh where
        s: "queue_next_free (step_event_queue st) = Some (slot, nh)"
        and st': "st' = (write_step_event slot nh ?b st)\<lparr>step_generator_state :=
              (step_generator_state (write_step_event slot nh ?b st))\<lparr>sgs_buffered_step := new_step_event\<rparr>\<rparr>"
        by (auto simp: accumulate_or_flush_def Let_def split: option.splits)
      from ok have wf: "queue_wf (step_event_queue st)" by (simp add: events_ok_def)
      note w = write_step_event_push[OF wf s, of ?b]
      from ok nb have "P ?b" by (simp add: events_ok_def)
      with ok w new[OF nn] show ?thesis unfolding st' by (simp add: events_ok_def)
    qed
  qed
qed

lemma produce_iteration_events_ok:
  assumes ok: "events_ok P st"
    and gen: "\<And>d ev st1. generate_next_step_event cfg uninit flush_time st = Inr (d, ev, st1)
                \<Longrightarrow> se_flags ev \<noteq> 0 \<Longrightarrow> P ev"
    and closed: "\<And>e f. P e \<Longrightarrow> se_flags e \<noteq> 0 \<Longrightarrow> P (e\<lparr>se_flags := se_flags e OR f\<rparr>)"
    and res: "produce_iteration cfg uninit flush_time st = Inr (ex, st')"
  shows "events_ok P st' \<and> ticks_per_sec st' = ticks_per_sec st"
proof (cases "se_flags (sgs_buffered_step (step_generator_state st)) \<noteq> 0
              \<and> queue_next_free (step_event_queue st) = None")
  case True
  with res ok show ?thesis by (auto simp: produce_iteration_def Let_def)
next
  case False
  with res obtain d ev st1 where
    g: "generate_next_step_event cfg uninit flush_time st = Inr (d, ev, st1)"
    and a: "accumulate_or_flush cfg (queue_next_free (step_event_queue st)) ev st1 = Inr st'"
    by (auto simp: produce_iteration_def Let_def split: sum.splits)
  from generate_next_step_event_Inr[OF g] have
    f: "step_event_queue st1 = step_event_queue st" "ticks_per_sec st1 = ticks_per_sec st"
       "sgs_buffered_step (step_generator_state st1) = sgs_buffered_step (step_generator_state st)"
    by auto
  from ok f have ok1: "events_ok P st1" by (simp add: events_ok_def)
  have nf: "queue_next_free (step_event_queue st) = queue_next_free (step_event_queue st1)"
    using f by simp
  from accumulate_or_flush_events_ok[OF ok1 nf gen[OF g] closed a] f show ?thesis by simp
qed

lemma produce_loop_events_ok:
  "events_ok P st \<Longrightarrow> R (ticks_per_sec st)
   \<Longrightarrow> produce_loop cfg uninit flush_time cnt st = Inr (r, cnt', st')
   \<Longrightarrow> (\<And>st d ev st1. R (ticks_per_sec st)
                \<Longrightarrow> generate_next_step_event cfg uninit flush_time st = Inr (d, ev, st1)
                \<Longrightarrow> se_flags ev \<noteq> 0 \<Longrightarrow> P ev)
   \<Longrightarrow> (\<And>e f. P e \<Longrightarrow> se_flags e \<noteq> 0 \<Longrightarrow> P (e\<lparr>se_flags := se_flags e OR f\<rparr>))
   \<Longrightarrow> events_ok P st' \<and> ticks_per_sec st' = ticks_per_sec st"
proof (induction cfg uninit flush_time cnt st arbitrary: r cnt' st' rule: produce_loop.induct)
  case (1 cfg uninit flush_time cnt st)
  note unf = produce_loop.simps[of cfg uninit flush_time cnt st]
  show ?case
  proof (cases "cnt < MAX_STEP_EVENTS_PRODUCED_PER_ONE_CALL cfg")
    case False
    with "1.prems"(3) have "st' = st" unfolding unf by simp
    with "1.prems" show ?thesis by simp
  next
    case True
    with "1.prems"(3) obtain ex st1 where it: "produce_iteration cfg uninit flush_time st = Inr (ex, st1)"
      unfolding unf by (auto split: sum.splits)
    have g: "\<And>d ev st1. generate_next_step_event cfg uninit flush_time st = Inr (d, ev, st1)
                \<Longrightarrow> se_flags ev \<noteq> 0 \<Longrightarrow> P ev"
      using "1.prems"(4)[OF "1.prems"(2)] .
    have c: "\<And>e f. P e \<Longrightarrow> se_flags e \<noteq> 0 \<Longrightarrow> P (e\<lparr>se_flags := se_flags e OR f\<rparr>)"
      using "1.prems"(5) .
    have "events_ok P st1 \<and> ticks_per_sec st1 = ticks_per_sec st"
      by (rule produce_iteration_events_ok[where P = P, OF "1.prems"(1) _ _ it]) (erule (1) g, erule (1) c)
    hence ok1: "events_ok P st1" and t1: "ticks_per_sec st1 = ticks_per_sec st" by blast+
    show ?thesis
    proof (cases ex)
      case LoopContinue
      with "1.prems"(3) True it have rec: "produce_loop cfg uninit flush_time (cnt + 1) st1 = Inr (r, cnt', st')"
        unfolding unf by simp
      from "1.prems"(2) t1 have r1: "R (ticks_per_sec st1)" by simp
      have "events_ok P st' \<and> ticks_per_sec st' = ticks_per_sec st1"
        by (rule "1.IH"[OF True it refl LoopContinue ok1 r1 rec]) (erule (2) "1.prems"(4), erule (1) c)
      with t1 show ?thesis by simp
    next
      case LoopBreak
      with "1.prems"(3) True it have "st' = st1" unfolding unf by simp
      with ok1 t1 show ?thesis by simp
    next
      case LoopReturnFull
      with "1.prems"(3) True it have "st' = st1" unfolding unf by simp
      with ok1 t1 show ?thesis by simp
    qed
  qed
qed

lemma append_move_discarding_step_event_events_ok:
  assumes ok: "events_ok P st"
    and D: "\<And>f x. P \<lparr>se_time_ticks = 0, se_flags = f OR STEP_EVENT_FLAG_BEGINNING_OF_MOVE_SEGMENT OR x\<rparr>"
    and res: "append_move_discarding_step_event x st = (b, st')"
  shows "events_ok P st'"
    and "ticks_per_sec st' = ticks_per_sec st"
    and "sgs_left_insert_start_of_move_segment (step_generator_state st')
           = sgs_left_insert_start_of_move_segment (step_generator_state st)"
    and "move_segment_queue st' = move_segment_queue st"
proof -
  from ok have wf: "queue_wf (step_event_queue st)" by (simp add: events_ok_def)
  have "events_ok P st' \<and> ticks_per_sec st' = ticks_per_sec st
        \<and> sgs_left_insert_start_of_move_segment (step_generator_state st')
           = sgs_left_insert_start_of_move_segment (step_generator_state st)
        \<and> move_segment_queue st' = move_segment_queue st"
  proof (cases "queue_next_free (step_event_queue st)")
    case None
    with res ok show ?thesis by (simp add: append_move_discarding_step_event_def)
  next
    case (Some sn)
    obtain slot nh where sn: "sn = (slot, nh)" by (cases sn)
    let ?ev = "\<lparr>se_time_ticks = 0,
                 se_flags = sgs_flags (step_generator_state st)
                              OR STEP_EVENT_FLAG_BEGINNING_OF_MOVE_SEGMENT OR x\<rparr>"
    let ?st1 = "write_step_event slot nh ?ev st"
    from Some sn have nf: "queue_next_free (step_event_queue st) = Some (slot, nh)" by simp
    note w = write_step_event_push[OF wf nf, of ?ev]
    from res nf have st': "st' = ?st1\<lparr>step_generator_state :=
          (step_generator_state ?st1)\<lparr>sgs_previous_step_time := 0\<rparr>\<rparr>"
      by (simp add: append_move_discarding_step_event_def Let_def)
    from ok w D[of "sgs_flags (step_generator_state st)" x] show ?thesis
      unfolding st' by (simp add: events_ok_def)
  qed
  then show "events_ok P st'"
    and "ticks_per_sec st' = ticks_per_sec st"
    and "sgs_left_insert_start_of_move_segment (step_generator_state st')
           = sgs_left_insert_start_of_move_segment (step_generator_state st)"
    and "move_segment_queue st' = move_segment_queue st"
    by blast+
qed

lemma events_ok_left_insert [simp]:
  "events_ok P (st\<lparr>step_generator_state :=
      (step_generator_state st)\<lparr>sgs_left_insert_start_of_move_segment := n\<rparr>\<rparr>) = events_ok P st"
  by (simp add: events_ok_def)

lemma events_ok_discard_unprocessed [simp]:
  "events_ok P (discard_current_unprocessed_move_segment st) = events_ok P st"
  by (simp add: events_ok_def)

lemma discarding_loop_events_ok:
  "events_ok P st
   \<Longrightarrow> (\<And>f x. P \<lparr>se_time_ticks = 0, se_flags = f OR STEP_EVENT_FLAG_BEGINNING_OF_MOVE_SEGMENT OR x\<rparr>)
   \<Longrightarrow> events_ok P (discarding_loop st) \<and> ticks_per_sec (discarding_loop st) = ticks_per_sec st"
proof (induction st rule: discarding_loop.induct)
  case (1 st)
  note unf = discarding_loop.simps[of st]
  show ?case
  proof (cases "sgs_left_insert_start_of_move_segment (step_generator_state st) > 0")
    case False
    with "1.prems"(1) show ?thesis unfolding unf by simp
  next
    case True
    obtain b st1 where a: "append_move_discarding_step_event 0 st = (b, st1)"
      by (cases "append_move_discarding_step_event 0 st")
    have ok1: "events_ok P st1" and t1: "ticks_per_sec st1 = ticks_per_sec st"
      by (rule append_move_discarding_step_event_events_ok[OF "1.prems"(1) _ a], rule "1.prems"(2))+
    show ?thesis
    proof (cases b)
      case False
      with True a ok1 t1 show ?thesis unfolding unf by simp
    next
      case b: True
      let ?st2 = "st1\<lparr>step_generator_state := (step_generator_state st1)
                     \<lparr>sgs_left_insert_start_of_move_segment :=
                        sgs_left_insert_start_of_move_segment (step_generator_state st1) - 1\<rparr>\<rparr>"
      have ok2: "events_ok P ?st2" using ok1 by simp
      have "events_ok P (discarding_loop ?st2) \<and> ticks_per_sec (discarding_loop ?st2) = ticks_per_sec ?st2"
        using a b by (intro "1.IH"[OF True _ _ ok2]) (auto intro: "1.prems"(2))
      with True a b t1 show ?thesis unfolding unf by simp
    qed
  qed
qed

lemma finish_on_ending_move_events_ok:
  assumes ok: "events_ok P st"
    and D: "\<And>f x. P \<lparr>se_time_ticks = 0, se_flags = f OR STEP_EVENT_FLAG_BEGINNING_OF_MOVE_SEGMENT OR x\<rparr>"
    and res: "finish_on_ending_move st = Inr (r, st')"
  shows "events_ok P st'"
proof (cases "\<exists>m. get_current_unprocessed_move_segment st = Some m
                 \<and> is_ending_empty_move (q_data (move_segment_queue st) ! m)")
  case False
  with res have "st' = st"
    by (auto simp: finish_on_ending_move_def split: option.splits if_splits)
  with ok show ?thesis by simp
next
  case True
  then obtain m where m: "get_current_unprocessed_move_segment st = Some m"
    "is_ending_empty_move (q_data (move_segment_queue st) ! m)" by blast
  let ?b = "sgs_buffered_step (step_generator_state st)"
  from ok have wf: "queue_wf (step_event_queue st)" by (simp add: events_ok_def)
  define flushed where "flushed =
     (if se_flags ?b \<noteq> 0 then
        (case queue_next_free (step_event_queue st) of
           None \<Rightarrow> None
         | Some (slot, nh) \<Rightarrow>
            (let st1 = write_step_event slot nh ?b st; ss1 = step_generator_state st1
             in Some (st1\<lparr>step_generator_state :=
                       ss1\<lparr>sgs_buffered_step := (sgs_buffered_step ss1)\<lparr>se_flags := 0\<rparr>\<rparr>\<rparr>)))
      else Some st)"
  have fl: "\<And>st2. flushed = Some st2 \<Longrightarrow> events_ok P st2"
  proof -
    fix st2 assume f: "flushed = Some st2"
    show "events_ok P st2"
    proof (cases "se_flags ?b = 0")
      case True
      with f ok show ?thesis by (simp add: flushed_def)
    next
      case False
      with f obtain slot nh where nf: "queue_next_free (step_event_queue st) = Some (slot, nh)"
        and st2: "st2 = (write_step_event slot nh ?b st)\<lparr>step_generator_state :=
              (step_generator_state (write_step_event slot nh ?b st))
                \<lparr>sgs_buffered_step := (sgs_buffered_step (step_generator_state (write_step_event slot nh ?b st)))\<lparr>se_flags := 0\<rparr>\<rparr>\<rparr>"
        by (auto simp: flushed_def Let_def split: option.splits)
      note w = write_step_event_push[OF wf nf, of ?b]
      from ok False have "P ?b" by (simp add: events_ok_def)
      with ok w show ?thesis unfolding st2 by (simp add: events_ok_def)
    qed
  qed
  show ?thesis
  proof (cases flushed)
    case None
    with res m have "st' = st"
      by (simp add: finish_on_ending_move_def flushed_def[symmetric])
    with ok show ?thesis by simp
  next
    case (Some st2)
    let ?st3 = "discarding_loop st2"
    have ok3: "events_ok P ?st3"
      using discarding_loop_events_ok[OF fl[OF Some], of ] D by blast
    show ?thesis
    proof (cases "sgs_left_insert_start_of_move_segment (step_generator_state ?st3) = 0
                  \<and> \<not> queue_is_full (step_event_queue ?st3)")
      case False
      with res m Some have "st' = ?st3"
        by (auto simp: finish_on_ending_move_def flushed_def[symmetric] Let_def split: if_splits)
      with ok3 show ?thesis by simp
    next
      case True
      obtain b st4 where a: "append_move_discarding_step_event STEP_EVENT_END_OF_MOTION
                                  (discard_current_unprocessed_move_segment ?st3) = (b, st4)"
        by (cases "append_move_discarding_step_event STEP_EVENT_END_OF_MOTION
                                  (discard_current_unprocessed_move_segment ?st3)")
      with res m Some True have "st' = st4"
        by (auto simp: finish_on_ending_move_def flushed_def[symmetric] Let_def split: if_splits bool.splits)
      moreover have "events_ok P (discard_current_unprocessed_move_segment ?st3)" using ok3 by simp
      from append_move_discarding_step_event_events_ok(1)[OF this _ a] D
      have "events_ok P st4" by blast
      ultimately show ?thesis by simp
    qed
  qed
qed

lemma events_frame_refl [simp]: "events_frame st st"
  by (simp add: events_frame_def)

lemma events_frame_trans: "events_frame a b \<Longrightarrow> events_frame b c \<Longrightarrow> events_frame a c"
  by (simp add: events_frame_def)

lemma events_frame_set_generator [simp]: "events_frame st (set_generator g gen st)"
  by (simp add: events_frame_def set_generator_def)

lemma events_frame_add_reference_cnt [simp]: "events_frame st (add_reference_cnt i d st)"
  by (simp add: events_frame_def add_reference_cnt_def Let_def)

lemma events_frame_update:
  "classic_step_generator_update g st = Inr st' \<Longrightarrow> events_frame st st'"
  using classic_step_generator_update_Inr[of g st st'] by auto

lemma events_frame_clear_reached_end_flags:
  "clear_reached_end_flags as st = Inr st' \<Longrightarrow> events_frame st st'"
proof (induction as arbitrary: st)
  case Nil
  then show ?case by simp
next
  case (Cons a as)
  from Cons.prems obtain g where
    r: "clear_reached_end_flags as
          (set_generator g ((xyze_get (step_generators_pool st) g)\<lparr>csg_reached_end_of_move_queue := False\<rparr>) st)
        = Inr st'"
    by (auto split: option.splits)
  show ?case
    by (rule events_frame_trans[OF events_frame_set_generator Cons.IH[OF r]])
qed

lemma events_frame_classic_step_generator_init:
  assumes "classic_step_generator_init move g st = Inr st'"
  shows "events_frame st st'"
proof -
  let ?st1 = "set_generator g ((xyze_get (step_generators_pool st) g)\<lparr>csg_current_move := Some move\<rparr>) st"
  from assms obtain ss2 where
    u: "classic_step_generator_update g (add_reference_cnt move 1 (?st1\<lparr>step_generator_state := ss2\<rparr>)) = Inr st'"
    and b: "sgs_buffered_step ss2 = sgs_buffered_step (step_generator_state ?st1)"
    by (auto simp: classic_step_generator_init_def Let_def split: if_splits)
  have a: "events_frame st (?st1\<lparr>step_generator_state := ss2\<rparr>)"
    using b by (simp add: events_frame_def set_generator_def)
  show ?thesis
    by (rule events_frame_trans[OF a events_frame_trans[OF events_frame_add_reference_cnt events_frame_update[OF u]]])
qed

lemma events_frame_classic_step_generator_init_all:
  "classic_step_generator_init_all move gs st = Inr st' \<Longrightarrow> events_frame st st'"
proof (induction gs arbitrary: st)
  case Nil
  then show ?case by simp
next
  case (Cons g gs)
  from Cons.prems obtain st1 where i: "classic_step_generator_init move g st = Inr st1"
    and r: "classic_step_generator_init_all move gs st1 = Inr st'"
    by (auto split: sum.splits)
  show ?case
    by (rule events_frame_trans[OF events_frame_classic_step_generator_init[OF i] Cons.IH[OF r]])
qed

lemma step_generator_state_init_events:
  assumes "step_generator_state_init move st = Inr st'"
  shows "step_event_queue st' = step_event_queue st"
    and "ticks_per_sec st' = ticks_per_sec st"
    and "se_flags (sgs_buffered_step (step_generator_state st')) = 0"
proof -
  define ss1 where "ss1 = (step_generator_state st)
          \<lparr>sgs_flags := 0,
           sgs_previous_step_time := 0,
           sgs_buffered_step := (sgs_buffered_step (step_generator_state st))\<lparr>se_flags := 0\<rparr>,
           sgs_current_distance := XYZE 0 0 0 0,
           sgs_left_insert_start_of_move_segment := 0,
           sgs_step_event_index := [X_AXIS, Y_AXIS, Z_AXIS, E_AXIS],
           sgs_step_events := XYZE \<lparr>sei_time = 0, sei_flags = 0\<rparr> \<lparr>sei_time = 0, sei_flags = 0\<rparr>
                                   \<lparr>sei_time = 0, sei_flags = 0\<rparr> \<lparr>sei_time = 0, sei_flags = 0\<rparr>\<rparr>"
  have b: "se_flags (sgs_buffered_step ss1) = 0" by (simp add: ss1_def)
  from assms have e: "(case clear_reached_end_flags [X_AXIS, Y_AXIS, Z_AXIS, E_AXIS] (st\<lparr>step_generator_state := ss1\<rparr>) of
              Inl e \<Rightarrow> Inl e
            | Inr st1 \<Rightarrow>
                (case classic_step_generator_init_all move [X_AXIS, Y_AXIS, Z_AXIS, E_AXIS] st1 of
                   Inl e \<Rightarrow> Inl e
                 | Inr st2 \<Rightarrow>
                     Inr (st2\<lparr>step_generator_state := (step_generator_state st2)\<lparr>sgs_initialized := True\<rparr>\<rparr>))) = Inr st'"
    unfolding step_generator_state_init_def Let_def ss1_def[symmetric]
    by (simp split: if_splits del: clear_reached_end_flags.simps classic_step_generator_init_all.simps)
  then obtain st1 where
    c: "clear_reached_end_flags [X_AXIS, Y_AXIS, Z_AXIS, E_AXIS] (st\<lparr>step_generator_state := ss1\<rparr>) = Inr st1"
    by (cases "clear_reached_end_flags [X_AXIS, Y_AXIS, Z_AXIS, E_AXIS] (st\<lparr>step_generator_state := ss1\<rparr>)") simp_all
  with e obtain st2 where
    i: "classic_step_generator_init_all move [X_AXIS, Y_AXIS, Z_AXIS, E_AXIS] st1 = Inr st2"
    and s: "st' = st2\<lparr>step_generator_state := (step_generator_state st2)\<lparr>sgs_initialized := True\<rparr>\<rparr>"
    by (cases "classic_step_generator_init_all move [X_AXIS, Y_AXIS, Z_AXIS, E_AXIS] st1") simp_all
  have "events_frame (st\<lparr>step_generator_state := ss1\<rparr>) st2"
    by (rule events_frame_trans[OF events_frame_clear_reached_end_flags[OF c]
          events_frame_classic_step_generator_init_all[OF i]])
  with b s show "step_event_queue st' = step_event_queue st"
    and "ticks_per_sec st' = ticks_per_sec st"
    and "se_flags (sgs_buffered_step (step_generator_state st')) = 0"
    by (simp_all add: events_frame_def)
qed

lemma process_one_move_segment_from_queue_events_ok:
  assumes ok: "events_ok P st"
    and r: "R (ticks_per_sec st)"
    and gen: "\<And>st flush_time d ev st1. R (ticks_per_sec st)
                \<Longrightarrow> generate_next_step_event cfg uninit flush_time st = Inr (d, ev, st1)
                \<Longrightarrow> se_flags ev \<noteq> 0 \<Longrightarrow> P ev"
    and closed: "\<And>e f. P e \<Longrightarrow> se_flags e \<noteq> 0 \<Longrightarrow> P (e\<lparr>se_flags := se_flags e OR f\<rparr>)"
    and D: "\<And>f x. P \<lparr>se_time_ticks = 0, se_flags = f OR STEP_EVENT_FLAG_BEGINNING_OF_MOVE_SEGMENT OR x\<rparr>"
    and restart: "\<And>p. (se_flags (sgs_buffered_step (fst p)) \<noteq> 0 \<longrightarrow> P (sgs_buffered_step (fst p)))
          \<Longrightarrow> se_flags (sgs_buffered_step (fst (step_generator_state_restart cfg p))) \<noteq> 0
          \<Longrightarrow> P (sgs_buffered_step (fst (step_generator_state_restart cfg p)))"
    and res: "process_one_move_segment_from_queue cfg uninit st = Inr (status, st')"
  shows "events_ok P st'"
proof -
  define looped where "looped =
     (case get_current_unprocessed_move_segment st of
        None \<Rightarrow> Inr (None, 0, st)
      | Some move \<Rightarrow>
          (case (if \<not> sgs_initialized (step_generator_state st)
                 then step_generator_state_init move st else Inr st) of
             Inl e \<Rightarrow> Inl e
           | Inr st1 \<Rightarrow>
               (let flush_time = total_print_time st1 - max_lookback_time st1;
                    st2 = apply_merger_helper (step_generator_state_restart cfg) st1
                in produce_loop cfg uninit flush_time 0 st2)))"
  from res obtain ro cnt st3 where l: "looped = Inr (ro, cnt, st3)"
    by (auto simp: process_one_move_segment_from_queue_def looped_def[symmetric] Let_def split: sum.splits)
  have ok3: "events_ok P st3"
  proof (cases "get_current_unprocessed_move_segment st")
    case None
    with l ok show ?thesis by (simp add: looped_def)
  next
    case (Some move)
    with l obtain st1 where
      i: "(if \<not> sgs_initialized (step_generator_state st)
           then step_generator_state_init move st else Inr st) = Inr st1"
      and p: "produce_loop cfg uninit (total_print_time st1 - max_lookback_time st1) 0
                (apply_merger_helper (step_generator_state_restart cfg) st1) = Inr (ro, cnt, st3)"
      by (auto simp: looped_def Let_def split: sum.splits)
    have ok1: "events_ok P st1 \<and> ticks_per_sec st1 = ticks_per_sec st"
    proof (cases "sgs_initialized (step_generator_state st)")
      case True
      with i ok show ?thesis by simp
    next
      case False
      with i have "step_generator_state_init move st = Inr st1" by simp
      from step_generator_state_init_events[OF this] ok show ?thesis by (simp add: events_ok_def)
    qed
    let ?st2 = "apply_merger_helper (step_generator_state_restart cfg) st1"
    have b2: "sgs_buffered_step (step_generator_state ?st2)
              = sgs_buffered_step (fst (step_generator_state_restart cfg (step_generator_state st1, step_generators_pool st1)))"
      by (simp add: apply_merger_helper_def split: prod.splits)
    have "se_flags (sgs_buffered_step (step_generator_state ?st2)) \<noteq> 0
          \<longrightarrow> P (sgs_buffered_step (step_generator_state ?st2))"
      unfolding b2 using restart[of "(step_generator_state st1, step_generators_pool st1)"] ok1
      by (auto simp: events_ok_def)
    with ok1 have ok2: "events_ok P ?st2" by (simp add: events_ok_def)
    have r2: "R (ticks_per_sec ?st2)" using r ok1 by simp
    have "events_ok P st3 \<and> ticks_per_sec st3 = ticks_per_sec ?st2"
      by (rule produce_loop_events_ok[where R = R, OF ok2 r2 p]) (erule (2) gen, erule (1) closed)
    then show ?thesis by simp
  qed
  show ?thesis
  proof (cases "ro = None \<and> cnt = 0")
    case False
    with res l have "st' = st3"
      by (auto simp: process_one_move_segment_from_queue_def looped_def[symmetric] Let_def
               split: option.splits if_splits)
    with ok3 show ?thesis by simp
  next
    case True
    with res l obtain r4 where f: "finish_on_ending_move st3 = Inr (r4, st')"
      by (auto simp: process_one_move_segment_from_queue_def looped_def[symmetric] Let_def
               split: sum.splits option.splits)
    show ?thesis by (rule finish_on_ending_move_events_ok[OF ok3 _ f]) (rule D)
  qed
qed

lemma draining_iteration:
  "classic_next_step_iteration example_config X_AXIS 1
     (draining_engine\<lparr>step_generator_state := ss\<rparr>)
   = Inr (StepDone \<lparr>sei_time = DBL_MAX, sei_flags = 0\<rparr>
            (set_reached_end X_AXIS (draining_engine\<lparr>step_generator_state := ss\<rparr>)))"
  by (simp add: classic_next_step_iteration_def Let_def draining_engine_def stepping_engine_def halted_engine_def
      attached_generator_def detached_generator_def classic_step_time_def example_config_def
      uniform_time_for_distance_def needs_next_segment_def move_segment_queue_next_move_def
      queue_next_index_def)

lemma draining_engine_merger:
  "sgs_step_event_index (step_generator_state draining_engine) = [X_AXIS, Y_AXIS, Z_AXIS, E_AXIS]"
  "sgs_step_events (step_generator_state draining_engine)
     = XYZE \<lparr>sei_time = 1 / 1048576, sei_flags = STEP_EVENT_FLAG_STEP_X\<rparr>
            \<lparr>sei_time = DBL_MAX, sei_flags = 0\<rparr> \<lparr>sei_time = DBL_MAX, sei_flags = 0\<rparr>
            \<lparr>sei_time = DBL_MAX, sei_flags = 0\<rparr>"
  "sgs_previous_step_time (step_generator_state draining_engine) = 0"
  "sgs_left_insert_start_of_move_segment (step_generator_state draining_engine) = 1"
  "sgs_buffered_step (step_generator_state draining_engine) = x_step_event"
  "sgs_initialized (step_generator_state draining_engine)"
  "ticks_per_sec draining_engine = 1000000"
  "total_print_time draining_engine = 1"
  "max_lookback_time draining_engine = 0"
  "step_event_queue draining_engine = step_event_queue halted_engine"
  by (simp_all add: draining_engine_def stepping_engine_def halted_merger_def halted_engine_def)

lemma draining_emit:
  "emit_nearest_step_event example_config ev0 X_AXIS draining_engine
     = Inr (x_first_step_event,
            (step_generator_state draining_engine)
              \<lparr>sgs_left_insert_start_of_move_segment := 0, sgs_previous_step_time := 1 / 1048576\<rparr>)"
  by (simp add: emit_nearest_step_event_def Let_def draining_engine_merger small_time_not_max
      step_x_nonzero int32_of_double_def truncate_toward_zero_def x_first_step_event_def
      step_time_relative_in_ticks_def example_config_arith)

lemma draining_next:
  "step_generator_next_step_event example_config X_AXIS 1
     (draining_engine\<lparr>step_generator_state := ss\<rparr>)
   = (case x_of (sgs_next_step_func ss) of None \<Rightarrow> Inl NullPointer
      | Some classic_next_step_f \<Rightarrow>
        (case x_of (sgs_step_generator ss) of None \<Rightarrow> Inl NullPointer
         | Some g \<Rightarrow> if g = X_AXIS then
   Inr (\<lparr>sei_time = DBL_MAX, sei_flags = 0\<rparr>,
          set_reached_end X_AXIS (draining_engine\<lparr>step_generator_state := ss\<rparr>))
   else classic_step_generator_next_step_event example_config g 1 (draining_engine\<lparr>step_generator_state := ss\<rparr>)))"
proof -
  have a: "csg_current_move (x_of (step_generators_pool draining_engine)) = Some 0"
    by (simp_all add: draining_engine_def stepping_engine_def halted_merger_def halted_engine_def attached_generator_def)
  show ?thesis
    by (simp add: step_generator_next_step_event_def Let_def a
        classic_step_generator_next_step_event_def classic_next_step_loop.simps
        draining_iteration split: option.splits generator_next_step_f.splits)
qed

lemma draining_generate:
  "generate_next_step_event example_config ev0 1 draining_engine
     = Inr (True, x_first_step_event, draining_generated)"
  by (simp add: generate_next_step_event_def draining_engine_merger(1) draining_emit draining_next
      Let_def step_generator_state_update_nearest_idx_def draining_generated_def)
     (simp add: draining_engine_def stepping_engine_def halted_merger_def halted_engine_def
        set_reached_end_def set_generator_def Let_def step_generator_state_update_nearest_idx_def)

lemma draining_generated_fields:
  "step_event_queue draining_generated = step_event_queue halted_engine"
  "sgs_buffered_step (step_generator_state draining_generated) = x_step_event"
  "step_generator_state (write_step_event a b c st) = step_generator_state st"
  by (simp_all add: draining_generated_def set_reached_end_def set_generator_def draining_engine_merger
        write_step_event_def)

lemma halted_queue_next_free:
  "queue_next_free (step_event_queue halted_engine) = Some (0, 1)"
  by (simp add: queue_next_free_def queue_is_full_def queue_next_index_def halted_engine_def)

lemma x_events_not_merged:
  "\<not> merge_allowed example_config x_step_event x_first_step_event"
  "se_flags x_step_event \<noteq> 0" "se_flags x_first_step_event \<noteq> 0"
  by (simp_all add: merge_allowed_def x_step_event_def x_first_step_event_def example_config_def step_flag_defs)

lemma draining_produce_iteration:
  "produce_iteration example_config ev0 1 draining_engine = Inr (LoopBreak, draining_buffered)"
  by (simp add: produce_iteration_def Let_def draining_engine_merger halted_queue_next_free
      draining_generate accumulate_or_flush_def draining_generated_fields x_events_not_merged
      draining_buffered_def)

lemma example_config_producer:
  "MAX_STEP_EVENTS_PRODUCED_PER_ONE_CALL example_config = 4"
  "step_generator_state_restart example_config = (\<lambda>p. p)"
  by (simp_all add: example_config_def)

lemma draining_produce_loop:
  "produce_loop example_config ev0 1 0 draining_engine = Inr (None, 0, draining_buffered)"
  by (subst produce_loop.simps) (simp add: draining_produce_iteration example_config_producer)

lemma draining_buffered_fields:
  "get_current_unprocessed_move_segment draining_buffered = Some 0"
  "is_ending_empty_move (q_data (move_segment_queue draining_buffered) ! 0)"
  "sgs_buffered_step (step_generator_state draining_buffered) = x_first_step_event"
  "queue_next_free (step_event_queue draining_buffered) = Some (1, 2)"
  "sgs_left_insert_start_of_move_segment (step_generator_state draining_buffered) = 0"
  "sgs_flags (step_generator_state draining_buffered) = 0"
  by (simp_all add: draining_buffered_def draining_generated_def write_step_event_def
       set_reached_end_def set_generator_def draining_engine_def stepping_engine_def
       halted_engine_def halted_merger_def get_current_unprocessed_move_segment_def Let_def
       is_ending_empty_move_def empty_move_def MOVE_FLAG_ENDING_EMPTY_MOVE_def BV_def
       queue_next_free_def queue_is_full_def queue_next_index_def)

lemma discarding_loop_done:
  "sgs_left_insert_start_of_move_segment (step_generator_state st) \<le> 0 \<Longrightarrow> discarding_loop st = st"
  by (subst discarding_loop.simps) simp

lemmas draining_defs =
  draining_flushed_def draining_buffered_def draining_generated_def write_step_event_def
  set_reached_end_def set_generator_def draining_engine_def stepping_engine_def halted_engine_def
  halted_merger_def

lemma draining_flushed_fields:
  "sgs_left_insert_start_of_move_segment (step_generator_state draining_flushed) = 0"
  "\<not> queue_is_full (step_event_queue draining_flushed)"
  "queue_next_free (step_event_queue draining_flushed) = Some (2, 3)"
  "sgs_flags (step_generator_state draining_flushed) = 0"
  by (simp_all add: draining_defs queue_is_full_def queue_next_index_def queue_next_free_def)

lemma draining_flushed_loop: "discarding_loop draining_flushed = draining_flushed"
  by (rule discarding_loop_done) (simp add: draining_flushed_fields)

lemma draining_end_of_motion:
  "append_move_discarding_step_event STEP_EVENT_END_OF_MOTION
     (discard_current_unprocessed_move_segment draining_flushed) = (True, drained_engine)"
  by (simp add: append_move_discarding_step_event_def draining_flushed_fields Let_def
        drained_engine_def end_of_motion_event_def)
     (simp add: write_step_event_def)

lemma draining_flush:
  "write_step_event (Suc 0) 2 x_first_step_event draining_buffered
     \<lparr>step_generator_state :=
        step_generator_state (write_step_event (Suc 0) 2 x_first_step_event draining_buffered)
          \<lparr>sgs_buffered_step :=
             sgs_buffered_step (step_generator_state
                 (write_step_event (Suc 0) 2 x_first_step_event draining_buffered))
               \<lparr>se_flags := 0\<rparr>\<rparr>\<rparr>
   = draining_flushed"
  by (simp add: draining_flushed_def write_step_event_def draining_buffered_fields)

lemma draining_finish:
  "finish_on_ending_move draining_buffered = Inr (None, drained_engine)"
  by (simp add: finish_on_ending_move_def draining_buffered_fields x_events_not_merged Let_def
        draining_flush draining_flushed_loop draining_flushed_fields draining_end_of_motion)

lemma draining_run:
  "process_one_move_segment_from_queue example_config ev0 draining_engine
     = Inr (STEP_GENERATOR_STATUS_NO_STEP_EVENT_PRODUCED, drained_engine)"
proof -
  have a: "get_current_unprocessed_move_segment draining_engine = Some 0"
    by (simp add: get_current_unprocessed_move_segment_def draining_engine_def stepping_engine_def
          halted_engine_def)
  have b: "apply_merger_helper (\<lambda>p. p) draining_engine = draining_engine"
    by (simp add: apply_merger_helper_def)
  show ?thesis
    by (simp add: process_one_move_segment_from_queue_def a b draining_engine_merger Let_def
          example_config_producer draining_produce_loop draining_finish)
qed

lemma drained_engine_queue:
  "queue_contents (step_event_queue drained_engine)
     = [x_step_event, x_first_step_event, end_of_motion_event]"
  "queue_wf (step_event_queue drained_engine)"
  "se_flags (sgs_buffered_step (step_generator_state drained_engine)) = 0"
  by (simp_all add: drained_engine_def draining_defs Let_def queue_contents_def queue_size_def queue_wf_def
       discard_current_unprocessed_move_segment_def queue_next_index_def numeral_2_eq_2 numeral_3_eq_3)

lemma word_or_nonzero: "a \<noteq> 0 \<Longrightarrow> a OR f \<noteq> 0" for a f :: "16 word"
  by (simp add: or_eq_0_iff)

lemma discarding_flags_nonzero:
  "f OR STEP_EVENT_FLAG_BEGINNING_OF_MOVE_SEGMENT OR x \<noteq> 0"
proof -
  have "STEP_EVENT_FLAG_BEGINNING_OF_MOVE_SEGMENT \<noteq> 0"
    by (simp add: STEP_EVENT_FLAG_BEGINNING_OF_MOVE_SEGMENT_def BV_def)
  then show ?thesis by (simp add: or_eq_0_iff)
qed

lemma classic_step_event_has_step_bit:
  assumes "classic_next_step_iteration cfg g flush_time st = Inr (StepDone ev st')"
  shows "(sei_time ev = DBL_MAX \<and> sei_flags ev = 0)
         \<or> sei_flags ev AND push_bit (axis_num (csg_axis (xyze_get (step_generators_pool st) g))) STEP_EVENT_FLAG_STEP_X
             = push_bit (axis_num (csg_axis (xyze_get (step_generators_pool st) g))) STEP_EVENT_FLAG_STEP_X"
  using assms
  by (auto simp: classic_next_step_iteration_def Let_def bit_eq_iff bit_and_iff bit_or_iff
           split: option.splits if_splits sum.splits)

text \<open>C10. Every step event in the step event queue has non-zero flags: when the queue
  holds only events with non-zero flags, it still does after a call of
  \<^verbatim>\<open>process_one_move_segment_from_queue\<close>, the only function that writes the queue. The
  merger puts out an event only after the assertion that its flags are non-zero, a
  discarding event carries the bit \<^verbatim>\<open>STEP_EVENT_FLAG_BEGINNING_OF_MOVE_SEGMENT\<close>, and the
  buffered step is written only when its flags are non-zero.\<close>

theorem step_events_have_flags:
  assumes wf: "queue_wf (step_event_queue st)"
    and q: "list_all (\<lambda>e. se_flags e \<noteq> 0) (queue_contents (step_event_queue st))"
    and res: "process_one_move_segment_from_queue cfg uninit st = Inr (status, st')"
  shows "queue_wf (step_event_queue st')
         \<and> list_all (\<lambda>e. se_flags e \<noteq> 0) (queue_contents (step_event_queue st'))"
proof -
  have ok: "events_ok (\<lambda>e. se_flags e \<noteq> 0) st"
    using wf q by (simp add: events_ok_def)
  have "events_ok (\<lambda>e. se_flags e \<noteq> 0) st'"
  proof (rule process_one_move_segment_from_queue_events_ok[where R = "\<lambda>t. True" and cfg = cfg
            and uninit = uninit and status = status, OF ok _ _ _ _ _ res])
    show True ..
  next
    fix ev :: step_event_t assume "se_flags ev \<noteq> 0" then show "se_flags ev \<noteq> 0" .
  next
    fix e :: step_event_t and f assume "se_flags e \<noteq> 0"
    then show "se_flags (e\<lparr>se_flags := se_flags e OR f\<rparr>) \<noteq> 0" by (simp add: word_or_nonzero)
  next
    fix f x show "se_flags \<lparr>se_time_ticks = 0,
        se_flags = f OR STEP_EVENT_FLAG_BEGINNING_OF_MOVE_SEGMENT OR x\<rparr> \<noteq> 0"
      by (simp add: discarding_flags_nonzero)
  next
    fix p :: "step_generator_state_t \<times> classic_step_generator_t xyze"
    assume "se_flags (sgs_buffered_step (fst (step_generator_state_restart cfg p))) \<noteq> 0"
    then show "se_flags (sgs_buffered_step (fst (step_generator_state_restart cfg p))) \<noteq> 0" .
  qed
  then show ?thesis by (simp add: events_ok_def)
qed

theorem step_events_have_flags_witness:
  "process_one_move_segment_from_queue example_config \<lparr>se_time_ticks = 0, se_flags = 0\<rparr> draining_engine
     = Inr (STEP_GENERATOR_STATUS_NO_STEP_EVENT_PRODUCED, drained_engine)
   \<and> queue_contents (step_event_queue draining_engine) = []
   \<and> queue_contents (step_event_queue drained_engine)
       = [x_step_event, x_first_step_event, end_of_motion_event]
   \<and> list_all (\<lambda>e. se_flags e \<noteq> 0) (queue_contents (step_event_queue drained_engine))"
proof -
  have c: "queue_contents (step_event_queue draining_engine) = []"
    by (simp add: draining_engine_merger halted_engine_def queue_contents_def queue_size_def)
  have wf: "queue_wf (step_event_queue draining_engine)"
    by (simp add: draining_engine_merger halted_engine_def queue_wf_def)
  have q: "list_all (\<lambda>e. se_flags e \<noteq> 0) (queue_contents (step_event_queue draining_engine))"
    by (simp add: c)
  from step_events_have_flags[OF wf q draining_run]
  show ?thesis using draining_run c drained_engine_queue(1) by simp
qed



















section \<open>Properties of the reference counts\<close>

text \<open>The reference count of the segment in slot \<open>i\<close> of the move segment ring, the number of
  generators of the pool whose \<^verbatim>\<open>current_move\<close> points at slot \<open>i\<close>, and the soundness of the
  count of slot \<open>i\<close>.\<close>

definition reference_cnt :: "engine \<Rightarrow> nat \<Rightarrow> int" where
  "reference_cnt st i = mv_reference_cnt (q_data (move_segment_queue st) ! i)"

definition points_at :: "engine \<Rightarrow> nat \<Rightarrow> axis \<Rightarrow> int" where
  "points_at st i g = (if csg_current_move (xyze_get (step_generators_pool st) g) = Some i then 1 else 0)"

definition generators_at :: "engine \<Rightarrow> nat \<Rightarrow> int" where
  "generators_at st i = points_at st i X_AXIS + points_at st i Y_AXIS + points_at st i Z_AXIS + points_at st i E_AXIS"










lemma reference_cnt_frame [simp]:
  "reference_cnt (set_generator g gen st) i = reference_cnt st i"
  "reference_cnt (move_segment_processed_handler st) i = reference_cnt st i"
  "reference_cnt (st\<lparr>step_generator_state := ss\<rparr>) i = reference_cnt st i"
  by (simp_all add: reference_cnt_def)

lemma generators_at_frame [simp]:
  "generators_at (add_reference_cnt j d st) i = generators_at st i"
  "generators_at (move_segment_processed_handler st) i = generators_at st i"
  "generators_at (st\<lparr>step_generator_state := ss\<rparr>) i = generators_at st i"
  by (simp_all add: generators_at_def points_at_def)

lemma points_at_frame [simp]:
  "points_at (add_reference_cnt j d st) i h = points_at st i h"
  "points_at (move_segment_processed_handler st) i h = points_at st i h"
  "points_at (st\<lparr>step_generator_state := ss\<rparr>) i h = points_at st i h"
  by (simp_all add: points_at_def)















end
